(* ===== verification/Prelude.thy ===== *)
theory Prelude
  imports Main "HOL-Library.Word"
begin

text \<open>
  The vocabulary every component shares.

  A Rust function that returns \<open>Result<T, E>\<close> and may panic is an \<open>action\<close>: it takes the
  state and gives an \<open>outcome\<close> (\<open>Ok\<close>, \<open>Err\<close> or \<open>Panic\<close>) with the state it leaves.
  \<open>try_then\<close> is the operator \<open>?\<close> followed by the rest of the function, \<open>match_result\<close> is a
  \<open>match\<close> over a \<open>Result\<close>, \<open>map_err\<close> the method of that name, and \<open>finally_do\<close> runs a
  destructor when a scope is left, on every way out of it. \<open>bracket\<close> is the pattern
  \<open>let guard = acquire()?; body\<close>, whose guard is dropped at the end of the scope.

  The collection \<open>effect_defs\<close> unfolds all of these; \<open>effect_simps\<close> runs them one step at
  a time.
\<close>

named_theorems effect_defs
named_theorems effect_simps

section \<open>Outcomes and actions\<close>

datatype ('a, 'e) outcome = Ok 'a | Err 'e | Panic string

type_synonym ('s, 'a, 'e) action = "'s \<Rightarrow> ('a, 'e) outcome \<times> 's"

definition ret :: "'a \<Rightarrow> ('s, 'a, 'e) action" where
  [effect_defs]: "ret x s = (Ok x, s)"

definition fail :: "'e \<Rightarrow> ('s, 'a, 'e) action" where
  [effect_defs]: "fail e s = (Err e, s)"

definition panic :: "string \<Rightarrow> ('s, 'a, 'e) action" where
  [effect_defs]: "panic msg s = (Panic msg, s)"

definition gets :: "('s \<Rightarrow> 'a) \<Rightarrow> ('s, 'a, 'e) action" where
  [effect_defs]: "gets f s = (Ok (f s), s)"

definition modify :: "('s \<Rightarrow> 's) \<Rightarrow> ('s, unit, 'e) action" where
  [effect_defs]: "modify f s = (Ok (), f s)"

definition lift_outcome :: "('a, 'e) outcome \<Rightarrow> ('s, 'a, 'e) action" where
  [effect_defs]: "lift_outcome r s = (r, s)"

definition try_then :: "('s, 'a, 'e) action \<Rightarrow> ('a \<Rightarrow> ('s, 'b, 'e) action) \<Rightarrow> ('s, 'b, 'e) action" where
  [effect_defs]: "try_then m k s = (case m s of
     (Ok x, t) \<Rightarrow> k x t
   | (Err e, t) \<Rightarrow> (Err e, t)
   | (Panic p, t) \<Rightarrow> (Panic p, t))"

definition match_result ::
  "('s, 'a, 'e) action \<Rightarrow> ('a \<Rightarrow> ('s, 'b, 'f) action) \<Rightarrow> ('e \<Rightarrow> ('s, 'b, 'f) action) \<Rightarrow> ('s, 'b, 'f) action" where
  [effect_defs]: "match_result m k h s = (case m s of
     (Ok x, t) \<Rightarrow> k x t
   | (Err e, t) \<Rightarrow> h e t
   | (Panic p, t) \<Rightarrow> (Panic p, t))"

definition map_err :: "('e \<Rightarrow> 'f) \<Rightarrow> ('s, 'a, 'e) action \<Rightarrow> ('s, 'a, 'f) action" where
  [effect_defs]: "map_err f m s = (case m s of
     (Ok x, t) \<Rightarrow> (Ok x, t)
   | (Err e, t) \<Rightarrow> (Err (f e), t)
   | (Panic p, t) \<Rightarrow> (Panic p, t))"

definition finally_do :: "('s, 'a, 'e) action \<Rightarrow> ('s \<Rightarrow> 's) \<Rightarrow> ('s, 'a, 'e) action" where
  [effect_defs]: "finally_do m d s = (case m s of (r, t) \<Rightarrow> (r, d t))"

definition bracket ::
  "('s, 'g, 'e) action \<Rightarrow> ('g \<Rightarrow> 's \<Rightarrow> 's) \<Rightarrow> ('g \<Rightarrow> ('s, 'a, 'e) action) \<Rightarrow> ('s, 'a, 'e) action" where
  [effect_defs]: "bracket acquire release body =
     try_then acquire (\<lambda>g. finally_do (body g) (release g))"

section \<open>Running actions\<close>

lemma try_then_simps [effect_simps]:
  "try_then (ret x) k = k x"
  "try_then (fail e) k = fail e"
  "try_then (panic p) k = panic p"
  by (auto simp: effect_defs)

lemma lift_outcome_simps [effect_simps, simp]:
  "lift_outcome (Ok x) = ret x" "lift_outcome (Err e) = fail e" "lift_outcome (Panic p) = panic p"
  by (auto simp: effect_defs)

lemma try_then_Ok [effect_simps]: "m s = (Ok x, t) \<Longrightarrow> try_then m k s = k x t"
  by (simp add: effect_defs)

lemma try_then_Err [effect_simps]: "m s = (Err e, t) \<Longrightarrow> try_then m k s = (Err e, t)"
  by (simp add: effect_defs)

lemma try_then_Panic [effect_simps]: "m s = (Panic p, t) \<Longrightarrow> try_then m k s = (Panic p, t)"
  by (simp add: effect_defs)

lemma try_then_assoc:
  "try_then (try_then m k) l = try_then m (\<lambda>x. try_then (k x) l)"
  by (auto simp: effect_defs fun_eq_iff split: prod.splits outcome.splits)

lemma try_then_OkE:
  assumes "try_then m k s = (Ok y, u)"
  obtains x t where "m s = (Ok x, t)" "k x t = (Ok y, u)"
  using assms by (auto simp: effect_defs split: prod.splits outcome.splits)

lemma bracket_Ok [effect_simps]:
  "acquire s = (Ok g, t) \<Longrightarrow>
   bracket acquire release body s = (fst (body g t), release g (snd (body g t)))"
  by (simp add: effect_defs split: prod.splits)

lemma bracket_Err [effect_simps]:
  "acquire s = (Err e, t) \<Longrightarrow> bracket acquire release body s = (Err e, t)"
  by (simp add: effect_defs)

lemma finally_do_outcome [simp]: "fst (finally_do m d s) = fst (m s)"
  by (simp add: effect_defs split: prod.splits)

lemma finally_do_state [simp]: "snd (finally_do m d s) = d (snd (m s))"
  by (simp add: effect_defs split: prod.splits)

section \<open>An action on a part of the state\<close>

text \<open>
  \<open>on_part get put m\<close> runs an action of a component (a cell, a table) on the part of the
  larger state that holds it.
\<close>

definition on_part ::
  "('s \<Rightarrow> 'c) \<Rightarrow> ('c \<Rightarrow> 's \<Rightarrow> 's) \<Rightarrow> ('c, 'a, 'e) action \<Rightarrow> ('s, 'a, 'e) action" where
  [effect_defs]: "on_part get put m s = (case m (get s) of (r, c) \<Rightarrow> (r, put c s))"

lemma on_part_simp [effect_simps]: "m (get s) = (r, c) \<Longrightarrow> on_part get put m s = (r, put c s)"
  by (simp add: effect_defs)

section \<open>Futures\<close>

text \<open>
  \<open>std::task\<close>: what polling a future answers, and the context it is polled with, which is the
  state around the task and whether the task's waker was called. \<open>poll_times\<close> polls until
  the future is ready, at most so many times more.
\<close>

datatype 'a poll = Ready 'a | Pending

record 's task_context =
  woken :: bool
  outside :: 's

definition wake_by_ref :: "'s task_context \<Rightarrow> 's task_context" where
  "wake_by_ref cx = cx\<lparr>woken := True\<rparr>"

text \<open>A poll may loop for ever, which is the value \<open>None\<close>.\<close>

type_synonym ('f, 's, 'r) poll_fn = "'f \<Rightarrow> 's task_context \<Rightarrow> ('r poll \<times> 'f \<times> 's task_context) option"

primrec poll_times :: "('f, 's, 'r) poll_fn \<Rightarrow> nat \<Rightarrow> ('f, 's, 'r) poll_fn" where
  "poll_times p 0 f cx = p f cx"
| "poll_times p (Suc n) f cx = (case p f cx of
     Some (Ready r, f', cx') \<Rightarrow> Some (Ready r, f', cx')
   | Some (Pending, f', cx') \<Rightarrow> poll_times p n f' cx'
   | None \<Rightarrow> None)"

section \<open>Decimal text\<close>

text \<open>The \<open>Display\<close> text of an integer, which the error messages of the code carry.\<close>

definition digit_char :: "int \<Rightarrow> char" where
  "digit_char d = char_of (48 + d)"

function show_digits :: "int \<Rightarrow> string" where
  "show_digits n = (if n < 10 then [digit_char n]
                    else show_digits (n div 10) @ [digit_char (n mod 10)])"
  by pat_completeness auto
termination
  by (relation "measure nat") auto

declare show_digits.simps [simp del]

definition show_int :: "int \<Rightarrow> string" where
  "show_int i = (if i < 0 then ''-'' @ show_digits (- i) else show_digits i)"

end
