(* ===== verification/RubyTypes.thy ===== *)
theory RubyTypes
  imports Prelude
begin

text \<open>
  The Ruby values, exception classes and errors the crate handles.

  \<open>Value\<close> lists the shapes of value the crate builds or inspects: \<open>nil\<close>, booleans, integers,
  strings, arrays and references to other heap objects (the raw \<open>VALUE\<close> word). \<open>error\<close> is
  \<open>magnus::Error\<close> with the three constructors that \<open>Fiber::raise\<close> matches on.

  The constructors of errors are those of \<open>errors.rs\<close>: the classes it defines and the macros
  that build an \<open>Err\<close> of each with a formatted message.
\<close>

section \<open>Values\<close>

datatype Value =
    VNil
  | VBool bool
  | VInt int
  | VStr string
  | VArr "Value list"
  | VRef "64 word"

definition is_nil :: "Value \<Rightarrow> bool" where
  "is_nil v \<longleftrightarrow> v = VNil"

section \<open>Exception classes\<close>

text \<open>
  The classes the crate names. \<open>RubyClass\<close> is one given by the caller (\<open>timeout_after\<close>).
\<close>

datatype exc_class =
    StandardError
  | RuntimeError
  | TypeError
  | NotImpError
  | PoisonedCellError
  | SchedulerError
  | ReadyError
  | TimeoutError
  | RubyClass "64 word"

datatype error =
    Error exc_class string
  | Exception Value
  | Jump nat

text \<open>
  \<open>errors.rs\<close>: the base class of the scheduler, the ready error below it and the class found
  at \<open>Timeout::Error\<close>. \<open>defined_superclass\<close> is the superclass given to \<open>define_error\<close>, for the
  classes this file defines.
\<close>

definition base_error :: exc_class where
  "base_error = SchedulerError"

definition timeout_error :: exc_class where
  "timeout_error = TimeoutError"

definition ready_error :: exc_class where
  "ready_error = ReadyError"

definition defined_superclass :: "exc_class \<Rightarrow> exc_class option" where
  "defined_superclass c =
     (if c = base_error then Some StandardError
      else if c = ready_error then Some base_error
      else None)"

definition new_ready_error :: "string \<Rightarrow> error" where
  "new_ready_error msg = Error ready_error msg"

definition new_base_error :: "string \<Rightarrow> error" where
  "new_base_error msg = Error base_error msg"

definition new_type_error :: "string \<Rightarrow> error" where
  "new_type_error msg = Error TypeError msg"

definition new_timeout_error :: "string \<Rightarrow> error" where
  "new_timeout_error msg = Error timeout_error msg"

lemmas error_defs = new_ready_error_def new_base_error_def new_type_error_def
  new_timeout_error_def base_error_def timeout_error_def ready_error_def

text \<open>An \<open>std::io::Error\<close>: its OS error number, if it has one, and its text.\<close>

record io_error =
  raw_os_error :: "32 word option"
  io_message :: string

end
