(* ===== verification/Interfaces.thy ===== *)
theory Interfaces
  imports RubyTypes
begin

text \<open>
  The interfaces between components, each a locale with the operations its clients call and
  the laws its provider promises. The provider's theory interprets the locale on its own
  definitions; the lemmas proved here are what the clients use.
\<close>

section \<open>Exclusive access\<close>

text \<open>
  A resource taken with \<open>acquire\<close> and given back with \<open>release\<close>; \<open>access\<close> runs an operation
  on its content. The clients are the scheduler's operations on its task set and on its table
  of blocked fibers, the provider is the cell of \<open>gc_cell.rs\<close>.
\<close>

locale exclusive_access =
  fixes acquire :: "('c, 'g, error) action"
    and release :: "'g \<Rightarrow> 'c \<Rightarrow> 'c"
    and access :: "'g \<Rightarrow> ('a, 'b, error) action \<Rightarrow> ('c, 'b, error) action"
    and content :: "'c \<Rightarrow> 'a"
    and free :: "'c \<Rightarrow> bool"
    and busy :: "'c \<Rightarrow> bool"
  assumes acquire_free: "free c \<Longrightarrow> \<exists>g c'. acquire c = (Ok g, c') \<and> busy c' \<and> content c' = content c"
    and acquire_busy: "busy c \<Longrightarrow> \<exists>e. acquire c = (Err e, c)"
    and access_outcome: "fst (access g m c) = fst (m (content c))"
    and access_content: "content (snd (access g m c)) = snd (m (content c))"
    and release_content: "content (release g c) = content c"
    and release_free: "free c \<Longrightarrow> acquire c = (Ok g, c') \<Longrightarrow> free (release g (snd (access g m c')))"
begin

text \<open>A statement that takes the resource, uses it and drops the guard.\<close>

lemma statement_free:
  assumes "free c"
  shows "\<exists>c'. bracket acquire release (\<lambda>g. access g m) c = (fst (m (content c)), c') \<and>
              free c' \<and> content c' = snd (m (content c))"
proof -
  from acquire_free [OF assms] obtain g c1
    where acq: "acquire c = (Ok g, c1)" and cont: "content c1 = content c" by blast
  have "bracket acquire release (\<lambda>g. access g m) c =
        (fst (access g m c1), release g (snd (access g m c1)))"
    using acq by (rule bracket_Ok)
  then show ?thesis
    using release_free [OF assms acq] by (simp add: access_outcome access_content release_content cont)
qed

lemma statement_busy:
  assumes "busy c"
  shows "\<exists>e. bracket acquire release (\<lambda>g. access g m) c = (Err e, c)"
  using acquire_busy [OF assms] by (auto simp: bracket_Err)

text \<open>No statement gets through while another holds the resource.\<close>

lemma statement_reentrant:
  assumes "free c" and "acquire c = (Ok g, c')"
  shows "\<exists>e. bracket acquire release (\<lambda>g. access g m) c' = (Err e, c')"
proof -
  from acquire_free [OF assms(1)] assms(2) have "busy c'" by auto
  then show ?thesis by (rule statement_busy)
qed

end

section \<open>Keys of a hash map\<close>

text \<open>
  What a \<open>std::collections::HashMap\<close> needs of its key type: an equivalence, and equal keys
  hash alike. The provider is \<open>Fiber\<close>, the key of the table of blocked fibers.
\<close>

locale hash_key =
  fixes eq :: "'k \<Rightarrow> 'k \<Rightarrow> bool"
    and hash :: "'k \<Rightarrow> 'h"
  assumes eq_refl: "eq x x"
    and eq_sym: "eq x y \<Longrightarrow> eq y x"
    and eq_trans: "eq x y \<Longrightarrow> eq y z \<Longrightarrow> eq x z"
    and eq_hash: "eq x y \<Longrightarrow> hash x = hash y"
begin

lemma hash_distinguishes: "hash x \<noteq> hash y \<Longrightarrow> \<not> eq x y"
  using eq_hash by blast

lemma eq_cong: "eq x y \<Longrightarrow> eq x z = eq y z"
  using eq_sym eq_trans by blast

end

section \<open>A table of waiting parties\<close>

text \<open>
  A table from keys to entries: what is found under a key after an insertion or a removal, and
  what each of the two returns. The clients are \<open>block\<close>, its future and \<open>unblock\<close>, the provider
  is the table of blocked fibers.
\<close>

locale keyed_table =
  fixes insert_entry :: "'k \<Rightarrow> 'v \<Rightarrow> ('m, 'v option, error) action"
    and remove_entry :: "'k \<Rightarrow> ('m, 'v option, error) action"
    and find :: "'m \<Rightarrow> 'k \<Rightarrow> 'v option"
  assumes insert_returns: "fst (insert_entry k v m) = Ok (find m k)"
    and insert_finds: "find (snd (insert_entry k v m)) = (find m)(k := Some v)"
    and remove_returns: "fst (remove_entry k m) = Ok (find m k)"
    and remove_finds: "find (snd (remove_entry k m)) = (find m)(k := None)"
begin

text \<open>What is inserted is what the next removal of its key takes out, and it is out then.\<close>

lemma insert_remove:
  "fst (remove_entry k (snd (insert_entry k v m))) = Ok (Some v) \<and>
   find (snd (remove_entry k (snd (insert_entry k v m)))) = (find m)(k := None)"
  by (simp add: remove_returns remove_finds insert_finds)

lemma remove_other:
  "k \<noteq> k' \<Longrightarrow> fst (remove_entry k (snd (remove_entry k' m))) = fst (remove_entry k m)"
  by (simp add: remove_returns remove_finds)

lemma remove_twice: "fst (remove_entry k (snd (remove_entry k m))) = Ok None"
  by (simp add: remove_returns remove_finds)

end

section \<open>Futures on the runtime\<close>

text \<open>
  The contract between a future and the runtime: a future that answers \<open>Pending\<close> has arranged
  to be polled again (\<open>armed\<close>), or nobody would ever poll it. The providers are the crate's two
  hand-written futures, \<open>FiberFuture\<close> and \<open>PidWaiter\<close>.
\<close>

locale future_contract =
  fixes poll :: "('f, 's, 'r) poll_fn"
    and armed :: "'f \<Rightarrow> 's task_context \<Rightarrow> bool"
  assumes pending_armed: "poll f cx = Some (Pending, f', cx') \<Longrightarrow> armed f' cx'"
begin

lemma poll_times_armed: "poll_times poll n f cx = Some (Pending, f', cx') \<Longrightarrow> armed f' cx'"
proof (induction n arbitrary: f cx)
  case 0
  then show ?case by (simp add: pending_armed)
next
  case (Suc n)
  then show ?case by (auto split: option.splits prod.splits poll.splits)
qed

end

end
