(* ===== verification/GcCell.thy ===== *)
theory GcCell
  imports Interfaces
begin

text \<open>
  \<open>gc_cell.rs\<close>: a cell whose borrows are checked at run time with two 32-bit counters.

  \<open>'a GcCell\<close> is the struct; \<open>try_borrow\<close>, \<open>try_borrow_mut\<close>, the two \<open>Drop\<close>s and
  \<open>borrow_for_gc\<close> are its operations. \<open>with_borrow_mut\<close> is the way the scheduler uses a cell:
  \<open>cell.try_borrow_mut()?.op()\<close> with the guard dropped at the end of the statement.
\<close>

section \<open>The cell and its operations\<close>

record 'a GcCell =
  cell_value :: 'a
  read_count :: "32 word"
  write_count :: "32 word"

datatype GcRef = GcRef
datatype GcRefMut = GcRefMut

definition new_cell :: "'a \<Rightarrow> 'a GcCell" where
  "new_cell v = \<lparr>cell_value = v, read_count = 0, write_count = 0\<rparr>"

definition new_error :: "string \<Rightarrow> error" where
  "new_error msg = Error PoisonedCellError msg"

text \<open>The test \<open>count > 0\<close> of the code, on an \<open>AtomicI32\<close>: signed.\<close>

definition count_positive :: "32 word \<Rightarrow> bool" where
  "count_positive w \<longleftrightarrow> 0 < sint w"

definition try_borrow :: "('a GcCell, GcRef, error) action" where
  "try_borrow c =
     (if count_positive (write_count c)
      then (Err (new_error ''already mutably borrowed''), c)
      else (Ok GcRef, c\<lparr>read_count := read_count c + 1\<rparr>))"

definition try_borrow_mut :: "('a GcCell, GcRefMut, error) action" where
  "try_borrow_mut c =
     (if count_positive (read_count c) \<or> count_positive (write_count c)
      then (Err (new_error ''already borrowed''), c)
      else (Ok GcRefMut, c\<lparr>write_count := write_count c + 1\<rparr>))"

definition drop_ref :: "GcRef \<Rightarrow> 'a GcCell \<Rightarrow> 'a GcCell" where
  "drop_ref g c = c\<lparr>read_count := read_count c - 1\<rparr>"

definition drop_ref_mut :: "GcRefMut \<Rightarrow> 'a GcCell \<Rightarrow> 'a GcCell" where
  "drop_ref_mut g c = c\<lparr>write_count := write_count c - 1\<rparr>"

text \<open>
  \<open>borrow_for_gc\<close> takes what \<open>rb_during_gc()\<close> returned; it looks at neither counter.
\<close>

definition borrow_for_gc :: "int \<Rightarrow> ('a GcCell, 'a, error) action" where
  "borrow_for_gc during_gc c =
     (if during_gc = 1 then (Ok (cell_value c), c)
      else (Panic ''attempted to borrow_for_gc outside of GC'', c))"

definition deref :: "GcRef \<Rightarrow> 'a GcCell \<Rightarrow> 'a" where
  "deref g c = cell_value c"

definition deref_mut :: "GcRefMut \<Rightarrow> ('a, 'b, 'e) action \<Rightarrow> ('a GcCell, 'b, 'e) action" where
  "deref_mut g m c = (case m (cell_value c) of (r, v) \<Rightarrow> (r, c\<lparr>cell_value := v\<rparr>))"

definition with_borrow_mut :: "('a, 'b, error) action \<Rightarrow> ('a GcCell, 'b, error) action" where
  "with_borrow_mut m = bracket try_borrow_mut drop_ref_mut (\<lambda>g. deref_mut g m)"

section \<open>Counters\<close>

lemma count_positive_of_nat: "n < 2 ^ 31 \<Longrightarrow> count_positive (of_nat n) \<longleftrightarrow> 0 < n"
proof -
  assume n: "n < 2 ^ 31"
  have "sint (word_of_nat n :: 32 word) = int n"
    using n by (simp add: signed_of_nat signed_take_bit_int_eq_self)
  then show ?thesis by (simp add: count_positive_def)
qed

lemma count_positive_simps [simp]:
  "\<not> count_positive 0" "count_positive 1"
  by (simp_all add: count_positive_def)

definition idle :: "'a GcCell \<Rightarrow> bool" where
  "idle c \<longleftrightarrow> read_count c = 0 \<and> write_count c = 0"

definition borrowed :: "'a GcCell \<Rightarrow> bool" where
  "borrowed c \<longleftrightarrow> count_positive (read_count c) \<or> count_positive (write_count c)"

lemma idle_new_cell [simp]: "idle (new_cell v)"
  by (simp add: idle_def new_cell_def)

lemma idle_set_value [simp]: "idle (c\<lparr>cell_value := v\<rparr>) = idle c"
  by (simp add: idle_def)

lemma try_borrow_mut_idle [effect_simps]:
  "idle c \<Longrightarrow> try_borrow_mut c = (Ok GcRefMut, c\<lparr>write_count := 1\<rparr>)"
  by (simp add: try_borrow_mut_def idle_def)

lemma try_borrow_mut_borrowed [effect_simps]:
  "borrowed c \<Longrightarrow> try_borrow_mut c = (Err (new_error ''already borrowed''), c)"
  by (simp add: try_borrow_mut_def borrowed_def)

lemma with_borrow_mut_idle [effect_simps]:
  "idle c \<Longrightarrow> with_borrow_mut m c =
     (fst (m (cell_value c)), c\<lparr>cell_value := snd (m (cell_value c))\<rparr>)"
  by (simp add: with_borrow_mut_def bracket_Ok try_borrow_mut_idle deref_mut_def drop_ref_mut_def
      idle_def split: prod.splits)

lemma with_borrow_mut_borrowed [effect_simps]:
  "borrowed c \<Longrightarrow> with_borrow_mut m c = (Err (new_error ''already borrowed''), c)"
  by (simp add: with_borrow_mut_def bracket_Err try_borrow_mut_borrowed)

interpretation cell_access: exclusive_access try_borrow_mut drop_ref_mut deref_mut cell_value idle borrowed
proof unfold_locales
  fix c :: "'a GcCell"
  assume "idle c"
  then show "\<exists>g c'. try_borrow_mut c = (Ok g, c') \<and> borrowed c' \<and> cell_value c' = cell_value c"
    by (simp add: try_borrow_mut_idle borrowed_def)
next
  fix c c' :: "'a GcCell" and g and m :: "('a, 'b, error) action"
  assume "idle c" and "try_borrow_mut c = (Ok g, c')"
  then show "idle (drop_ref_mut g (snd (deref_mut g m c')))"
    by (auto simp: try_borrow_mut_idle deref_mut_def drop_ref_mut_def idle_def split: prod.splits)
qed (auto simp: try_borrow_mut_borrowed deref_mut_def drop_ref_mut_def split: prod.splits)

section \<open>Guards and their lifetimes\<close>

text \<open>
  A cell with the number of live guards of each kind. Rust's ownership lets only a live guard
  be dropped, or written through; any other order of calls is allowed.
\<close>

record 'a tracked =
  cell :: "'a GcCell"
  readers :: nat
  writers :: nat

inductive gc_step :: "'a tracked \<Rightarrow> 'a tracked \<Rightarrow> bool" where
  borrow: "try_borrow (cell t) = (Ok g, c) \<Longrightarrow>
     gc_step t (t\<lparr>cell := c, readers := Suc (readers t)\<rparr>)"
| borrow_refused: "try_borrow (cell t) = (Err e, c) \<Longrightarrow> gc_step t (t\<lparr>cell := c\<rparr>)"
| borrow_mut: "try_borrow_mut (cell t) = (Ok g, c) \<Longrightarrow>
     gc_step t (t\<lparr>cell := c, writers := Suc (writers t)\<rparr>)"
| borrow_mut_refused: "try_borrow_mut (cell t) = (Err e, c) \<Longrightarrow> gc_step t (t\<lparr>cell := c\<rparr>)"
| drop_reader: "readers t = Suc n \<Longrightarrow>
     gc_step t (t\<lparr>cell := drop_ref GcRef (cell t), readers := n\<rparr>)"
| drop_writer: "writers t = Suc n \<Longrightarrow>
     gc_step t (t\<lparr>cell := drop_ref_mut GcRefMut (cell t), writers := n\<rparr>)"
| write_through: "0 < writers t \<Longrightarrow> gc_step t (t\<lparr>cell := (cell t)\<lparr>cell_value := v\<rparr>\<rparr>)"

text \<open>
  The states a fresh cell reaches while fewer than \<open>2 ^ 31\<close> read guards are alive, the largest
  number an \<open>AtomicI32\<close> counts.
\<close>

inductive gc_reachable :: "'a \<Rightarrow> 'a tracked \<Rightarrow> bool" for v where
  start: "gc_reachable v \<lparr>cell = new_cell v, readers = 0, writers = 0\<rparr>"
| step: "gc_reachable v s \<Longrightarrow> gc_step s t \<Longrightarrow> readers t < 2 ^ 31 \<Longrightarrow> gc_reachable v t"

definition gc_invariant :: "'a tracked \<Rightarrow> bool" where
  "gc_invariant t \<longleftrightarrow>
     read_count (cell t) = of_nat (readers t) \<and> write_count (cell t) = of_nat (writers t) \<and>
     readers t < 2 ^ 31 \<and> (writers t = 0 \<or> writers t = 1 \<and> readers t = 0)"

lemma try_borrow_OkD:
  "try_borrow c = (Ok g, c') \<Longrightarrow>
   \<not> count_positive (write_count c) \<and> c' = c\<lparr>read_count := read_count c + 1\<rparr>"
  by (auto simp: try_borrow_def split: if_splits)

lemma try_borrow_mut_OkD:
  "try_borrow_mut c = (Ok g, c') \<Longrightarrow>
   \<not> count_positive (read_count c) \<and> \<not> count_positive (write_count c) \<and>
   c' = c\<lparr>write_count := write_count c + 1\<rparr>"
  by (auto simp: try_borrow_mut_def split: if_splits)

lemma try_borrow_ErrD: "try_borrow c = (Err e, c') \<Longrightarrow> c' = c"
  by (auto simp: try_borrow_def split: if_splits)

lemma try_borrow_mut_ErrD: "try_borrow_mut c = (Err e, c') \<Longrightarrow> c' = c"
  by (auto simp: try_borrow_mut_def split: if_splits)

lemma gc_step_invariant:
  assumes "gc_step s t" and "gc_invariant s" and "readers t < 2 ^ 31"
  shows "gc_invariant t"
  using assms
proof (induction rule: gc_step.induct)
  case (borrow t g c)
  from try_borrow_OkD [OF borrow.hyps] borrow.prems show ?case
    by (auto simp: gc_invariant_def)
next
  case (borrow_mut t g c)
  from borrow_mut.prems(1) have r: "read_count (cell t) = of_nat (readers t)" "readers t < 2 ^ 31"
    and w: "write_count (cell t) = of_nat (writers t)" "writers t = 0 \<or> writers t = 1"
    by (auto simp: gc_invariant_def)
  from try_borrow_mut_OkD [OF borrow_mut.hyps]
  have "readers t = 0" "writers t = 0" and c: "c = (cell t)\<lparr>write_count := write_count (cell t) + 1\<rparr>"
    using r w by (auto simp: count_positive_of_nat)
  then show ?case using r w by (simp add: gc_invariant_def)
next
  case (borrow_refused t e c)
  from try_borrow_ErrD [OF borrow_refused.hyps] borrow_refused.prems show ?case by simp
next
  case (borrow_mut_refused t e c)
  from try_borrow_mut_ErrD [OF borrow_mut_refused.hyps] borrow_mut_refused.prems show ?case by simp
qed (auto simp: gc_invariant_def drop_ref_def drop_ref_mut_def)

lemma gc_reachable_invariant: "gc_reachable v t \<Longrightarrow> gc_invariant t"
proof (induction rule: gc_reachable.induct)
  case start
  show ?case by (simp add: gc_invariant_def new_cell_def)
next
  case (step s t)
  then show ?case by (blast intro: gc_step_invariant)
qed

text \<open>
  C7. Readers and writers exclude each other: in every state a cell reaches with fewer than
  \<open>2 ^ 31\<close> read guards alive, at most one write guard is alive, no read guard lives beside it,
  and the two counters are exactly the numbers of live guards.
\<close>

theorem borrow_exclusion:
  assumes "gc_reachable v t"
  shows "writers t \<le> 1 \<and> \<not> (0 < readers t \<and> 0 < writers t) \<and>
         unat (read_count (cell t)) = readers t \<and> unat (write_count (cell t)) = writers t"
proof -
  have inv: "gc_invariant t" using assms by (rule gc_reachable_invariant)
  then have "unat (of_nat (readers t) :: 32 word) = readers t"
    "unat (of_nat (writers t) :: 32 word) = writers t"
    by (auto simp: gc_invariant_def unat_of_nat)
  with inv show ?thesis by (auto simp: gc_invariant_def)
qed

theorem borrow_exclusion_witness:
  "writers \<lparr>cell = (new_cell (7::int))\<lparr>write_count := 1\<rparr>, readers = 0, writers = 1\<rparr> \<le> 1"
proof -
  let ?t0 = "\<lparr>cell = new_cell (7::int), readers = 0, writers = 0\<rparr>"
  have "gc_step ?t0 (?t0\<lparr>cell := (new_cell 7)\<lparr>write_count := 1\<rparr>, writers := Suc (writers ?t0)\<rparr>)"
    by (rule gc_step.borrow_mut) (simp add: try_borrow_mut_idle)
  then have "gc_reachable 7 \<lparr>cell = (new_cell (7::int))\<lparr>write_count := 1\<rparr>, readers = 0, writers = 1\<rparr>"
    using gc_reachable.step [OF gc_reachable.start] by fastforce
  from borrow_exclusion [OF this] show ?thesis by simp
qed

section \<open>The cell implements a reader-writer lock\<close>

datatype rw_lock = Free | Shared nat | Exclusive

fun lock_shared :: "rw_lock \<Rightarrow> rw_lock option" where
  "lock_shared Free = Some (Shared 1)"
| "lock_shared (Shared n) = Some (Shared (Suc n))"
| "lock_shared Exclusive = None"

fun lock_exclusive :: "rw_lock \<Rightarrow> rw_lock option" where
  "lock_exclusive Free = Some Exclusive"
| "lock_exclusive l = None"

fun unlock_shared :: "rw_lock \<Rightarrow> rw_lock" where
  "unlock_shared (Shared n) = (if n \<le> 1 then Free else Shared (n - 1))"
| "unlock_shared l = l"

fun unlock_exclusive :: "rw_lock \<Rightarrow> rw_lock" where
  "unlock_exclusive Exclusive = Free"
| "unlock_exclusive l = l"

definition lock_of :: "'a GcCell \<Rightarrow> rw_lock" where
  "lock_of c = (if write_count c \<noteq> 0 then Exclusive
                else if read_count c = 0 then Free else Shared (unat (read_count c)))"

definition cell_wf :: "'a GcCell \<Rightarrow> bool" where
  "cell_wf c \<longleftrightarrow> unat (read_count c) < 2 ^ 31 \<and>
                 (write_count c = 0 \<or> write_count c = 1 \<and> read_count c = 0)"

lemma count_positive_unat: "unat w < 2 ^ 31 \<Longrightarrow> count_positive w \<longleftrightarrow> w \<noteq> 0"
  using count_positive_of_nat [of "unat w"] by (simp add: unat_gt_0)

lemma unat_plus_one: "unat w < 2 ^ 31 \<Longrightarrow> unat (w + 1 :: 32 word) = Suc (unat w)"
  by (simp add: unat_word_ariths)

lemma plus_one_nonzero: "unat w < 2 ^ 31 \<Longrightarrow> w + 1 \<noteq> (0 :: 32 word)"
  using unat_plus_one [of w] by (metis nat.distinct(1) unat_0)

lemma unat_pred: "w \<noteq> 0 \<Longrightarrow> unat (w - 1 :: 32 word) = unat w - 1"
  by (rule unat_minus_one)

lemma lock_of_shared:
  "write_count c = 0 \<Longrightarrow> read_count c \<noteq> 0 \<Longrightarrow> lock_of c = Shared (unat (read_count c))"
  by (simp add: lock_of_def)

lemma try_borrow_refines:
  assumes wf: "cell_wf c" and room: "unat (read_count c) + 1 < 2 ^ 31"
  shows "case try_borrow c of
            (Ok g, c') \<Rightarrow> lock_shared (lock_of c) = Some (lock_of c') \<and> cell_wf c'
          | (Err e, c') \<Rightarrow> lock_shared (lock_of c) = None \<and> c' = c
          | (Panic p, c') \<Rightarrow> False"
proof (cases "write_count c = 0")
  case True
  then have "try_borrow c = (Ok GcRef, c\<lparr>read_count := read_count c + 1\<rparr>)"
    by (simp add: try_borrow_def)
  moreover have "unat (read_count c + 1) = Suc (unat (read_count c))" "read_count c + 1 \<noteq> 0"
    using room by (simp_all add: unat_plus_one plus_one_nonzero)
  ultimately show ?thesis using True room by (simp add: lock_of_def cell_wf_def)
next
  case False
  with wf have "write_count c = 1" by (simp add: cell_wf_def)
  then show ?thesis by (simp add: try_borrow_def lock_of_def)
qed

lemma try_borrow_mut_refines:
  assumes wf: "cell_wf c"
  shows "case try_borrow_mut c of
            (Ok g, c') \<Rightarrow> lock_exclusive (lock_of c) = Some (lock_of c') \<and> cell_wf c'
          | (Err e, c') \<Rightarrow> lock_exclusive (lock_of c) = None \<and> c' = c
          | (Panic p, c') \<Rightarrow> False"
proof -
  have "count_positive (read_count c) \<longleftrightarrow> read_count c \<noteq> 0"
    and "count_positive (write_count c) \<longleftrightarrow> write_count c \<noteq> 0"
    using wf by (auto simp: cell_wf_def count_positive_unat)
  then show ?thesis using wf
    by (auto simp: try_borrow_mut_def lock_of_def cell_wf_def)
qed

lemma drop_ref_refines:
  assumes wf: "cell_wf c" and held: "read_count c \<noteq> 0"
  shows "lock_of (drop_ref GcRef c) = unlock_shared (lock_of c) \<and> cell_wf (drop_ref GcRef c)"
proof -
  have "unat (read_count c) \<noteq> 0" using held by (simp add: unat_eq_0)
  moreover have "read_count c - 1 = 0 \<longleftrightarrow> unat (read_count c) = 1"
    by (simp add: word_unat_eq_iff [of _ 1])
  moreover have "write_count c = 0" using wf held by (auto simp: cell_wf_def)
  ultimately show ?thesis using wf held
    by (auto simp: lock_of_def drop_ref_def cell_wf_def unat_pred)
qed

lemma drop_ref_mut_refines:
  assumes wf: "cell_wf c" and held: "write_count c \<noteq> 0"
  shows "lock_of (drop_ref_mut GcRefMut c) = unlock_exclusive (lock_of c) \<and>
         cell_wf (drop_ref_mut GcRefMut c)"
  using assms by (auto simp: lock_of_def drop_ref_mut_def cell_wf_def)

text \<open>
  C6. The cell refines a reader-writer lock. Taking a read guard succeeds exactly when the
  lock grants a shared hold (fewer than \<open>2 ^ 31 - 1\<close> readers), a write guard exactly when it
  grants an exclusive hold; a refusal leaves the cell as it was; dropping a guard of either
  kind is the matching unlock. Every operation keeps the cell well formed.
\<close>

theorem cell_refines_lock:
  assumes "cell_wf c" and "unat (read_count c) + 1 < 2 ^ 31"
  shows "(case try_borrow c of
            (Ok g, c') \<Rightarrow> lock_shared (lock_of c) = Some (lock_of c') \<and> cell_wf c'
          | (Err e, c') \<Rightarrow> lock_shared (lock_of c) = None \<and> c' = c
          | (Panic p, c') \<Rightarrow> False) \<and>
         (case try_borrow_mut c of
            (Ok g, c') \<Rightarrow> lock_exclusive (lock_of c) = Some (lock_of c') \<and> cell_wf c'
          | (Err e, c') \<Rightarrow> lock_exclusive (lock_of c) = None \<and> c' = c
          | (Panic p, c') \<Rightarrow> False) \<and>
         (read_count c \<noteq> 0 \<longrightarrow>
            lock_of (drop_ref GcRef c) = unlock_shared (lock_of c) \<and> cell_wf (drop_ref GcRef c)) \<and>
         (write_count c \<noteq> 0 \<longrightarrow>
            lock_of (drop_ref_mut GcRefMut c) = unlock_exclusive (lock_of c) \<and>
            cell_wf (drop_ref_mut GcRefMut c))"
  using try_borrow_refines [OF assms] try_borrow_mut_refines [OF assms(1)]
    drop_ref_refines [OF assms(1)] drop_ref_mut_refines [OF assms(1)] by blast

theorem cell_refines_lock_witness:
  "(case try_borrow_mut ((new_cell (3::int))\<lparr>read_count := 2\<rparr>) of
      (Ok g, c') \<Rightarrow> False | (Err e, c') \<Rightarrow> c' = (new_cell 3)\<lparr>read_count := 2\<rparr> | (Panic p, c') \<Rightarrow> False)"
  using cell_refines_lock [of "(new_cell (3::int))\<lparr>read_count := 2\<rparr>"]
  by (simp add: cell_wf_def new_cell_def try_borrow_mut_def lock_of_def count_positive_def
      split: prod.splits outcome.splits)

text \<open>
  The bound of \<open>borrow_exclusion\<close> is needed: with \<open>2 ^ 31\<close> read guards alive the counter has wrapped to a
  negative number and \<open>try_borrow_mut\<close> hands out a write guard beside all of them.
\<close>

theorem reader_count_overflow:
  "fst (try_borrow_mut ((new_cell v)\<lparr>read_count := 0x80000000\<rparr>)) = Ok GcRefMut \<and>
   fst (try_borrow_mut ((new_cell v)\<lparr>read_count := 0x7FFFFFFF\<rparr>)) =
     Err (new_error ''already borrowed'')"
  by (simp add: try_borrow_mut_def new_cell_def count_positive_def)

end
