(* ===== verification/GcCellThreads.thy ===== *)
theory GcCellThreads
  imports GcCell
begin

text \<open>
  \<open>gc_cell.rs\<close> under threads. A borrow is not one atomic operation: it loads the counters it
  checks one by one and then adds to its own. Each \<open>AtomicI32\<close> operation is a step here, a
  thread's place between them is a \<open>borrow_pc\<close>, and any thread may take the next step.
\<close>

section \<open>The atomic steps of a borrow\<close>

datatype borrow_pc =
    ReadStart | ReadChecked | ReadHeld | ReadRefused
  | MutStart | MutCheckedReaders | MutCheckedWriters | MutHeld | MutRefused

text \<open>
  \<open>try_borrow\<close> loads \<open>write_count\<close>, then adds to \<open>read_count\<close>. \<open>try_borrow_mut\<close> loads
  \<open>read_count\<close>, then (as \<open>||\<close> does) \<open>write_count\<close>, then adds to \<open>write_count\<close>. A held guard
  steps by being dropped; a refused borrow is over.
\<close>

fun borrow_step :: "borrow_pc \<Rightarrow> 'a GcCell \<Rightarrow> borrow_pc \<times> 'a GcCell" where
  "borrow_step ReadStart c =
     (if count_positive (write_count c) then (ReadRefused, c) else (ReadChecked, c))"
| "borrow_step ReadChecked c = (ReadHeld, c\<lparr>read_count := read_count c + 1\<rparr>)"
| "borrow_step ReadHeld c = (ReadStart, drop_ref GcRef c)"
| "borrow_step ReadRefused c = (ReadRefused, c)"
| "borrow_step MutStart c =
     (if count_positive (read_count c) then (MutRefused, c) else (MutCheckedReaders, c))"
| "borrow_step MutCheckedReaders c =
     (if count_positive (write_count c) then (MutRefused, c) else (MutCheckedWriters, c))"
| "borrow_step MutCheckedWriters c = (MutHeld, c\<lparr>write_count := write_count c + 1\<rparr>)"
| "borrow_step MutHeld c = (MutStart, drop_ref_mut GcRefMut c)"
| "borrow_step MutRefused c = (MutRefused, c)"

fun borrow_steps :: "nat \<Rightarrow> borrow_pc \<Rightarrow> 'a GcCell \<Rightarrow> borrow_pc \<times> 'a GcCell" where
  "borrow_steps 0 pc c = (pc, c)"
| "borrow_steps (Suc n) pc c = (case borrow_step pc c of (pc', c') \<Rightarrow> borrow_steps n pc' c')"

record 'a threads =
  shared :: "'a GcCell"
  pcs :: "nat \<Rightarrow> borrow_pc"

inductive thread_step :: "'a threads \<Rightarrow> 'a threads \<Rightarrow> bool" where
  move: "borrow_step (pcs s i) (shared s) = (pc, c) \<Longrightarrow>
     thread_step s (s\<lparr>shared := c, pcs := (pcs s)(i := pc)\<rparr>)"

inductive threads_reachable :: "'a threads \<Rightarrow> 'a threads \<Rightarrow> bool" for s0 where
  here: "threads_reachable s0 s0"
| next_step: "threads_reachable s0 s \<Longrightarrow> thread_step s t \<Longrightarrow> threads_reachable s0 t"

inductive_cases thread_stepE: "thread_step s t"

text \<open>A step of one thread leaves the places of the others and the content of the cell alone.\<close>

lemma borrow_step_value: "borrow_step pc c = (pc', c') \<Longrightarrow> cell_value c' = cell_value c"
  by (cases pc) (auto simp: drop_ref_def drop_ref_mut_def split: if_splits)

lemma thread_step_frame:
  assumes "thread_step s t"
  shows "\<exists>i. (\<forall>j. j \<noteq> i \<longrightarrow> pcs t j = pcs s j) \<and> cell_value (shared t) = cell_value (shared s)"
  using assms
proof (rule thread_stepE)
  fix i pc c
  assume "t = s\<lparr>shared := c, pcs := (pcs s)(i := pc)\<rparr>" and "borrow_step (pcs s i) (shared s) = (pc, c)"
  then show ?thesis by (intro exI [of _ i]) (simp add: borrow_step_value)
qed

lemma threads_reachable_value: "threads_reachable s0 s \<Longrightarrow> cell_value (shared s) = cell_value (shared s0)"
  by (induction rule: threads_reachable.induct) (auto dest: thread_step_frame)

section \<open>Without interference the steps are the operations\<close>

text \<open>
  A thread that takes its steps with no other thread in between does what the operation
  of the single-threaded model does: the same answer, the same counters. (Two steps for a
  read borrow, three for a write borrow; a refusal comes earlier and stays.)
\<close>

theorem uninterrupted_borrow:
  "borrow_steps 2 ReadStart c =
     (case try_borrow c of (Ok g, c') \<Rightarrow> (ReadHeld, c') | (r, c') \<Rightarrow> (ReadRefused, c')) \<and>
   borrow_steps 3 MutStart c =
     (case try_borrow_mut c of (Ok g, c') \<Rightarrow> (MutHeld, c') | (r, c') \<Rightarrow> (MutRefused, c'))"
  by (simp add: numeral_2_eq_2 numeral_3_eq_3 try_borrow_def try_borrow_mut_def)

section \<open>With interference exclusion is lost\<close>

lemma threads_reachable_move:
  "threads_reachable s0 s \<Longrightarrow> borrow_step (pcs s i) (shared s) = (pc, c) \<Longrightarrow>
   threads_reachable s0 (s\<lparr>shared := c, pcs := (pcs s)(i := pc)\<rparr>)"
  by (blast intro: threads_reachable.next_step thread_step.move)

fun run_schedule :: "nat list \<Rightarrow> 'a threads \<Rightarrow> 'a threads" where
  "run_schedule [] s = s"
| "run_schedule (i # is) s =
     (case borrow_step (pcs s i) (shared s) of (pc, c) \<Rightarrow>
        run_schedule is (s\<lparr>shared := c, pcs := (pcs s)(i := pc)\<rparr>))"

lemma run_schedule_reachable: "threads_reachable s0 s \<Longrightarrow> threads_reachable s0 (run_schedule is s)"
proof (induction "is" arbitrary: s)
  case Nil
  then show ?case by simp
next
  case (Cons i "is")
  obtain pc c where "borrow_step (pcs s i) (shared s) = (pc, c)" by fastforce
  with Cons threads_reachable_move show ?case by fastforce
qed

section \<open>The counters stay exact\<close>

definition places :: "nat \<Rightarrow> 'a threads \<Rightarrow> borrow_pc \<Rightarrow> nat" where
  "places n s pc = card {i. i < n \<and> pcs s i = pc}"

lemma places_move:
  assumes "i < n"
  shows "places n (s\<lparr>shared := c, pcs := (pcs s)(i := pc)\<rparr>) q + (if pcs s i = q then 1 else 0) =
         places n s q + (if pc = q then 1 else 0)"
proof -
  let ?others = "{j. j < n \<and> j \<noteq> i \<and> pcs s j = q}"
  have split: "{j. j < n \<and> ((pcs s)(i := p)) j = q} = (if p = q then insert i ?others else ?others)" for p
    using assms by auto
  have "finite ?others" "i \<notin> ?others" by auto
  then have "card {j. j < n \<and> ((pcs s)(i := p)) j = q} = card ?others + (if p = q then 1 else 0)" for p
    unfolding split by simp
  from this [of pc] this [of "pcs s i"] show ?thesis by (simp add: places_def)
qed

definition counters_exact :: "nat \<Rightarrow> 'a threads \<Rightarrow> bool" where
  "counters_exact n s \<longleftrightarrow> read_count (shared s) = of_nat (places n s ReadHeld) \<and>
     write_count (shared s) = of_nat (places n s MutHeld)"

lemma counters_exact_move:
  assumes inv: "counters_exact n s" and i: "i < n" and step: "borrow_step (pcs s i) (shared s) = (pc, c)"
  shows "counters_exact n (s\<lparr>shared := c, pcs := (pcs s)(i := pc)\<rparr>)"
proof -
  let ?t = "s\<lparr>shared := c, pcs := (pcs s)(i := pc)\<rparr>"
  have r: "places n ?t ReadHeld + (if pcs s i = ReadHeld then 1 else 0) =
      places n s ReadHeld + (if pc = ReadHeld then 1 else 0)"
    and w: "places n ?t MutHeld + (if pcs s i = MutHeld then 1 else 0) =
      places n s MutHeld + (if pc = MutHeld then 1 else 0)"
    by (rule places_move [OF i])+
  have "(of_nat (places n ?t ReadHeld) :: 32 word) =
      of_nat (places n s ReadHeld) + (if pc = ReadHeld then 1 else 0) - (if pcs s i = ReadHeld then 1 else 0)"
    using arg_cong [OF r, of "of_nat :: nat \<Rightarrow> 32 word"]
    by (auto simp: eq_diff_eq split: if_splits)
  moreover have "(of_nat (places n ?t MutHeld) :: 32 word) =
      of_nat (places n s MutHeld) + (if pc = MutHeld then 1 else 0) - (if pcs s i = MutHeld then 1 else 0)"
    using arg_cong [OF w, of "of_nat :: nat \<Rightarrow> 32 word"]
    by (auto simp: eq_diff_eq split: if_splits)
  ultimately show ?thesis
    using inv step by (cases "pcs s i") (auto simp: counters_exact_def drop_ref_def drop_ref_mut_def split: if_splits)
qed

text \<open>
  C16. Under every interleaving of any number of threads the two counters are exactly the numbers
  of guards held (modulo \<open>2 ^ 32\<close>): no increment or decrement is lost, refused borrows leave no
  trace, and when no guard is held the cell is unborrowed again. The content changes only
  through a guard, never by a step of a borrow.
\<close>

theorem interleaved_counters_exact:
  assumes "set order \<subseteq> {..<n}" and start: "\<And>i. pcs s i = ReadStart \<or> pcs s i = MutStart"
    and fresh: "shared s = new_cell v"
  defines "t \<equiv> run_schedule order s"
  shows "read_count (shared t) = of_nat (places n t ReadHeld) \<and>
    write_count (shared t) = of_nat (places n t MutHeld) \<and>
    (places n t ReadHeld = 0 \<and> places n t MutHeld = 0 \<longrightarrow> shared t = new_cell v)"
proof -
  have "pcs s i \<noteq> ReadHeld \<and> pcs s i \<noteq> MutHeld" for i using start [of i] by auto
  then have "counters_exact n s" by (simp add: counters_exact_def places_def fresh new_cell_def)
  then have "counters_exact n (run_schedule order s)"
    using assms(1)
  proof (induction order arbitrary: s)
    case (Cons i order)
    obtain pc c where step: "borrow_step (pcs s i) (shared s) = (pc, c)" by fastforce
    from counters_exact_move [OF Cons.prems(1) _ step] Cons.prems(2) Cons.IH step show ?case by simp
  qed simp
  moreover have "cell_value (shared t) = v"
    unfolding t_def using threads_reachable_value [OF run_schedule_reachable [OF threads_reachable.here], of order s]
    by (simp add: fresh new_cell_def)
  ultimately show ?thesis by (simp add: counters_exact_def t_def new_cell_def)
qed

theorem interleaved_counters_exact_witness:
  "write_count (shared (run_schedule [0, 0, 1, 1, 0, 1] \<lparr>shared = new_cell (7 :: int), pcs = (\<lambda>i. MutStart)\<rparr>)) =
   of_nat (places 2 (run_schedule [0, 0, 1, 1, 0, 1] \<lparr>shared = new_cell (7 :: int), pcs = (\<lambda>i. MutStart)\<rparr>) MutHeld)"
  using interleaved_counters_exact [of "[0, 0, 1, 1, 0, 1]" 2 "\<lparr>shared = new_cell (7 :: int), pcs = (\<lambda>i. MutStart)\<rparr>" 7]
  by (auto simp del: run_schedule.simps)

section \<open>Two guards at once\<close>

text \<open>
  C40. The counters do not keep two threads apart: two threads that borrow an unborrowed cell
  can both end up holding a write guard, and one can end up with a write guard while the
  other holds a read guard. Exclusion needs the interpreter lock that serialises the calls.
\<close>

theorem interleaved_borrows_race:
  "(\<exists>s. threads_reachable \<lparr>shared = new_cell v, pcs = (\<lambda>i. MutStart)\<rparr> s \<and>
        pcs s 0 = MutHeld \<and> pcs s 1 = MutHeld) \<and>
   (\<exists>s. threads_reachable \<lparr>shared = new_cell v, pcs = (\<lambda>i. MutStart)(1 := ReadStart)\<rparr> s \<and>
        pcs s 0 = MutHeld \<and> pcs s 1 = ReadHeld)"
proof
  let ?s = "\<lparr>shared = new_cell v, pcs = (\<lambda>i::nat. MutStart)\<rparr>"
  let ?t = "run_schedule [0, 0, 1, 1, 0, 1] ?s"
  have "threads_reachable ?s ?t"
    by (rule run_schedule_reachable [OF threads_reachable.here])
  moreover have "pcs ?t 0 = MutHeld \<and> pcs ?t 1 = MutHeld"
    by (simp add: new_cell_def)
  ultimately show "\<exists>s. threads_reachable ?s s \<and> pcs s 0 = MutHeld \<and> pcs s 1 = MutHeld"
    by blast
next
  let ?s = "\<lparr>shared = new_cell v, pcs = (\<lambda>i::nat. MutStart)(1 := ReadStart)\<rparr>"
  let ?t = "run_schedule [0, 0, 1, 0, 1] ?s"
  have "threads_reachable ?s ?t"
    by (rule run_schedule_reachable [OF threads_reachable.here])
  moreover have "pcs ?t 0 = MutHeld \<and> pcs ?t 1 = ReadHeld"
    by (simp add: new_cell_def)
  ultimately show "\<exists>s. threads_reachable ?s s \<and> pcs s 0 = MutHeld \<and> pcs s 1 = ReadHeld"
    by blast
qed

end
