(* ===== verification/RubyVm.thy ===== *)
theory RubyVm
  imports RubyTypes
begin

text \<open>
  The Ruby virtual machine as the crate sees it.

  The functions of \<open>rb_sys\<close> and \<open>magnus\<close> that the crate calls are not part of its source: they
  are the fields of \<open>ruby_vm\<close>, over the whole state \<open>'s\<close>, so a call may run other fibers that
  come back into the scheduler and change it. A field that is an \<open>action\<close> stands for a call
  under \<open>protect\<close>, or through \<open>funcall\<close>, which turns a Ruby exception into an \<open>Err\<close>.
\<close>

section \<open>Fiber handles\<close>

text \<open>
  \<open>Fiber<S>\<close> of \<open>fiber.rs\<close> is a \<open>Value\<close>, here the raw word of the reference \<open>VRef\<close>, with a
  phantom type for what is known of its state.
\<close>

datatype Running = Running
datatype Suspended = Suspended
datatype Terminated = Terminated
datatype Unknown = Unknown

datatype 'st Fiber = Fiber (as_raw: "64 word")

text \<open>
  A block of Ruby code. \<open>ReturningProc block fiber\<close> is the closure \<open>fiber_spawn.rs\<close> makes with
  \<open>Proc::from_fn\<close>: it captures the block and the fiber to transfer back to.
\<close>

datatype proc = RubyProc "64 word" | ReturningProc proc "Unknown Fiber"

type_synonym kwargs = "(string \<times> Value) list"

section \<open>The calls into the virtual machine\<close>

record 's ruby_vm =
  rb_fiber_current :: "'s \<Rightarrow> 64 word"
  rb_fiber_alive_p :: "64 word \<Rightarrow> 's \<Rightarrow> bool"
  rb_obj_is_fiber :: "64 word \<Rightarrow> 's \<Rightarrow> bool"
  rb_classname :: "Value \<Rightarrow> 's \<Rightarrow> string"
  rb_class_value :: "exc_class \<Rightarrow> Value"
  rb_fiber_yield :: "Value list \<Rightarrow> ('s, 64 word, error) action"
  rb_fiber_resume :: "64 word \<Rightarrow> Value list \<Rightarrow> ('s, Value, error) action"
  rb_fiber_transfer :: "64 word \<Rightarrow> Value list \<Rightarrow> ('s, Value, error) action"
  rb_fiber_raise :: "64 word \<Rightarrow> Value list \<Rightarrow> ('s, Value, error) action"
  rb_hash_aset :: "kwargs \<Rightarrow> string \<Rightarrow> Value \<Rightarrow> ('s, kwargs, error) action"
  rb_fiber_new :: "kwargs \<Rightarrow> proc \<Rightarrow> ('s, 64 word, error) action"
  rb_proc_call :: "proc \<Rightarrow> Value list \<Rightarrow> ('s, Value, error) action"
  rb_block_given :: "'s \<Rightarrow> bool"
  rb_block_proc :: "('s, proc, error) action"
  rb_new_exception :: "exc_class \<Rightarrow> Value \<Rightarrow> ('s, Value, error) action"
  rb_io_try_convert :: "Value \<Rightarrow> ('s, Value, error) action"
  rb_io_fileno :: "Value \<Rightarrow> ('s, 32 word, error) action"
  rb_during_gc :: "'s \<Rightarrow> int"
  rb_thread_check_ints :: "('s, unit, error) action"

end
