(* ===== verification/Fiber.thy ===== *)
theory Fiber
  imports RubyVm Interfaces
begin

text \<open>
  \<open>fiber.rs\<close>: handles on Ruby fibers, with the states a handle is known to be in as phantom
  types. One definition per method; equality, hash and order go by the raw value.
\<close>

section \<open>Handles\<close>

definition current :: "'s ruby_vm \<Rightarrow> 's \<Rightarrow> Running Fiber" where
  "current R s = Fiber (rb_fiber_current R s)"

definition as_suspended :: "'st Fiber \<Rightarrow> Suspended Fiber" where
  "as_suspended f = Fiber (as_raw f)"

definition as_unknown :: "'st Fiber \<Rightarrow> Unknown Fiber" where
  "as_unknown f = Fiber (as_raw f)"

definition is_current :: "'s ruby_vm \<Rightarrow> 'st Fiber \<Rightarrow> 's \<Rightarrow> bool" where
  "is_current R f s \<longleftrightarrow> as_raw (current R s) = as_raw f"

definition is_alive :: "'s ruby_vm \<Rightarrow> 'st Fiber \<Rightarrow> 's \<Rightarrow> bool" where
  "is_alive R f s \<longleftrightarrow> rb_fiber_alive_p R (as_raw f) s"

definition into_value :: "'st Fiber \<Rightarrow> Value" where
  "into_value f = VRef (as_raw f)"

definition not_fiber_error :: "'s ruby_vm \<Rightarrow> Value \<Rightarrow> 's \<Rightarrow> error" where
  "not_fiber_error R v s =
     Error TypeError (''no implicit conversion of '' @ rb_classname R v s @ '' into Fiber'')"

definition from_value :: "'s ruby_vm \<Rightarrow> Value \<Rightarrow> ('s, Unknown Fiber, error) action" where
  "from_value R v s = (case v of
     VRef r \<Rightarrow> if \<not> rb_obj_is_fiber R r s then (Err (not_fiber_error R v s), s)
               else (Ok (Fiber r), s)
   | _ \<Rightarrow> (Err (not_fiber_error R v s), s))"

text \<open>\<open>raw\<close> is the raw word of the value, which is not looked at.\<close>

definition from_value_unchecked :: "64 word \<Rightarrow> 'st Fiber" where
  "from_value_unchecked raw = Fiber raw"

definition deref_fiber :: "'st Fiber \<Rightarrow> Value" where
  "deref_fiber f = VRef (as_raw f)"

definition check_suspended :: "'s ruby_vm \<Rightarrow> Unknown Fiber \<Rightarrow> ('s, Suspended Fiber, error) action" where
  "check_suspended R f s =
     (if \<not> is_alive R f s then (Err (Error RuntimeError ''fiber not alive''), s)
      else if is_current R f s then (Err (Error RuntimeError ''fiber active''), s)
      else (Ok (as_suspended f), s))"

section \<open>Switching\<close>

definition suspend :: "'s ruby_vm \<Rightarrow> Running Fiber \<Rightarrow> Value list \<Rightarrow> ('s, Suspended Fiber, error) action" where
  "suspend R f args = try_then (rb_fiber_yield R args) (\<lambda>raw. ret (Fiber raw))"

definition transfer_running :: "'s ruby_vm \<Rightarrow> Running Fiber \<Rightarrow> Value list \<Rightarrow> ('s, Value, error) action" where
  "transfer_running R f args = rb_fiber_transfer R (as_raw f) args"

definition resume :: "'s ruby_vm \<Rightarrow> Suspended Fiber \<Rightarrow> Value list \<Rightarrow> ('s, Value, error) action" where
  "resume R f args = rb_fiber_resume R (as_raw f) args"

definition transfer :: "'s ruby_vm \<Rightarrow> Suspended Fiber \<Rightarrow> Value list \<Rightarrow> ('s, Value, error) action" where
  "transfer R f args = rb_fiber_transfer R (as_raw f) args"

fun raise_error :: "'s ruby_vm \<Rightarrow> Suspended Fiber \<Rightarrow> error \<Rightarrow> ('s, Value, error) action" where
  "raise_error R f (Error klass message) =
     rb_fiber_raise R (as_raw f) [rb_class_value R klass, VStr message]"
| "raise_error R f (Exception e) = rb_fiber_raise R (as_raw f) [e]"
| "raise_error R f (Jump t) = fail (Jump t)"

definition new_nonblocking :: "'s ruby_vm \<Rightarrow> proc \<Rightarrow> ('s, Suspended Fiber, error) action" where
  "new_nonblocking R block =
     try_then (rb_hash_aset R [] ''blocking'' (VBool False)) (\<lambda>kwargs.
     try_then (rb_fiber_new R kwargs block) (\<lambda>raw.
     ret (Fiber raw)))"

section \<open>Equality, hash and order\<close>

lemma as_raw_inject [simp]: "as_raw a = as_raw b \<longleftrightarrow> a = b"
  by (cases a; cases b) simp

definition fiber_eq :: "'st Fiber \<Rightarrow> 'st Fiber \<Rightarrow> bool" where
  "fiber_eq a b \<longleftrightarrow> as_raw a = as_raw b"

definition fiber_hash :: "'st Fiber \<Rightarrow> 64 word" where
  "fiber_hash f = as_raw f"

definition fiber_cmp :: "'st Fiber \<Rightarrow> 'st Fiber \<Rightarrow> int" where
  "fiber_cmp a b = (if as_raw a < as_raw b then - 1 else if as_raw a = as_raw b then 0 else 1)"

instantiation Fiber :: (type) linorder
begin

definition less_eq_Fiber :: "'a Fiber \<Rightarrow> 'a Fiber \<Rightarrow> bool" where
  "less_eq_Fiber a b \<longleftrightarrow> fiber_cmp a b \<le> 0"

definition less_Fiber :: "'a Fiber \<Rightarrow> 'a Fiber \<Rightarrow> bool" where
  "less_Fiber a b \<longleftrightarrow> fiber_cmp a b < 0"

instance
  by standard (auto simp: less_eq_Fiber_def less_Fiber_def fiber_cmp_def split: if_splits)

end

interpretation fiber_key: hash_key fiber_eq fiber_hash
  by unfold_locales (auto simp: fiber_eq_def fiber_hash_def)

lemma fiber_eq_iff [simp]: "fiber_eq a b \<longleftrightarrow> a = b"
  by (simp add: fiber_eq_def)

section \<open>Facts the scheduler uses\<close>

lemmas fiber_defs = current_def as_suspended_def as_unknown_def is_current_def is_alive_def
  transfer_def

lemma as_raw_conversions [simp]:
  "as_raw (as_suspended f) = as_raw f" "as_raw (as_unknown f) = as_raw f"
  by (simp_all add: as_suspended_def as_unknown_def)

lemma check_suspended_Ok [effect_simps]:
  "rb_fiber_alive_p R (as_raw f) s \<Longrightarrow> rb_fiber_current R s \<noteq> as_raw f \<Longrightarrow>
   check_suspended R f s = (Ok (as_suspended f), s)"
  by (simp add: check_suspended_def fiber_defs)

lemma check_suspended_dead [effect_simps]:
  "\<not> rb_fiber_alive_p R (as_raw f) s \<Longrightarrow>
   check_suspended R f s = (Err (Error RuntimeError ''fiber not alive''), s)"
  by (simp add: check_suspended_def fiber_defs)

lemma check_suspended_active [effect_simps]:
  "rb_fiber_alive_p R (as_raw f) s \<Longrightarrow> rb_fiber_current R s = as_raw f \<Longrightarrow>
   check_suspended R f s = (Err (Error RuntimeError ''fiber active''), s)"
  by (simp add: check_suspended_def fiber_defs)

text \<open>
  \<open>check_suspended\<close> never changes the state, and hands out a handle that may be switched to
  exactly for a live fiber that is not the running one; the handle is on the same fiber.
\<close>

theorem check_suspended_exact:
  "snd (check_suspended R f s) = s \<and>
   ((\<exists>g. fst (check_suspended R f s) = Ok g) \<longleftrightarrow>
      rb_fiber_alive_p R (as_raw f) s \<and> rb_fiber_current R s \<noteq> as_raw f) \<and>
   (fst (check_suspended R f s) \<in> {Ok (Fiber (as_raw f)), Err (Error RuntimeError ''fiber not alive''),
      Err (Error RuntimeError ''fiber active'')})"
  by (auto simp: check_suspended_def fiber_defs)

text \<open>
  A value that passes the check of \<open>from_value\<close> gives the handle that \<open>from_value_unchecked\<close> would
  have given, and a handle gives its value back by any way out.
\<close>

lemma from_value_checked:
  assumes "from_value R v s = (Ok f, t)"
  shows "t = s \<and> (\<exists>r. v = VRef r \<and> f = from_value_unchecked r) \<and> into_value f = v \<and> deref_fiber f = v"
  using assms
  by (auto simp: from_value_def from_value_unchecked_def into_value_def deref_fiber_def
      split: Value.splits if_splits)

text \<open>
  A fiber handle is a lawful hash key and its order is consistent with its equality: equal
  handles hash alike, \<open>cmp\<close> is \<open>Equal\<close> exactly on equal handles and it is antisymmetric.
\<close>

theorem fiber_key_laws:
  "(fiber_eq a b \<longleftrightarrow> a = b) \<and> (a = b \<longleftrightarrow> fiber_hash a = fiber_hash b) \<and>
   (fiber_cmp a b = 0 \<longleftrightarrow> fiber_eq a b) \<and> fiber_cmp b a = - fiber_cmp a b"
  by (auto simp: fiber_eq_def fiber_hash_def fiber_cmp_def)

end
