(* ===== verification/FiberFuture.thy ===== *)
theory FiberFuture
  imports Fiber
begin

text \<open>
  \<open>fiber_future.rs\<close>: the future the scheduler puts on the runtime for a fiber, and the fiber
  with its result once the future is ready.

  \<open>'f\<close> is the boxed inner future, polled by the function given to \<open>poll_fiber_future\<close>.
\<close>

section \<open>The future and its result\<close>

record ResumableFiber =
  rf_fiber :: "Unknown Fiber"
  rf_value :: "error + Value"

record 'f FiberFuture =
  ff_future :: 'f
  ff_fiber :: "Unknown Fiber"

definition new_fiber_future :: "'s ruby_vm \<Rightarrow> 'f \<Rightarrow> 's \<Rightarrow> 'f FiberFuture" where
  "new_fiber_future R f s = \<lparr>ff_future = f, ff_fiber = as_unknown (current R s)\<rparr>"

definition poll_fiber_future ::
  "('f, 's, error + Value) poll_fn \<Rightarrow> ('f FiberFuture, 's, ResumableFiber) poll_fn" where
  "poll_fiber_future poll_inner ff cx = (case poll_inner (ff_future ff) cx of
     Some (Ready result, f, cx') \<Rightarrow>
       Some (Ready \<lparr>rf_fiber = ff_fiber ff, rf_value = result\<rparr>, ff\<lparr>ff_future := f\<rparr>, cx')
   | Some (Pending, f, cx') \<Rightarrow> Some (Pending, ff\<lparr>ff_future := f\<rparr>, wake_by_ref cx')
   | None \<Rightarrow> None)"

definition resume_if_alive :: "'s ruby_vm \<Rightarrow> ResumableFiber \<Rightarrow> ('s, Value option, error) action" where
  "resume_if_alive R rf s =
     (if \<not> is_alive R (rf_fiber rf) s then (Ok None, s)
      else (case rf_value rf of
        Inr value \<Rightarrow>
          try_then (check_suspended R (rf_fiber rf)) (\<lambda>f.
          try_then (transfer R f [value]) (\<lambda>v. ret (Some v))) s
      | Inl error \<Rightarrow>
          try_then (check_suspended R (rf_fiber rf)) (\<lambda>f.
          try_then (raise_error R f error) (\<lambda>v. ret (Some v))) s))"

section \<open>A polled fiber future\<close>

interpretation fiber_future: future_contract "poll_fiber_future p" "\<lambda>ff cx. woken cx" for p
  by unfold_locales
    (auto simp: poll_fiber_future_def wake_by_ref_def split: option.splits prod.splits poll.splits)

lemma poll_fiber_future_fiber:
  "poll_fiber_future p ff cx = Some (r, ff', cx') \<Longrightarrow>
   ff_fiber ff' = ff_fiber ff \<and> (\<forall>rf. r = Ready rf \<longrightarrow> rf_fiber rf = ff_fiber ff)"
  by (auto simp: poll_fiber_future_def split: option.splits prod.splits poll.splits)

lemma poll_times_fiber:
  "poll_times (poll_fiber_future p) n ff cx = Some (r, ff', cx') \<Longrightarrow>
   ff_fiber ff' = ff_fiber ff \<and> (\<forall>rf. r = Ready rf \<longrightarrow> rf_fiber rf = ff_fiber ff)"
proof (induction n arbitrary: ff cx)
  case 0
  then show ?case by (simp add: poll_fiber_future_fiber)
next
  case (Suc n)
  then show ?case
    by (auto split: option.splits prod.splits poll.splits dest!: poll_fiber_future_fiber)
qed

lemma poll_times_stuck:
  "poll_times (poll_fiber_future p) n ff cx = None \<Longrightarrow> \<exists>f cx. p f cx = None"
proof (induction n arbitrary: ff cx)
  case 0
  then show ?case
    by (auto simp: poll_fiber_future_def split: option.splits prod.splits poll.splits)
next
  case (Suc n)
  then show ?case
    by (auto simp: poll_fiber_future_def split: option.splits prod.splits poll.splits)
qed

text \<open>
  However often it is polled, a fiber future stays with the fiber that was running when it
  was made: when it is ready the resumable fiber is that one, and as long as it is pending its
  waker has been called, so the runtime polls it again. A poll of it returns whenever the polls
  of the future inside do.
\<close>

theorem fiber_future_keeps_fiber:
  "case poll_times (poll_fiber_future p) n (new_fiber_future R f s) cx of
     Some (Ready rf, ff, cx') \<Rightarrow> as_raw (rf_fiber rf) = rb_fiber_current R s
   | Some (Pending, ff, cx') \<Rightarrow> as_raw (ff_fiber ff) = rb_fiber_current R s \<and> woken cx'
   | None \<Rightarrow> \<exists>f cx. p f cx = None"
proof (cases "poll_times (poll_fiber_future p) n (new_fiber_future R f s) cx")
  case None
  then show ?thesis by (simp add: poll_times_stuck)
next
  case (Some out)
  then obtain r ff cx' where
    p: "poll_times (poll_fiber_future p) n (new_fiber_future R f s) cx = Some (r, ff, cx')"
    by (metis prod_cases3)
  have start: "as_raw (ff_fiber (new_fiber_future R f s)) = rb_fiber_current R s"
    by (simp add: new_fiber_future_def current_def)
  show ?thesis
  proof (cases r)
    case (Ready rf)
    with p poll_times_fiber [OF p] start show ?thesis by auto
  next
    case Pending
    with p have "woken cx'" using fiber_future.poll_times_armed by fastforce
    with p Pending poll_times_fiber [OF p] start show ?thesis by auto
  qed
qed

end
