(* ===== verification/TimeoutDuration.thy ===== *)
theory TimeoutDuration
  imports Complex_Main RubyTypes
begin

text \<open>
  \<open>timeout_duration.rs\<close>, with the parts of \<open>std::time\<close> the crate uses: \<open>Duration\<close> (64-bit
  seconds, 32-bit nanoseconds), its conversion from a float and its debug text, and the
  addition of a duration to an \<open>Instant\<close>, which panics on overflow.
\<close>

section \<open>Durations\<close>

record Duration =
  dur_secs :: "64 word"
  dur_nanos :: "32 word"

definition duration_wf :: "Duration \<Rightarrow> bool" where
  "duration_wf d \<longleftrightarrow> uint (dur_nanos d) < 1000000000"

definition duration_nanos :: "Duration \<Rightarrow> int" where
  "duration_nanos d = uint (dur_secs d) * 1000000000 + uint (dur_nanos d)"

definition from_secs :: "64 word \<Rightarrow> Duration" where
  "from_secs n = \<lparr>dur_secs = n, dur_nanos = 0\<rparr>"

text \<open>
  An \<open>f64\<close> is a rational number or one of the special values. \<open>Duration::from_secs_f64\<close> rounds
  to the nearest nanosecond, ties to even, and panics on a negative number, on \<open>NaN\<close> and on
  an overflow of the seconds.
\<close>

datatype f64 = Finite rat | PosInf | NegInf | NaN

definition round_half_even :: "rat \<Rightarrow> int" where
  "round_half_even x =
     (let f = \<lfloor>x\<rfloor>; d = x - of_int f in
      if d < 1 / 2 then f else if 1 / 2 < d then f + 1 else if even f then f else f + 1)"

definition negative_secs :: string where
  "negative_secs = ''can not convert float seconds to Duration: value is negative''"

definition overflowing_secs :: string where
  "overflowing_secs = ''can not convert float seconds to Duration: value is either too big or NaN''"

fun from_secs_f64 :: "f64 \<Rightarrow> (Duration, error) outcome" where
  "from_secs_f64 (Finite r) =
     (if r < 0 then Panic negative_secs
      else let n = round_half_even (r * 1000000000); secs = n div 1000000000 in
           if 2 ^ 64 \<le> secs then Panic overflowing_secs
           else Ok \<lparr>dur_secs = word_of_int secs, dur_nanos = word_of_int (n mod 1000000000)\<rparr>)"
| "from_secs_f64 NegInf = Panic negative_secs"
| "from_secs_f64 PosInf = Panic overflowing_secs"
| "from_secs_f64 NaN = Panic overflowing_secs"

text \<open>The \<open>Debug\<close> text of a duration, which the timeout message carries.\<close>

fun fraction_digits :: "nat \<Rightarrow> int \<Rightarrow> int \<Rightarrow> string" where
  "fraction_digits 0 part divisor = []"
| "fraction_digits (Suc n) part divisor =
     (if part = 0 then []
      else digit_char (part div divisor) # fraction_digits n (part mod divisor) (divisor div 10))"

definition fmt_decimal :: "int \<Rightarrow> int \<Rightarrow> int \<Rightarrow> string \<Rightarrow> string" where
  "fmt_decimal whole part divisor unit_name =
     (let digits = fraction_digits 9 part divisor in
      show_int whole @ (if digits = [] then [] else ''.'' @ digits) @ unit_name)"

definition debug_duration :: "Duration \<Rightarrow> string" where
  "debug_duration d =
     (let secs = uint (dur_secs d); nanos = uint (dur_nanos d) in
      if 0 < secs then fmt_decimal secs nanos 100000000 ''s''
      else if 1000000 \<le> nanos then fmt_decimal (nanos div 1000000) (nanos mod 1000000) 100000 ''ms''
      else if 1000 \<le> nanos then
        fmt_decimal (nanos div 1000) (nanos mod 1000) 100 [CHR 0xC2, CHR 0xB5, CHR ''s'']
      else fmt_decimal nanos 0 1 ''ns'')"

section \<open>Instants\<close>

record Instant =
  tv_sec :: int
  tv_nsec :: int

definition instant_wf :: "Instant \<Rightarrow> bool" where
  "instant_wf i \<longleftrightarrow> - (2 ^ 63) \<le> tv_sec i \<and> tv_sec i < 2 ^ 63 \<and>
                   0 \<le> tv_nsec i \<and> tv_nsec i < 1000000000"

definition instant_nanos :: "Instant \<Rightarrow> int" where
  "instant_nanos i = tv_sec i * 1000000000 + tv_nsec i"

definition instant_overflow :: string where
  "instant_overflow = ''overflow when adding duration to instant''"

definition instant_add :: "Instant \<Rightarrow> Duration \<Rightarrow> (Instant, error) outcome" where
  "instant_add i d =
     (let secs = tv_sec i + uint (dur_secs d); nsec = tv_nsec i + uint (dur_nanos d) in
      if 2 ^ 63 \<le> secs then Panic instant_overflow
      else if nsec < 1000000000 then Ok \<lparr>tv_sec = secs, tv_nsec = nsec\<rparr>
      else if 2 ^ 63 \<le> secs + 1 then Panic instant_overflow
      else Ok \<lparr>tv_sec = secs + 1, tv_nsec = nsec - 1000000000\<rparr>)"

section \<open>Timeouts from Ruby values\<close>

datatype TimeoutDuration = TimeoutDuration (into_std: Duration)

definition FAR_FUTURE :: Duration where
  "FAR_FUTURE = from_secs (86400 * 365 * 30)"

definition is_zero :: "TimeoutDuration \<Rightarrow> bool" where
  "is_zero t \<longleftrightarrow> into_std t = from_secs 0"

definition far_future :: TimeoutDuration where
  "far_future = TimeoutDuration FAR_FUTURE"

text \<open>
  The numeric conversions of \<open>magnus\<close>, which raise for a value they do not take.
  \<open>is_integer\<close> is the test of the value's class.
\<close>

record numeric =
  try_u64 :: "Value \<Rightarrow> (64 word, error) outcome"
  try_f64 :: "Value \<Rightarrow> (f64, error) outcome"

definition is_integer :: "Value \<Rightarrow> bool" where
  "is_integer v = (case v of VInt i \<Rightarrow> True | _ \<Rightarrow> False)"

definition try_convert_timeout :: "numeric \<Rightarrow> Value \<Rightarrow> (TimeoutDuration, error) outcome" where
  "try_convert_timeout N v =
     (if is_nil v then Ok (TimeoutDuration FAR_FUTURE)
      else if is_integer v then
        (case try_u64 N v of
           Ok n \<Rightarrow> Ok (TimeoutDuration (from_secs n))
         | Err e \<Rightarrow> Err e
         | Panic p \<Rightarrow> Panic p)
      else
        (case try_f64 N v of
           Ok f \<Rightarrow> (case from_secs_f64 f of
                     Ok d \<Rightarrow> Ok (TimeoutDuration d)
                   | Err e \<Rightarrow> Err e
                   | Panic p \<Rightarrow> Panic p)
         | Err e \<Rightarrow> Err e
         | Panic p \<Rightarrow> Panic p))"

section \<open>Rounding and bounds\<close>

lemma round_half_even_near: "\<bar>of_int (round_half_even x) - x\<bar> \<le> 1 / 2"
proof -
  have "of_int \<lfloor>x\<rfloor> \<le> x" "x < of_int \<lfloor>x\<rfloor> + 1"
    using floor_correct [of x] by simp_all
  then show ?thesis
    unfolding round_half_even_def Let_def by (auto simp: abs_le_iff; linarith)
qed

lemma round_half_even_nonneg: "0 \<le> x \<Longrightarrow> 0 \<le> round_half_even x"
  by (simp add: round_half_even_def Let_def)

lemma uint_word_of_int_less: "0 \<le> n \<Longrightarrow> n < 2 ^ LENGTH('a) \<Longrightarrow> uint (word_of_int n :: 'a::len word) = n"
  by (simp add: uint_word_of_int)

text \<open>The seconds and nanoseconds of a split number of nanoseconds put it together again.\<close>

lemma split_nanos:
  assumes "0 \<le> n" and "n div 1000000000 < 2 ^ 64"
  defines "d \<equiv> \<lparr>dur_secs = word_of_int (n div 1000000000), dur_nanos = word_of_int (n mod 1000000000)\<rparr>"
  shows "duration_nanos d = n \<and> duration_wf d"
proof -
  have "uint (word_of_int (n div 1000000000) :: 64 word) = n div 1000000000"
    using assms by (intro uint_word_of_int_less) (simp_all add: pos_imp_zdiv_nonneg_iff)
  moreover have m: "0 \<le> n mod 1000000000" "n mod 1000000000 < 1000000000" by simp_all
  moreover have "uint (word_of_int (n mod 1000000000) :: 32 word) = n mod 1000000000"
    by (rule uint_word_of_int_less) (use m in simp_all)
  ultimately show ?thesis
    unfolding d_def duration_nanos_def duration_wf_def by simp
qed

lemma from_secs_f64_rounds:
  assumes "from_secs_f64 (Finite r) = Ok d"
  shows "duration_wf d \<and> \<bar>of_int (duration_nanos d) - r * 1000000000\<bar> \<le> 1 / 2"
proof -
  let ?n = "round_half_even (r * 1000000000)"
  from assms have r: "0 \<le> r" and fits: "?n div 1000000000 < 2 ^ 64"
    and d: "d = \<lparr>dur_secs = word_of_int (?n div 1000000000), dur_nanos = word_of_int (?n mod 1000000000)\<rparr>"
    by (auto simp: Let_def split: if_splits)
  from r have "0 \<le> ?n" by (simp add: round_half_even_nonneg)
  from split_nanos [OF this fits] d have "duration_nanos d = ?n" "duration_wf d" by simp_all
  then show ?thesis using round_half_even_near [of "r * 1000000000"] by simp
qed



fun panicking_float :: "f64 \<Rightarrow> bool" where
  "panicking_float (Finite r) \<longleftrightarrow>
     r < 0 \<or> 2 ^ 64 \<le> round_half_even (r * 1000000000) div 1000000000"
| "panicking_float _ \<longleftrightarrow> True"

lemma from_secs_f64_panics: "(\<exists>p. from_secs_f64 f = Panic p) \<longleftrightarrow> panicking_float f"
  by (cases f) (auto simp: Let_def)

lemma from_secs_f64_not_Err: "from_secs_f64 f \<noteq> Err e"
  by (cases f) (auto simp: Let_def)

lemma from_secs_f64_wf: "from_secs_f64 f = Ok d \<Longrightarrow> duration_wf d"
proof (cases f)
  case (Finite r)
  assume "from_secs_f64 f = Ok d"
  with Finite have r: "0 \<le> r" and fits: "round_half_even (r * 1000000000) div 1000000000 < 2 ^ 64"
    and d: "d = \<lparr>dur_secs = word_of_int (round_half_even (r * 1000000000) div 1000000000),
                dur_nanos = word_of_int (round_half_even (r * 1000000000) mod 1000000000)\<rparr>"
    by (auto simp: Let_def split: if_splits)
  from r have "0 \<le> round_half_even (r * 1000000000)" by (simp add: round_half_even_nonneg)
  from split_nanos [OF this fits] d show ?thesis by simp
qed auto

lemma from_secs_wf [simp]: "duration_wf (from_secs n)"
  by (simp add: duration_wf_def from_secs_def)

text \<open>
  C36. A timeout argument on every branch. \<open>nil\<close> is thirty years of 365 days, to the second. An integer is
  converted to an unsigned 64-bit number, whose failure is the answer, and is exactly that many
  seconds. Any other value is converted to a float, whose failure is the answer; a float that is
  negative, not a number, or rounds to \<open>2 ^ 64\<close> seconds or more panics, and every other one gives
  a well-formed duration within half a nanosecond of it.
\<close>

theorem timeout_conversion:
  "(is_nil v \<longrightarrow> try_convert_timeout N v = Ok (TimeoutDuration \<lparr>dur_secs = 946080000, dur_nanos = 0\<rparr>)) \<and>
   (is_integer v \<longrightarrow> try_convert_timeout N v = (case try_u64 N v of
       Ok n \<Rightarrow> Ok (TimeoutDuration \<lparr>dur_secs = n, dur_nanos = 0\<rparr>) | Err e \<Rightarrow> Err e | Panic p \<Rightarrow> Panic p)) \<and>
   (\<not> is_nil v \<and> \<not> is_integer v \<longrightarrow> (case try_f64 N v of
       Err e \<Rightarrow> try_convert_timeout N v = Err e
     | Panic p \<Rightarrow> try_convert_timeout N v = Panic p
     | Ok f \<Rightarrow>
         if panicking_float f then \<exists>p. try_convert_timeout N v = Panic p
         else \<exists>r t. f = Finite r \<and> try_convert_timeout N v = Ok t \<and> duration_wf (into_std t) \<and>
                \<bar>of_int (duration_nanos (into_std t)) - r * 1000000000\<bar> \<le> 1 / 2))"
proof (intro conjI impI)
  show "try_convert_timeout N v = Ok (TimeoutDuration \<lparr>dur_secs = 946080000, dur_nanos = 0\<rparr>)" if "is_nil v"
    using that by (simp add: try_convert_timeout_def FAR_FUTURE_def from_secs_def)
  show "try_convert_timeout N v = (case try_u64 N v of
      Ok n \<Rightarrow> Ok (TimeoutDuration \<lparr>dur_secs = n, dur_nanos = 0\<rparr>) | Err e \<Rightarrow> Err e | Panic p \<Rightarrow> Panic p)"
    if "is_integer v"
    using that by (auto simp: try_convert_timeout_def is_integer_def is_nil_def from_secs_def split: outcome.split Value.splits)
next
  assume other: "\<not> is_nil v \<and> \<not> is_integer v"
  show "case try_f64 N v of
      Err e \<Rightarrow> try_convert_timeout N v = Err e
    | Panic p \<Rightarrow> try_convert_timeout N v = Panic p
    | Ok f \<Rightarrow>
        if panicking_float f then \<exists>p. try_convert_timeout N v = Panic p
        else \<exists>r t. f = Finite r \<and> try_convert_timeout N v = Ok t \<and> duration_wf (into_std t) \<and>
               \<bar>of_int (duration_nanos (into_std t)) - r * 1000000000\<bar> \<le> 1 / 2"
  proof (cases "try_f64 N v")
    case (Ok f)
    show ?thesis
    proof (cases "panicking_float f")
      case True
      with Ok other show ?thesis
        by (auto simp: try_convert_timeout_def simp flip: from_secs_f64_panics)
    next
      case False
      then obtain r where r: "f = Finite r" by (cases f) auto
      from False from_secs_f64_panics from_secs_f64_not_Err obtain d where d: "from_secs_f64 f = Ok d"
        by (metis outcome.exhaust)
      with from_secs_f64_rounds [of r d] r Ok other False show ?thesis by (simp add: try_convert_timeout_def)
    qed
  qed (use other in \<open>simp_all add: try_convert_timeout_def\<close>)
qed

text \<open>A thirty-year wait, five seconds given as an integer, and a negative float.\<close>

theorem timeout_conversion_witness:
  defines "N \<equiv> \<lparr>try_u64 = (\<lambda>v. Ok 5), try_f64 = (\<lambda>v. Ok (Finite (- 1)))\<rparr>"
  shows "try_convert_timeout N VNil = Ok (TimeoutDuration \<lparr>dur_secs = 946080000, dur_nanos = 0\<rparr>) \<and>
    try_convert_timeout N (VInt 5) = Ok (TimeoutDuration \<lparr>dur_secs = 5, dur_nanos = 0\<rparr>) \<and>
    (\<exists>p. try_convert_timeout N (VRef 8) = Panic p)"
  using timeout_conversion [of VNil N] timeout_conversion [of "VInt 5" N] timeout_conversion [of "VRef 8" N]
  by (simp add: N_def is_nil_def is_integer_def)

text \<open>
  Adding a duration to an instant is exact to the nanosecond, keeps the instant well
  formed, and panics only when the sum is past the last instant a 64-bit clock can hold.
\<close>

theorem instant_add_exact:
  assumes "instant_wf i" and "duration_wf d"
  shows "case instant_add i d of
           Ok j \<Rightarrow> instant_wf j \<and> instant_nanos j = instant_nanos i + duration_nanos d
         | Err e \<Rightarrow> False
         | Panic p \<Rightarrow> 2 ^ 63 * 1000000000 \<le> instant_nanos i + duration_nanos d"
proof -
  define a b where "a = uint (dur_secs d)" and "b = uint (dur_nanos d)"
  have "0 \<le> a" "0 \<le> b" by (simp_all add: a_def b_def)
  moreover have "b < 1000000000" using assms(2) by (simp add: duration_wf_def b_def)
  ultimately show ?thesis using assms(1)
    by (auto simp: instant_add_def Let_def instant_wf_def instant_nanos_def duration_nanos_def
        simp flip: a_def b_def)
qed

theorem instant_add_exact_witness:
  "instant_wf \<lparr>tv_sec = 946080005, tv_nsec = 7\<rparr> \<and>
   instant_add \<lparr>tv_sec = 5, tv_nsec = 7\<rparr> FAR_FUTURE = Ok \<lparr>tv_sec = 946080005, tv_nsec = 7\<rparr>"
  using instant_add_exact [of "\<lparr>tv_sec = 5, tv_nsec = 7\<rparr>" FAR_FUTURE]
  by (simp add: instant_wf_def duration_wf_def FAR_FUTURE_def from_secs_def instant_add_def Let_def)

lemma instant_add_not_Err: "instant_add i d \<noteq> Err e"
  by (simp add: instant_add_def Let_def)

end
