(* ===== verification/RubyIo.thy ===== *)
theory RubyIo
  imports RubyVm
begin

unbundle bit_operations_syntax

text \<open>
  \<open>ruby_io.rs\<close>: the Tokio object behind a Ruby IO (\<open>BackingIo\<close>), the guard that puts a
  descriptor in non-blocking mode and restores its flags (\<open>NonBlockGuard\<close>), and the pair of a
  Ruby IO with its backing object (\<open>RubyIo\<close>).

  The calls into Tokio are the fields of \<open>tokio_io\<close>, those into the operating system through
  \<open>nix\<close> the fields of \<open>fcntl_ops\<close>.
\<close>

type_synonym RawFd = "32 word"

section \<open>Interest and readiness\<close>

text \<open>\<open>tokio::io::Interest\<close> and \<open>Ready\<close>, by the two flags the crate builds and tests.\<close>

record Interest =
  is_readable :: bool
  is_writable :: bool

definition INTEREST_READABLE :: Interest where
  "INTEREST_READABLE = \<lparr>is_readable = True, is_writable = False\<rparr>"

definition INTEREST_WRITABLE :: Interest where
  "INTEREST_WRITABLE = \<lparr>is_readable = False, is_writable = True\<rparr>"

definition interest_add :: "Interest \<Rightarrow> Interest \<Rightarrow> Interest" where
  "interest_add a b =
     \<lparr>is_readable = is_readable a \<or> is_readable b, is_writable = is_writable a \<or> is_writable b\<rparr>"

record Ready =
  ready_readable :: bool
  ready_writable :: bool

definition READY_READABLE :: Ready where
  "READY_READABLE = \<lparr>ready_readable = True, ready_writable = False\<rparr>"

definition READY_WRITABLE :: Ready where
  "READY_WRITABLE = \<lparr>ready_readable = False, ready_writable = True\<rparr>"

definition ready_or :: "Ready \<Rightarrow> Ready \<Rightarrow> Ready" where
  "ready_or a b =
     \<lparr>ready_readable = ready_readable a \<or> ready_readable b,
      ready_writable = ready_writable a \<or> ready_writable b\<rparr>"

section \<open>The backing object\<close>

datatype BackingIo =
    UnixSocket RawFd
  | TcpSocket RawFd
  | File RawFd
  | UdpSocket RawFd

record 's tokio_io =
  debug_interest :: "Interest \<Rightarrow> string"
  debug_io :: "BackingIo \<Rightarrow> string"
  debug_value :: "Value \<Rightarrow> string"
  display_error :: "error \<Rightarrow> string"
  unix_from_std :: "RawFd \<Rightarrow> ('s, unit, io_error) action"
  udp_from_std :: "RawFd \<Rightarrow> ('s, unit, io_error) action"
  tcp_from_std :: "RawFd \<Rightarrow> ('s, unit, io_error) action"
  socket_ready :: "BackingIo \<Rightarrow> Interest \<Rightarrow> ('s, Ready, io_error) action"
  inner_poll_read :: "BackingIo \<Rightarrow> nat \<Rightarrow> ('s, 8 word list poll, io_error) action"
  inner_poll_write :: "BackingIo \<Rightarrow> 8 word list \<Rightarrow> ('s, nat poll, io_error) action"
  inner_poll_flush :: "BackingIo \<Rightarrow> ('s, unit poll, io_error) action"
  inner_poll_shutdown :: "BackingIo \<Rightarrow> ('s, unit poll, io_error) action"
  inner_poll_write_vectored :: "BackingIo \<Rightarrow> 8 word list list \<Rightarrow> ('s, nat poll, io_error) action"
  inner_is_write_vectored :: "BackingIo \<Rightarrow> bool"

definition udp_todo :: string where
  "udp_todo = ''not yet implemented: UDP sockets are not supported yet''"

definition poll_read :: "'s tokio_io \<Rightarrow> BackingIo \<Rightarrow> nat \<Rightarrow> ('s, 8 word list poll, io_error) action" where
  "poll_read T io n = (case io of
     UdpSocket fd \<Rightarrow> panic udp_todo
   | _ \<Rightarrow> inner_poll_read T io n)"

definition poll_write :: "'s tokio_io \<Rightarrow> BackingIo \<Rightarrow> 8 word list \<Rightarrow> ('s, nat poll, io_error) action" where
  "poll_write T io buf = (case io of
     UdpSocket fd \<Rightarrow> panic udp_todo
   | _ \<Rightarrow> inner_poll_write T io buf)"

definition poll_flush :: "'s tokio_io \<Rightarrow> BackingIo \<Rightarrow> ('s, unit poll, io_error) action" where
  "poll_flush T io = (case io of
     UdpSocket fd \<Rightarrow> panic udp_todo
   | _ \<Rightarrow> inner_poll_flush T io)"

definition poll_shutdown :: "'s tokio_io \<Rightarrow> BackingIo \<Rightarrow> ('s, unit poll, io_error) action" where
  "poll_shutdown T io = (case io of
     UdpSocket fd \<Rightarrow> panic udp_todo
   | _ \<Rightarrow> inner_poll_shutdown T io)"

definition poll_write_vectored ::
  "'s tokio_io \<Rightarrow> BackingIo \<Rightarrow> 8 word list list \<Rightarrow> ('s, nat poll, io_error) action" where
  "poll_write_vectored T io bufs = (case io of
     UdpSocket fd \<Rightarrow> panic udp_todo
   | _ \<Rightarrow> inner_poll_write_vectored T io bufs)"

definition is_write_vectored :: "'s tokio_io \<Rightarrow> BackingIo \<Rightarrow> ('s, bool, io_error) action" where
  "is_write_vectored T io = (case io of
     UdpSocket fd \<Rightarrow> panic udp_todo
   | _ \<Rightarrow> ret (inner_is_write_vectored T io))"

definition as_raw_fd :: "BackingIo \<Rightarrow> RawFd" where
  "as_raw_fd io = (case io of
     UnixSocket fd \<Rightarrow> fd | TcpSocket fd \<Rightarrow> fd | File fd \<Rightarrow> fd | UdpSocket fd \<Rightarrow> fd)"

definition display_io :: "BackingIo \<Rightarrow> string" where
  "display_io io = (case io of
     UnixSocket fd \<Rightarrow> ''UNIXSocket''
   | TcpSocket fd \<Rightarrow> ''TCPSocket''
   | File fd \<Rightarrow> ''File''
   | UdpSocket fd \<Rightarrow> ''UDPSocket'')"

definition from_std_error :: "string \<Rightarrow> RawFd \<Rightarrow> io_error \<Rightarrow> error" where
  "from_std_error what fd e =
     new_type_error (''Could not create tokio::net::'' @ what @ '' from RawFd '' @
       show_int (sint fd) @ '': '' @ io_message e)"

definition from_value_and_raw_fd ::
  "'s ruby_vm \<Rightarrow> 's tokio_io \<Rightarrow> Value \<Rightarrow> RawFd \<Rightarrow> ('s, BackingIo, error) action" where
  "from_value_and_raw_fd R T v fd s =
     (let classname = rb_classname R v s in
      if classname = ''UNIXSocket'' then
        try_then (map_err (from_std_error ''UnixStream'' fd) (unix_from_std T fd))
          (\<lambda>u. ret (UnixSocket fd)) s
      else if classname = ''IO'' \<or> classname = ''File'' then (Ok (File fd), s)
      else if classname = ''UDPSocket'' then
        try_then (map_err (from_std_error ''UdpSocket'' fd) (udp_from_std T fd))
          (\<lambda>u. ret (UdpSocket fd)) s
      else if classname = ''Socket'' \<or> classname = ''TCPServer'' \<or> classname = ''TCPSocket'' then
        try_then (map_err (from_std_error ''TcpStream'' fd) (tcp_from_std T fd))
          (\<lambda>u. ret (TcpSocket fd)) s
      else (Err (new_type_error (''Could not create BackingIo from value '' @ debug_value T v @
              '' and RawFd '' @ show_int (sint fd))), s))"

definition ready_failure :: "'s tokio_io \<Rightarrow> Interest \<Rightarrow> string \<Rightarrow> string \<Rightarrow> error" where
  "ready_failure T interest on_what why =
     new_ready_error (''Could not wait for interest '' @ debug_interest T interest @
       '' on '' @ on_what @ why)"

definition backing_ready :: "'s tokio_io \<Rightarrow> BackingIo \<Rightarrow> Interest \<Rightarrow> ('s, Ready, error) action" where
  "backing_ready T io interest = (case io of
     UnixSocket fd \<Rightarrow>
       map_err (\<lambda>e. ready_failure T interest (''UNIXSocket '' @ debug_io T io) ('': '' @ io_message e))
         (socket_ready T io interest)
   | TcpSocket fd \<Rightarrow>
       map_err (\<lambda>e. ready_failure T interest (''TCPSocket '' @ debug_io T io) ('': '' @ io_message e))
         (socket_ready T io interest)
   | File fd \<Rightarrow>
       (if is_readable interest \<and> is_writable interest then ret (ready_or READY_READABLE READY_WRITABLE)
        else if is_readable interest then ret READY_READABLE
        else if is_writable interest then ret READY_WRITABLE
        else fail (ready_failure T interest (''File '' @ debug_io T io) []))
   | UdpSocket fd \<Rightarrow>
       map_err (\<lambda>e. ready_failure T interest (''UDPSocket '' @ debug_io T io) ('': '' @ io_message e))
         (socket_ready T io interest))"

section \<open>Non-blocking mode\<close>

record 's fcntl_ops =
  f_getfl :: "RawFd \<Rightarrow> ('s, 32 word, io_error) action"
  f_setfl :: "RawFd \<Rightarrow> 32 word \<Rightarrow> ('s, unit, io_error) action"
  oflag_all :: "32 word"
  O_NONBLOCK :: "32 word"

record NonBlockGuard =
  raw_fd :: RawFd
  old_flags :: "32 word"

definition flags_failure :: "string \<Rightarrow> RawFd \<Rightarrow> io_error \<Rightarrow> error" where
  "flags_failure verb fd e =
     new_base_error (''Could not '' @ verb @ '' file descriptor flags for '' @ show_int (sint fd) @
       '': '' @ io_message e)"

definition from_bits_truncate :: "'s fcntl_ops \<Rightarrow> 32 word \<Rightarrow> 32 word" where
  "from_bits_truncate X flags = flags AND oflag_all X"

definition new_guard :: "'s fcntl_ops \<Rightarrow> RawFd \<Rightarrow> ('s, NonBlockGuard, error) action" where
  "new_guard X fd =
     try_then (map_err (flags_failure ''get'' fd) (f_getfl X fd)) (\<lambda>flags.
     let old = from_bits_truncate X flags; new = old OR O_NONBLOCK X in
     try_then (map_err (flags_failure ''set'' fd) (f_setfl X fd new)) (\<lambda>u.
     ret \<lparr>raw_fd = fd, old_flags = old\<rparr>))"

definition drop_guard :: "'s fcntl_ops \<Rightarrow> NonBlockGuard \<Rightarrow> 's \<Rightarrow> 's" where
  "drop_guard X g s = snd (f_setfl X (raw_fd g) (old_flags g) s)"

section \<open>A Ruby IO with its backing object\<close>

record RubyIo =
  io_value :: Value
  backing_io :: "BackingIo option"

definition new_with_interest ::
  "'s ruby_vm \<Rightarrow> 's tokio_io \<Rightarrow> Value \<Rightarrow> Interest \<Rightarrow> ('s, RubyIo, error) action" where
  "new_with_interest R T v interest =
     try_then (rb_io_try_convert R v) (\<lambda>io.
     try_then (rb_io_fileno R v) (\<lambda>fileno.
     try_then (from_value_and_raw_fd R T v fileno) (\<lambda>backing.
     ret \<lparr>io_value = v, backing_io = Some backing\<rparr>)))"

definition expect_backing :: "RubyIo \<Rightarrow> ('s, BackingIo, 'e) action" where
  "expect_backing io = (case backing_io io of
     Some b \<Rightarrow> ret b
   | None \<Rightarrow> panic ''RubyIo async_fd is None'')"

definition with_nonblock :: "'s fcntl_ops \<Rightarrow> RubyIo \<Rightarrow> ('s, NonBlockGuard, error) action" where
  "with_nonblock X io = try_then (expect_backing io) (\<lambda>b. new_guard X (as_raw_fd b))"

definition ruby_io_ready ::
  "'s tokio_io \<Rightarrow> RubyIo \<Rightarrow> Interest \<Rightarrow> ('s, Value \<times> Ready, error) action" where
  "ruby_io_ready T io interest =
     try_then (expect_backing io) (\<lambda>b.
     try_then (map_err (\<lambda>e. ready_failure T interest (''RawFd '' @ debug_io T b) ('': '' @ display_error T e))
                (backing_ready T b interest)) (\<lambda>guard.
     ret (io_value io, guard)))"

text \<open>
  Dropping a \<open>RubyIo\<close> takes the backing object out and forgets it: the result lists the
  descriptors that are closed with it, which are none.
\<close>

definition drop_ruby_io :: "RubyIo \<Rightarrow> RubyIo \<times> RawFd list" where
  "drop_ruby_io io = (io\<lparr>backing_io := None\<rparr>, [])"

section \<open>Which IO objects are supported\<close>

definition supported_class :: "string \<Rightarrow> bool" where
  "supported_class c \<longleftrightarrow> c \<in> {''UNIXSocket'', ''IO'', ''File'', ''UDPSocket'', ''Socket'', ''TCPServer'', ''TCPSocket''}"

text \<open>
  The backing object of a Ruby IO is on the descriptor that was asked for and of the kind
  its class says; a class outside the seven known ones (a subclass of \<open>IO\<close>, say) is refused
  with a \<open>TypeError\<close> before anything outside is called.
\<close>

theorem backing_io_of_class:
  "(\<forall>io t. from_value_and_raw_fd R T v fd s = (Ok io, t) \<longrightarrow>
      as_raw_fd io = fd \<and> supported_class (rb_classname R v s) \<and>
      display_io io = (if rb_classname R v s = ''UNIXSocket'' then ''UNIXSocket''
                       else if rb_classname R v s = ''UDPSocket'' then ''UDPSocket''
                       else if rb_classname R v s \<in> {''IO'', ''File''} then ''File''
                       else ''TCPSocket'')) \<and>
   (\<not> supported_class (rb_classname R v s) \<longrightarrow>
      (\<exists>msg. from_value_and_raw_fd R T v fd s = (Err (Error TypeError msg), s)))"
  by (auto simp: from_value_and_raw_fd_def supported_class_def Let_def effect_defs error_defs
      as_raw_fd_def display_io_def split: if_splits prod.splits outcome.splits)

section \<open>The flags of a descriptor\<close>

text \<open>
  What \<open>fcntl(2)\<close> documents: \<open>F_GETFL\<close> reads the status flags, \<open>F_SETFL\<close> sets those of the mask
  \<open>settable\<close> and leaves the others and the other descriptors alone; \<open>O_NONBLOCK\<close> can be set,
  and every flag that can be set is one that \<open>nix\<close> knows.
\<close>

definition fcntl_laws :: "'s fcntl_ops \<Rightarrow> ('s \<Rightarrow> RawFd \<Rightarrow> 32 word) \<Rightarrow> 32 word \<Rightarrow> bool" where
  "fcntl_laws X fl settable \<longleftrightarrow>
     (\<forall>s fd. f_getfl X fd s = (Ok (fl s fd), s)) \<and>
     (\<forall>s fd f. fst (f_setfl X fd f s) = Ok () \<and>
        fl (snd (f_setfl X fd f s)) = (fl s)(fd := (fl s fd AND NOT settable) OR (f AND settable))) \<and>
     settable AND oflag_all X = settable \<and> O_NONBLOCK X AND settable = O_NONBLOCK X \<and>
     O_NONBLOCK X \<noteq> 0"

lemma fcntl_lawsD:
  assumes "fcntl_laws X fl settable"
  shows "f_getfl X fd s = (Ok (fl s fd), s)" "fst (f_setfl X fd f s) = Ok ()"
    "fl (snd (f_setfl X fd f s)) = (fl s)(fd := (fl s fd AND NOT settable) OR (f AND settable))"
  using assms by (auto simp: fcntl_laws_def)

lemma masked_old_flags:
  assumes "settable AND all = settable" and "nb AND settable = (nb :: 32 word)"
  shows "(f AND NOT settable) OR (((f AND all) OR nb) AND settable) = f OR nb"
    "((f OR nb) AND NOT settable) OR ((f AND all) AND settable) = f"
proof -
  have all: "bit all n" if "bit settable n" for n
    using that assms(1) by (metis bit_and_iff)
  have nb: "bit settable n" if "bit nb n" for n
    using that assms(2) by (metis bit_and_iff)
  show "(f AND NOT settable) OR (((f AND all) OR nb) AND settable) = f OR nb"
    by (rule bit_word_eqI) (use all nb in \<open>auto simp: bit_simps\<close>)
  show "((f OR nb) AND NOT settable) OR ((f AND all) AND settable) = f"
    by (rule bit_word_eqI) (use all nb in \<open>auto simp: bit_simps\<close>)
qed

lemma new_guard_flags:
  assumes laws: "fcntl_laws X fl settable"
  obtains t where "new_guard X fd s = (Ok \<lparr>raw_fd = fd, old_flags = fl s fd AND oflag_all X\<rparr>, t)"
    and "fl t = (fl s)(fd := fl s fd OR O_NONBLOCK X)"
proof -
  let ?new = "(fl s fd AND oflag_all X) OR O_NONBLOCK X"
  obtain t where t: "f_setfl X fd ?new s = (Ok (), t)"
    using fcntl_lawsD(2) [OF laws] by (metis prod.collapse)
  then have "new_guard X fd s = (Ok \<lparr>raw_fd = fd, old_flags = fl s fd AND oflag_all X\<rparr>, t)"
    by (simp add: new_guard_def effect_defs fcntl_lawsD(1) [OF laws] from_bits_truncate_def Let_def)
  moreover have "fl t = (fl s)(fd := fl s fd OR O_NONBLOCK X)"
    using laws fcntl_lawsD(3) [OF laws, of fd ?new s]
    by (simp add: t masked_old_flags fcntl_laws_def)
  ultimately show thesis by (rule that)
qed

lemma new_guard_OkD:
  assumes laws: "fcntl_laws X fl settable" and g: "new_guard X fd s = (Ok g, t)"
  shows "g = \<lparr>raw_fd = fd, old_flags = fl s fd AND oflag_all X\<rparr>"
    "fl t = (fl s)(fd := fl s fd OR O_NONBLOCK X)"
proof -
  from new_guard_flags [OF laws] obtain u where
    "new_guard X fd s = (Ok \<lparr>raw_fd = fd, old_flags = fl s fd AND oflag_all X\<rparr>, u)"
    and "fl u = (fl s)(fd := fl s fd OR O_NONBLOCK X)" by metis
  with g show "g = \<lparr>raw_fd = fd, old_flags = fl s fd AND oflag_all X\<rparr>"
    "fl t = (fl s)(fd := fl s fd OR O_NONBLOCK X)" by simp_all
qed

lemma drop_guard_flags:
  assumes "fcntl_laws X fl settable"
  shows "fl (drop_guard X g s) =
    (fl s)(raw_fd g := (fl s (raw_fd g) AND NOT settable) OR (old_flags g AND settable))"
  by (simp add: drop_guard_def fcntl_lawsD(3) [OF assms])

lemma guard_bracket:
  assumes laws: "fcntl_laws X fl settable"
    and body: "\<And>g t. fl (snd (body g t)) = fl t"
  obtains g t where "fl t = (fl s)(fd := fl s fd OR O_NONBLOCK X)"
    and "fst (bracket (new_guard X fd) (drop_guard X) body s) = fst (body g t)"
    and "fl (snd (bracket (new_guard X fd) (drop_guard X) body s)) = fl s"
proof -
  from new_guard_flags [OF laws] obtain t where
    g: "new_guard X fd s = (Ok \<lparr>raw_fd = fd, old_flags = fl s fd AND oflag_all X\<rparr>, t)"
    and t: "fl t = (fl s)(fd := fl s fd OR O_NONBLOCK X)" by metis
  have "fl (drop_guard X \<lparr>raw_fd = fd, old_flags = fl s fd AND oflag_all X\<rparr> u) = fl s"
    if "fl u = fl t" for u
    using laws by (simp add: drop_guard_flags [OF laws] that t masked_old_flags fcntl_laws_def)
  with that [of t "\<lparr>raw_fd = fd, old_flags = fl s fd AND oflag_all X\<rparr>"] show thesis
    using body t unfolding bracket_Ok [of "new_guard X fd" s, OF g] by (simp del: fun_upd_apply)
qed

text \<open>
  A block of code under the guard runs with its descriptor in non-blocking mode, and
  whatever way it ends, in success, error or panic, the descriptor has its old flags again and
  no other descriptor is touched (given that the block itself sets no flags).
\<close>

theorem guard_restores_flags:
  assumes laws: "fcntl_laws X fl settable"
    and body: "\<And>g t. fl (snd (body g t)) = fl t"
  shows "fl (snd (bracket (new_guard X fd) (drop_guard X) body s)) = fl s \<and>
    (\<exists>g t. fl t fd = fl s fd OR O_NONBLOCK X \<and>
           fst (bracket (new_guard X fd) (drop_guard X) body s) = fst (body g t))"
proof -
  obtain g t where "fl t = (fl s)(fd := fl s fd OR O_NONBLOCK X)"
    and "fst (bracket (new_guard X fd) (drop_guard X) body s) = fst (body g t)"
    and "fl (snd (bracket (new_guard X fd) (drop_guard X) body s)) = fl s"
    by (rule guard_bracket [OF laws body])
  then show ?thesis by (metis fun_upd_same)
qed

text \<open>
  C22. Two guards on one descriptor that are dropped in the order they were made (two fibers
  that use the same IO at once) do not restore the flags: dropping the first puts the
  descriptor back in blocking mode while the second is still in use, and dropping the second
  leaves it in non-blocking mode for good. Dropped in the opposite order they do restore them.
\<close>

theorem overlapping_guards:
  assumes laws: "fcntl_laws X fl settable"
    and blocking: "fl s fd AND O_NONBLOCK X = 0"
    and a: "new_guard X fd s = (Ok ga, s1)"
    and b: "new_guard X fd s1 = (Ok gb, s2)"
  shows "fl (drop_guard X ga s2) fd AND O_NONBLOCK X = 0 \<and>
         fl (drop_guard X gb (drop_guard X ga s2)) fd = fl s fd OR O_NONBLOCK X \<and>
         fl (drop_guard X ga (drop_guard X gb s2)) fd = fl s fd"
proof -
  let ?f = "fl s fd" and ?nb = "O_NONBLOCK X" and ?all = "oflag_all X"
  note mask = masked_old_flags [of settable ?all ?nb]
  have m: "settable AND ?all = settable" "?nb AND settable = ?nb"
    using laws by (auto simp: fcntl_laws_def)
  note ga = new_guard_OkD(1) [OF laws a]
  have s1: "fl s1 fd = ?f OR ?nb" by (simp add: new_guard_OkD(2) [OF laws a])
  have gb: "gb = \<lparr>raw_fd = fd, old_flags = (?f OR ?nb) AND ?all\<rparr>"
    by (simp add: new_guard_OkD(1) [OF laws b] s1)
  have s2': "fl s2 fd = ?f OR ?nb"
    by (simp add: new_guard_OkD(2) [OF laws b] s1 or.assoc)
  have drop_a: "fl (drop_guard X ga u) fd = ?f" if "fl u fd = ?f OR ?nb" for u
    by (simp add: drop_guard_flags [OF laws] ga that mask(2) [OF m])
  have drop_b: "fl (drop_guard X gb u) fd = ?f OR ?nb"
    if "fl u fd = ?f \<or> fl u fd = ?f OR ?nb" for u
  proof -
    have all: "bit ?all n" if "bit settable n" for n using that m(1) by (metis bit_and_iff)
    have nb: "bit settable n" if "bit ?nb n" for n using that m(2) by (metis bit_and_iff)
    have "(?f AND NOT settable) OR (((?f OR ?nb) AND ?all) AND settable) = ?f OR ?nb"
      "((?f OR ?nb) AND NOT settable) OR (((?f OR ?nb) AND ?all) AND settable) = ?f OR ?nb"
      by (rule bit_word_eqI, use all nb in \<open>auto simp: bit_simps\<close>)+
    with that show ?thesis by (elim disjE) (simp_all add: drop_guard_flags [OF laws] gb)
  qed
  have "fl (drop_guard X ga (drop_guard X gb s2)) fd = ?f"
    by (rule drop_a, rule drop_b) (simp add: s2')
  moreover have "fl (drop_guard X gb (drop_guard X ga s2)) fd = ?f OR ?nb"
    by (rule drop_b) (simp add: drop_a s2')
  ultimately show ?thesis using blocking by (simp add: drop_a s2')
qed

end
