(* ===== verification/Futures.thy ===== *)
theory Futures
  imports FiberFuture TimeoutDuration RubyIo
begin

text \<open>
  The futures the crate puts on the runtime. Every \<open>async move\<close> block of the source is one
  constructor of \<open>future\<close>, with the variables the block captures; the two timeout combinators
  of \<open>timeout_after.rs\<close> wrap another future. What a block does when it runs is the definition
  of the component it belongs to.

  The Tokio objects below them are parameters: the task set (\<open>join_set\<close>), the one-shot channel
  (\<open>oneshot\<close>) and the clock (\<open>tokio_time\<close>).
\<close>

section \<open>Channels, tasks and time\<close>

type_synonym channel = nat

datatype RubyIoBuffer = RubyIoBuffer "64 word"

text \<open>An element of the array given to \<open>io_select\<close>, as the array's iterator yields it.\<close>

type_synonym select_task = "(error + Value) \<times> Interest"

datatype future =
    ReadyFuture Value
  | SleepFuture Instant TimeoutDuration
  | TimeoutFuture Instant exc_class Value "Unknown Fiber"
  | BlockFuture channel "TimeoutDuration option"
  | AddressFuture string
  | ProcessFuture "32 word" "32 word"
  | IoWaitFuture RubyIo Interest
  | IoSelectFuture "select_task list"
  | IoReadFuture RubyIo RubyIoBuffer "64 word"
  | IoWriteFuture RubyIo RubyIoBuffer "64 word"
  | WithTimeout string "TimeoutDuration option" future
  | WithTimeoutNoRaise "TimeoutDuration option" future

type_synonym task = "future FiberFuture"

record 'j join_set =
  js_empty :: 'j
  js_spawn :: "task \<Rightarrow> 'j \<Rightarrow> nat \<times> 'j"
  js_abort_all :: "'j \<Rightarrow> 'j"

text \<open>
  \<open>os_send\<close> and \<open>os_recv\<close> give the text of their error, which is all the crate uses of it. The
  states of a channel, as its documentation tells them apart, are a \<open>channel_state\<close>.
\<close>

datatype channel_state = Empty | Sent Value | SenderGone | ReceiverGone

record 's oneshot =
  os_channel :: "'s \<Rightarrow> channel \<times> 's"
  os_send :: "channel \<Rightarrow> Value \<Rightarrow> ('s, unit, string) action"
  os_recv :: "channel \<Rightarrow> ('s, Value, string) action"
  os_drop_tx :: "channel \<Rightarrow> 's \<Rightarrow> 's"
  os_drop_rx :: "channel \<Rightarrow> 's \<Rightarrow> 's"

text \<open>
  \<open>tk_timeout_at\<close> awaits a future until the instant: \<open>None\<close> is the error \<open>Elapsed\<close>, after which
  the future has been dropped. \<open>tk_tick\<close> awaits the next tick of an interval.
\<close>

record 's tokio_time =
  tk_now :: "'s \<Rightarrow> Instant"
  tk_sleep_until :: "Instant \<Rightarrow> 's \<Rightarrow> 's"
  tk_tick :: "'s \<Rightarrow> 's"
  tk_timeout_at :: "Instant \<Rightarrow> ('s, Value, error) action \<Rightarrow> 's \<Rightarrow> (Value, error) outcome option \<times> 's"

section \<open>Dropping a future that never ran\<close>

text \<open>
  Of the captured variables a channel's receiver and the set of inner tasks of \<open>io_select\<close> have a
  destructor with an effect: dropping a \<open>JoinSet\<close> aborts its tasks (\<open>D\<close>). A \<open>RubyIo\<close> forgets its
  backing object.
\<close>

primrec drop_future :: "'s oneshot \<Rightarrow> (select_task list \<Rightarrow> 's \<Rightarrow> 's) \<Rightarrow> future \<Rightarrow> 's \<Rightarrow> 's" where
  "drop_future C D (ReadyFuture v) s = s"
| "drop_future C D (SleepFuture i d) s = s"
| "drop_future C D (TimeoutFuture i c m f) s = s"
| "drop_future C D (BlockFuture ch t) s = os_drop_rx C ch s"
| "drop_future C D (AddressFuture h) s = s"
| "drop_future C D (ProcessFuture p f) s = s"
| "drop_future C D (IoWaitFuture io i) s = s"
| "drop_future C D (IoSelectFuture ts) s = D ts s"
| "drop_future C D (IoReadFuture io b n) s = s"
| "drop_future C D (IoWriteFuture io b n) s = s"
| "drop_future C D (WithTimeout d t f) s = drop_future C D f s"
| "drop_future C D (WithTimeoutNoRaise t f) s = drop_future C D f s"

end
