(* ===== verification/Intern.thy ===== *)
theory Intern
  imports RubyVm
begin

text \<open>
  \<open>intern.rs\<close> and the other objects the crate looks up once: the names of two methods, the
  classes \<open>IO\<close>, \<open>Timeout\<close>, \<open>Fiber\<close> and \<open>Process::Status\<close>, one empty array, the classes of the scheduler
  and of its errors.

  Each of them is an expression under \<open>memoize!\<close>, a macro of \<open>magnus\<close>: the field \<open>memoize\<close>, one
  cell for every place in the source that uses it (\<open>site\<close>). An object of the VM is its raw word.
\<close>

section \<open>The calls it makes\<close>

datatype site =
    FilenoId | TryConvertId | IoClass | TimeoutModule | EmptyArray | FiberClass
  | PoisonedCellClass | BaseErrorClass | TimeoutErrorClass | ReadyErrorClass
  | SchedulerClass | SchedulerDataType | ProcessStatusClass

datatype builder_step = MarkStep | FreeImmediatelyStep

text \<open>
  \<open>rclass_default\<close> and \<open>exception_class_default\<close> are the values of \<open>Default::default()\<close> at these types.
  \<open>error_text\<close> is the \<open>Debug\<close> text of an error, which a panic of \<open>unwrap\<close> shows.
  \<open>build_data_type\<close> is \<open>DataTypeBuilder\<close> with the options it is given.
\<close>

record 's intern_ops =
  memoize :: "site \<Rightarrow> ('s, 64 word, error) action \<Rightarrow> ('s, 64 word, error) action"
  id_new :: "string \<Rightarrow> 's \<Rightarrow> 64 word \<times> 's"
  object_class :: "64 word"
  standard_error :: "64 word"
  const_get :: "64 word \<Rightarrow> string \<Rightarrow> ('s, 64 word, error) action"
  rclass_default :: "64 word"
  exception_class_default :: "64 word"
  define_class :: "string \<Rightarrow> 64 word \<Rightarrow> ('s, 64 word, error) action"
  define_error :: "64 word \<Rightarrow> string \<Rightarrow> 64 word \<Rightarrow> ('s, 64 word, error) action"
  undef_alloc_func :: "64 word \<Rightarrow> 's \<Rightarrow> 's"
  array_new :: "'s \<Rightarrow> 64 word \<times> 's"
  register_mark_object :: "64 word \<Rightarrow> 's \<Rightarrow> 's"
  build_data_type :: "string \<Rightarrow> builder_step list \<Rightarrow> 's \<Rightarrow> 64 word \<times> 's"
  error_text :: "error \<Rightarrow> string"

definition calling :: "('s \<Rightarrow> 'a \<times> 's) \<Rightarrow> ('s, 'a, 'e) action" where
  [effect_defs]: "calling f s = (case f s of (x, t) \<Rightarrow> (Ok x, t))"

text \<open>\<open>expect\<close> on a \<open>Result\<close>; \<open>unwrap\<close> is the same with a text of its own.\<close>

definition expect_ok :: "'s intern_ops \<Rightarrow> string \<Rightarrow> ('s, 'a, error) action \<Rightarrow> ('s, 'a, error) action" where
  "expect_ok N msg m = match_result m ret (\<lambda>e. panic (msg @ '': '' @ error_text N e))"

definition unwrap_ok :: "'s intern_ops \<Rightarrow> ('s, 'a, error) action \<Rightarrow> ('s, 'a, error) action" where
  "unwrap_ok N = expect_ok N ''called `Result::unwrap()` on an `Err` value''"

text \<open>The shape most sites have: look an object up, keep it from the collector and return it.\<close>

definition registered :: "'s intern_ops \<Rightarrow> ('s, 64 word, error) action \<Rightarrow> ('s, 64 word, error) action" where
  "registered N m = try_then m (\<lambda>c. try_then (modify (register_mark_object N c)) (\<lambda>u. ret c))"

section \<open>Names, classes and the empty array\<close>

definition fileno_id :: "'s intern_ops \<Rightarrow> ('s, 64 word, error) action" where
  "fileno_id N = memoize N FilenoId (calling (id_new N ''fileno''))"

definition try_convert_id :: "'s intern_ops \<Rightarrow> ('s, 64 word, error) action" where
  "try_convert_id N = memoize N TryConvertId (calling (id_new N ''try_convert''))"

definition io_class :: "'s intern_ops \<Rightarrow> ('s, 64 word, error) action" where
  "io_class N = memoize N IoClass (registered N (unwrap_ok N (const_get N (object_class N) ''IO'')))"

definition timeout_module :: "'s intern_ops \<Rightarrow> ('s, 64 word, error) action" where
  "timeout_module N =
     memoize N TimeoutModule (registered N (unwrap_ok N (const_get N (object_class N) ''Timeout'')))"

definition empty_array :: "'s intern_ops \<Rightarrow> ('s, 64 word, error) action" where
  "empty_array N = memoize N EmptyArray (registered N (calling (array_new N)))"

definition fiber_class :: "'s intern_ops \<Rightarrow> ('s, 64 word, error) action" where
  "fiber_class N = memoize N FiberClass
     (registered N (expect_ok N ''Fiber class not found'' (const_get N (object_class N) ''Fiber'')))"

section \<open>The classes of the scheduler and its errors\<close>

definition scheduler_class :: "'s intern_ops \<Rightarrow> ('s, 64 word, error) action" where
  "scheduler_class N = memoize N SchedulerClass
     (try_then (unwrap_ok N (define_class N ''TokioScheduler'' (rclass_default N))) (\<lambda>c.
      try_then (modify (undef_alloc_func N c)) (\<lambda>u. ret c)))"

definition scheduler_data_type :: "'s intern_ops \<Rightarrow> ('s, 64 word, error) action" where
  "scheduler_data_type N = memoize N SchedulerDataType
     (calling (build_data_type N ''TokioScheduler'' [MarkStep, FreeImmediatelyStep]))"

definition poisoned_error_class :: "'s intern_ops \<Rightarrow> ('s, 64 word, error) action" where
  "poisoned_error_class N = memoize N PoisonedCellClass
     (registered N (unwrap_ok N (define_error N (object_class N) ''PoisonedCellError'' (exception_class_default N))))"

definition base_error_class :: "'s intern_ops \<Rightarrow> ('s, 64 word, error) action" where
  "base_error_class N = memoize N BaseErrorClass
     (registered N (try_then (scheduler_class N) (\<lambda>c.
        unwrap_ok N (define_error N c ''Error'' (standard_error N)))))"

definition timeout_error_class :: "'s intern_ops \<Rightarrow> ('s, 64 word, error) action" where
  "timeout_error_class N = memoize N TimeoutErrorClass
     (registered N (try_then (timeout_module N) (\<lambda>m. unwrap_ok N (const_get N m ''Error''))))"

definition ready_error_class :: "'s intern_ops \<Rightarrow> ('s, 64 word, error) action" where
  "ready_error_class N = memoize N ReadyErrorClass
     (registered N (try_then (scheduler_class N) (\<lambda>c. try_then (base_error_class N) (\<lambda>b.
        unwrap_ok N (define_error N c ''ReadyError'' b)))))"

definition process_status_class :: "'s intern_ops \<Rightarrow> ('s, 64 word, error) action" where
  "process_status_class N = memoize N ProcessStatusClass
     (registered N (try_then (unwrap_ok N (const_get N (object_class N) ''Process'')) (\<lambda>p.
        unwrap_ok N (const_get N p ''Status''))))"

fun interned :: "'s intern_ops \<Rightarrow> site \<Rightarrow> ('s, 64 word, error) action" where
  "interned N FilenoId = fileno_id N"
| "interned N TryConvertId = try_convert_id N"
| "interned N IoClass = io_class N"
| "interned N TimeoutModule = timeout_module N"
| "interned N EmptyArray = empty_array N"
| "interned N FiberClass = fiber_class N"
| "interned N PoisonedCellClass = poisoned_error_class N"
| "interned N BaseErrorClass = base_error_class N"
| "interned N TimeoutErrorClass = timeout_error_class N"
| "interned N ReadyErrorClass = ready_error_class N"
| "interned N SchedulerClass = scheduler_class N"
| "interned N SchedulerDataType = scheduler_data_type N"
| "interned N ProcessStatusClass = process_status_class N"

section \<open>What a cell holds\<close>

text \<open>
  What \<open>memoize!\<close> does: a cell that holds an object answers with it and does nothing else; an
  empty one runs its expression and keeps what it gave. A panic in the expression comes out and
  leaves the cell empty; it may also poison the cell, which then panics without running the
  expression again. \<open>held\<close> tells what the cells hold.
\<close>

definition memo_laws :: "'s intern_ops \<Rightarrow> ('s \<Rightarrow> site \<Rightarrow> 64 word option) \<Rightarrow> bool" where
  "memo_laws N held \<longleftrightarrow>
     (\<forall>k m s v. held s k = Some v \<longrightarrow> memoize N k m s = (Ok v, s)) \<and>
     (\<forall>k m s v t. held s k = None \<longrightarrow> m s = (Ok v, t) \<longrightarrow> held t k = None \<longrightarrow>
        (\<exists>u. memoize N k m s = (Ok v, u) \<and> held u = (held t)(k := Some v)) \<or>
        (\<exists>q. memoize N k m s = (Panic q, s))) \<and>
     (\<forall>k m s p t. held s k = None \<longrightarrow> m s = (Panic p, t) \<longrightarrow>
        (\<exists>q u. memoize N k m s = (Panic q, u) \<and> held u \<in> {held s, held t}))"

lemma memo_held: "memo_laws N held \<Longrightarrow> held s k = Some v \<Longrightarrow> memoize N k m s = (Ok v, s)"
  by (simp add: memo_laws_def)

lemma memo_made:
  assumes "memo_laws N held" and "held s k = None" and "m s = (Ok v, t)" and "held t k = None"
  obtains (made) u where "memoize N k m s = (Ok v, u)" and "held u = (held t)(k := Some v)"
    | (poisoned) q where "memoize N k m s = (Panic q, s)"
  using assms unfolding memo_laws_def by metis

lemma memo_broken:
  assumes "memo_laws N held" and "held s k = None" and "m s = (Panic p, t)"
  obtains q u where "memoize N k m s = (Panic q, u)" and "held u \<in> {held s, held t}"
  using assms unfolding memo_laws_def by metis

text \<open>The calls into the VM do not come back to the cells.\<close>

definition keeps_cells :: "('s \<Rightarrow> site \<Rightarrow> 64 word option) \<Rightarrow> ('s, 'a, 'e) action \<Rightarrow> bool" where
  "keeps_cells held m \<longleftrightarrow> (\<forall>s. held (snd (m s)) = held s)"

definition quiet_interning :: "'s intern_ops \<Rightarrow> ('s \<Rightarrow> site \<Rightarrow> 64 word option) \<Rightarrow> bool" where
  "quiet_interning N held \<longleftrightarrow>
     (\<forall>x name b. keeps_cells held (const_get N x name) \<and> keeps_cells held (define_class N name b) \<and>
        keeps_cells held (define_error N x name b)) \<and>
     (\<forall>x name steps s. held (undef_alloc_func N x s) = held s \<and> held (register_mark_object N x s) = held s \<and>
        held (snd (array_new N s)) = held s \<and> held (snd (id_new N name s)) = held s \<and>
        held (snd (build_data_type N name steps s)) = held s)"

text \<open>
  An initialiser of site \<open>k\<close>: it never answers \<open>Err\<close>, leaves cell \<open>k\<close> alone and empties no cell.
\<close>

definition initialiser :: "('s \<Rightarrow> site \<Rightarrow> 64 word option) \<Rightarrow> site \<Rightarrow> ('s, 'a, 'e) action \<Rightarrow> bool" where
  "initialiser held k m \<longleftrightarrow>
     (\<forall>s. held (snd (m s)) k = held s k \<and> held s \<subseteq>\<^sub>m held (snd (m s)) \<and> (\<forall>e. fst (m s) \<noteq> Err e))"

named_theorems initialiser_intros

lemma initialiserD:
  assumes "initialiser held k m"
  shows "held (snd (m s)) k = held s k" "held s \<subseteq>\<^sub>m held (snd (m s))" "fst (m s) \<noteq> Err e"
  using assms by (auto simp: initialiser_def)

lemma initialiser_ret [initialiser_intros]: "initialiser held k (ret x)"
  by (simp add: initialiser_def ret_def)

lemma initialiser_try_then [initialiser_intros]:
  "initialiser held k m \<Longrightarrow> (\<And>x. initialiser held k (f x)) \<Longrightarrow> initialiser held k (try_then m f)"
proof -
  assume m: "initialiser held k m" and f: "\<And>x. initialiser held k (f x)"
  have "held (snd (try_then m f s)) k = held s k \<and> held s \<subseteq>\<^sub>m held (snd (try_then m f s)) \<and>
      (\<forall>e. fst (try_then m f s) \<noteq> Err e)" for s
  proof -
    obtain r t where t: "m s = (r, t)" by fastforce
    have m': "held t k = held s k" "held s \<subseteq>\<^sub>m held t" "\<And>e. r \<noteq> Err e"
      using initialiserD [OF m, of s] t by simp_all
    show ?thesis
    proof (cases r)
      case (Ok x)
      with f [of x] t m' show ?thesis
        unfolding initialiser_def by (auto simp: try_then_Ok intro: map_le_trans)
    qed (use t m' in \<open>auto simp: try_then_def\<close>)
  qed
  then show ?thesis unfolding initialiser_def by blast
qed

lemma initialiser_modify: "(\<And>s. held (f s) = held s) \<Longrightarrow> initialiser held k (modify f)"
  by (simp add: initialiser_def modify_def)

lemma initialiser_calling: "(\<And>s. held (snd (f s)) = held s) \<Longrightarrow> initialiser held k (calling f)"
  by (auto simp: initialiser_def calling_def split_def)

lemma initialiser_expect: "keeps_cells held m \<Longrightarrow> initialiser held k (expect_ok N msg m)"
proof -
  assume m: "keeps_cells held m"
  have "held t = held s" if "m s = (r, t)" for s r t
    using m [unfolded keeps_cells_def, THEN spec, of s] that by simp
  then show ?thesis
    by (auto simp: initialiser_def expect_ok_def match_result_def ret_def panic_def
        split: prod.splits outcome.splits)
qed

lemma initialiser_memoize:
  assumes laws: "memo_laws N held" and m: "initialiser held j m" and k: "initialiser held k m" and "j \<noteq> k"
  shows "initialiser held k (memoize N j m)"
proof -
  have "held u k = held s k \<and> held s \<subseteq>\<^sub>m held u \<and> (\<forall>e. r \<noteq> Err e)" if run: "memoize N j m s = (r, u)" for s r u
  proof (cases "held s j")
    case (Some v)
    with run memo_held [OF laws Some, of m] show ?thesis by auto
  next
    case None
    obtain r' t where t: "m s = (r', t)" by fastforce
    have keep: "held t j = None" "held t k = held s k" "held s \<subseteq>\<^sub>m held t" and "\<And>e. r' \<noteq> Err e"
      using initialiserD [OF m, of s] initialiserD [OF k, of s] t None by simp_all
    then consider (made) v where "r' = Ok v" | (broken) p where "r' = Panic p" by (cases r') auto
    then show ?thesis
    proof cases
      case (made v)
      from memo_made [where m = m and t = t, OF laws None _ keep(1)] t made show ?thesis
        by cases (use run keep None \<open>j \<noteq> k\<close> in \<open>auto simp: map_le_def dom_def\<close>)
    next
      case (broken p)
      show ?thesis
        by (rule memo_broken [where m = m and t = t, OF laws None t [unfolded broken]]) (use run keep in auto)
    qed
  qed
  then show ?thesis unfolding initialiser_def by (metis prod.collapse)
qed

lemma initialiser_registered [initialiser_intros]:
  assumes "quiet_interning N held" and "initialiser held k m"
  shows "initialiser held k (registered N m)"
  using assms unfolding registered_def quiet_interning_def
  by (intro initialiser_intros initialiser_modify) auto

lemma initialiser_calls [initialiser_intros]:
  assumes "quiet_interning N held"
  shows "initialiser held k (unwrap_ok N (const_get N x name))"
    "initialiser held k (expect_ok N msg (const_get N x name))"
    "initialiser held k (unwrap_ok N (define_error N x name b))"
    "initialiser held k (unwrap_ok N (define_class N name b))"
    "initialiser held k (modify (undef_alloc_func N x))"
    "initialiser held k (calling (array_new N))" "initialiser held k (calling (id_new N name))"
    "initialiser held k (calling (build_data_type N name steps))"
  using assms unfolding quiet_interning_def unwrap_ok_def
  by (auto intro!: initialiser_expect initialiser_modify initialiser_calling)

lemmas site_defs = fileno_id_def try_convert_id_def io_class_def timeout_module_def empty_array_def
  fiber_class_def scheduler_class_def scheduler_data_type_def poisoned_error_class_def
  base_error_class_def timeout_error_class_def ready_error_class_def process_status_class_def

lemma classes_initialise [initialiser_intros]:
  assumes "memo_laws N held" and "quiet_interning N held"
  shows "k \<noteq> SchedulerClass \<Longrightarrow> initialiser held k (scheduler_class N)"
    "k \<noteq> TimeoutModule \<Longrightarrow> initialiser held k (timeout_module N)"
    "k \<noteq> SchedulerClass \<Longrightarrow> k \<noteq> BaseErrorClass \<Longrightarrow> initialiser held k (base_error_class N)"
  unfolding scheduler_class_def timeout_module_def base_error_class_def
  by (intro initialiser_memoize [OF assms(1)] initialiser_intros assms; simp)+

lemma site_memoized:
  assumes laws: "memo_laws N held" and quiet: "quiet_interning N held"
  obtains m where "interned N k = memoize N k m" and "initialiser held k m"
proof (cases k)
  case BaseErrorClass
  show thesis
    by (rule that [unfolded BaseErrorClass interned.simps, OF base_error_class_def])
      (intro initialiser_intros laws quiet; simp add: scheduler_class_def [symmetric])
next
  case ReadyErrorClass
  show thesis
    by (rule that [unfolded ReadyErrorClass interned.simps, OF ready_error_class_def])
      (intro initialiser_intros laws quiet; simp)
next
  case TimeoutErrorClass
  show thesis
    by (rule that [unfolded TimeoutErrorClass interned.simps, OF timeout_error_class_def])
      (intro initialiser_intros laws quiet; simp)
qed (rule that, simp add: site_defs, (intro initialiser_intros quiet))+

lemma interned_held:
  assumes "memo_laws N held" and "quiet_interning N held" and "held s k = Some v"
  shows "interned N k s = (Ok v, s)"
  using site_memoized [OF assms(1,2), of k] memo_held [OF assms(1,3)] by metis

lemma interned_made:
  assumes laws: "memo_laws N held" and quiet: "quiet_interning N held"
  shows "held s \<subseteq>\<^sub>m held (snd (interned N k s))"
    and "interned N k s = (Ok v, t) \<Longrightarrow> held t k = Some v"
    and "fst (interned N k s) \<noteq> Err e"
proof -
  obtain m where k: "interned N k = memoize N k m" and m: "initialiser held k m"
    by (rule site_memoized [OF laws quiet])
  have "held s \<subseteq>\<^sub>m held u \<and> (\<forall>v. r = Ok v \<longrightarrow> held u k = Some v) \<and> (\<forall>e. r \<noteq> Err e)"
    if run: "interned N k s = (r, u)" for r u
  proof (cases "held s k")
    case (Some w)
    with run memo_held [OF laws Some, of m] show ?thesis by (auto simp: k)
  next
    case None
    obtain r' w where t: "m s = (r', w)" by fastforce
    note keep = initialiserD [OF m, of s, unfolded t, simplified]
    show ?thesis
    proof (cases r')
      case (Ok x)
      from keep None have "held w k = None" by simp
      from memo_made [where m = m and t = w, OF laws None _ this] t Ok show ?thesis
        by cases (use run keep None in \<open>auto simp: k map_le_def dom_def\<close>)
    next
      case (Panic p)
      show ?thesis
        by (rule memo_broken [where m = m and t = w, OF laws None t [unfolded Panic]]) (use run keep in \<open>auto simp: k\<close>)
    qed (use keep in auto)
  qed
  then show "held s \<subseteq>\<^sub>m held (snd (interned N k s))"
    and "interned N k s = (Ok v, t) \<Longrightarrow> held t k = Some v" and "fst (interned N k s) \<noteq> Err e"
    by (metis prod.collapse)+
qed

primrec intern_all :: "'s intern_ops \<Rightarrow> site list \<Rightarrow> 's \<Rightarrow> 's" where
  "intern_all N [] s = s"
| "intern_all N (k # ks) s = intern_all N ks (snd (interned N k s))"

lemma intern_all_keeps:
  assumes "memo_laws N held" and "quiet_interning N held"
  shows "held s \<subseteq>\<^sub>m held (intern_all N ks s)"
proof (induction ks arbitrary: s)
  case (Cons k ks)
  from interned_made(1) [OF assms] Cons show ?case by (auto intro: map_le_trans)
qed simp

text \<open>
  Once a name, class or the empty array has been looked up, every later look-up, after whatever
  other look-ups, gives the same object and does nothing else; and no look-up ever answers an
  error: one that cannot be done panics.
\<close>

theorem interned_once:
  assumes laws: "memo_laws N held" and quiet: "quiet_interning N held"
    and first: "interned N k s = (Ok v, t)"
  shows "interned N k (intern_all N ks t) = (Ok v, intern_all N ks t) \<and>
    (\<forall>j u e. fst (interned N j u) \<noteq> Err e)"
proof -
  from interned_made(2) [OF laws quiet first] have "held t k = Some v" .
  with intern_all_keeps [OF laws quiet, of t ks] have "held (intern_all N ks t) k = Some v"
    by (metis domI map_le_def)
  then show ?thesis using interned_held [OF laws quiet] interned_made(3) [OF laws quiet] by metis
qed

text \<open>
  C39. A program that never loaded the \<open>timeout\<close> library has no constant \<open>Timeout\<close>: looking its error
  class up, which every expired deadline does to make its error, panics.
\<close>

theorem missing_timeout_panics:
  assumes laws: "memo_laws N held" and quiet: "quiet_interning N held"
    and empty: "held s TimeoutErrorClass = None" "held s TimeoutModule = None"
    and missing: "const_get N (object_class N) ''Timeout'' s = (Err e, t)"
  shows "\<exists>p. fst (timeout_error_class N s) = Panic p"
proof -
  let ?m = "registered N (unwrap_ok N (const_get N (object_class N) ''Timeout''))"
  have "\<exists>p. ?m s = (Panic p, t)"
    using missing by (simp add: registered_def unwrap_ok_def expect_ok_def match_result_def panic_def try_then_Panic)
  then obtain q u where "timeout_module N s = (Panic q, u)"
    unfolding timeout_module_def by (metis memo_broken [OF laws empty(2)])
  then have "\<exists>p. registered N (try_then (timeout_module N) (\<lambda>m. unwrap_ok N (const_get N m ''Error''))) s = (Panic p, u)"
    by (simp add: registered_def try_then_Panic)
  then show ?thesis
    unfolding timeout_error_class_def by (metis fst_conv memo_broken [OF laws empty(1)])
qed

section \<open>A sample of the cells\<close>

text \<open>
  Cells kept in a part of the state, that the collector and the VM do not touch. The objects are
  numbers that tell what was looked up; there is no constant \<open>Timeout\<close>.
\<close>

definition sample_interns ::
  "('s \<Rightarrow> site \<Rightarrow> 64 word option) \<Rightarrow> ((site \<Rightarrow> 64 word option) \<Rightarrow> 's \<Rightarrow> 's) \<Rightarrow> 's intern_ops" where
  "sample_interns held put = \<lparr>
     memoize = (\<lambda>k m s. case held s k of
        Some v \<Rightarrow> (Ok v, s)
      | None \<Rightarrow> (case m s of
          (Ok v, t) \<Rightarrow> (Ok v, put ((held t)(k := Some v)) t)
        | (r, t) \<Rightarrow> (r, t))),
     id_new = (\<lambda>name s. (of_nat (length name), s)), object_class = 8, standard_error = 24,
     const_get = (\<lambda>c name s. if name = ''Timeout'' then (Err (Error StandardError ''no constant''), s)
                  else (Ok (c + of_nat (length name)), s)),
     rclass_default = 8, exception_class_default = 24,
     define_class = (\<lambda>name b s. (Ok 100, s)), define_error = (\<lambda>c name b s. (Ok (c + 1), s)),
     undef_alloc_func = (\<lambda>c s. s), array_new = (\<lambda>s. (200, s)), register_mark_object = (\<lambda>c s. s),
     build_data_type = (\<lambda>name steps s. (300, s)), error_text = (\<lambda>e. [])\<rparr>"

lemma sample_intern_laws:
  assumes "\<And>c s. held (put c s) = c"
  shows "memo_laws (sample_interns held put) held" "quiet_interning (sample_interns held put) held"
  using assms by (simp_all add: memo_laws_def quiet_interning_def keeps_cells_def sample_interns_def)

abbreviation cells_only :: "(site \<Rightarrow> 64 word option) intern_ops" where
  "cells_only \<equiv> sample_interns (\<lambda>s. s) (\<lambda>c s. c)"

theorem interned_once_witness:
  "\<exists>t. interned cells_only ReadyErrorClass Map.empty = (Ok 101, t) \<and>
     interned cells_only ReadyErrorClass (intern_all cells_only [EmptyArray, TimeoutModule] t) =
       (Ok 101, intern_all cells_only [EmptyArray, TimeoutModule] t)"
proof -
  have "\<exists>t. interned cells_only ReadyErrorClass Map.empty = (Ok 101, t)"
    by (simp add: site_defs registered_def unwrap_ok_def expect_ok_def sample_interns_def effect_defs)
  then obtain t where t: "interned cells_only ReadyErrorClass Map.empty = (Ok 101, t)" by blast
  with interned_once [OF sample_intern_laws(1) sample_intern_laws(2) t] show ?thesis by blast
qed

theorem missing_timeout_panics_witness:
  "\<exists>p. fst (timeout_error_class cells_only Map.empty) = Panic p"
proof -
  have "const_get cells_only (object_class cells_only) ''Timeout'' Map.empty =
      (Err (Error StandardError ''no constant''), Map.empty)"
    by (simp add: sample_interns_def)
  from missing_timeout_panics [OF sample_intern_laws(1) sample_intern_laws(2) _ _ this] show ?thesis by simp
qed

end
