(* ===== verification/Scheduler.thy ===== *)
theory Scheduler
  imports Futures GcCell Intern
begin

text \<open>
  \<open>tokio_scheduler.rs\<close>: the scheduler object, how a future is put on its task set for the
  running fiber, how that fiber gives control to the root fiber, and what the garbage
  collector is told.

  The state is the struct with one more field, \<open>world\<close>, for everything outside it: the Ruby
  virtual machine, the Tokio runtime, the channels and the operating system.
\<close>

section \<open>The scheduler object\<close>

type_synonym blocker_map = "Suspended Fiber \<rightharpoonup> channel"

record ('j, 'w) TokioScheduler =
  root_fiber :: "Unknown Fiber"
  futures_to_run :: "'j GcCell"
  runtime :: "nat option"
  blockers :: "blocker_map GcCell"
  world :: 'w

text \<open>
  What the scheduler calls outside its source. \<open>rt_build\<close> and \<open>rt_enter\<close> are the runtime's
  constructor and the (forgotten) guard of its context, \<open>rt_shutdown\<close> its shutdown.
  \<open>rt_select\<close> is the \<open>tokio::select!\<close> of the run loop, over the next task of the set to finish
  and the branch given to it (the interrupt check, which may never return): it drives the
  runtime, which polls the tasks, so it acts on the whole state. A panic of the interrupt check
  comes out of it as \<open>Unwound\<close>. \<open>rt_drop_set\<close> drops a \<open>JoinSet\<close> with the tasks of \<open>io_select\<close>, and
  \<open>rt_driving\<close> tells whether the thread is inside a \<open>block_on\<close> already, where a second one panics.
\<close>

datatype selected = Joined "(string + ResumableFiber) option" | Interrupted error | Unwound string

record ('j, 'w) platform =
  vm :: "('j, 'w) TokioScheduler ruby_vm"
  tasks :: "'j join_set"
  channels :: "('j, 'w) TokioScheduler oneshot"
  clock :: "('j, 'w) TokioScheduler tokio_time"
  io_driver :: "('j, 'w) TokioScheduler tokio_io"
  rt_select :: "(('j, 'w) TokioScheduler \<Rightarrow> ((Value, error) outcome \<times> ('j, 'w) TokioScheduler) option) \<Rightarrow>
     ('j, 'w) TokioScheduler \<Rightarrow> selected \<times> ('j, 'w) TokioScheduler"
  rt_drop_set :: "select_task list \<Rightarrow> ('j, 'w) TokioScheduler \<Rightarrow> ('j, 'w) TokioScheduler"
  rt_driving :: "('j, 'w) TokioScheduler \<Rightarrow> bool"
  rt_shutdown :: "nat \<Rightarrow> Duration \<Rightarrow> ('j, 'w) TokioScheduler \<Rightarrow> ('j, 'w) TokioScheduler"

record 'w runtime_builder =
  rt_build :: "('w, nat, io_error) action"
  rt_enter :: "nat \<Rightarrow> 'w \<Rightarrow> 'w"

definition new_scheduler ::
  "'w ruby_vm \<Rightarrow> 'j join_set \<Rightarrow> 'w runtime_builder \<Rightarrow> ('w, ('j, 'w) TokioScheduler, error) action" where
  "new_scheduler R J B =
     try_then (map_err (\<lambda>e. new_base_error (''Could not build tokio runtime: '' @ io_message e)) (rt_build B)) (\<lambda>rt.
     try_then (modify (rt_enter B rt)) (\<lambda>u.
     (\<lambda>w. (Ok \<lparr>root_fiber = as_unknown (current R w),
               futures_to_run = new_cell (js_empty J),
               runtime = Some rt,
               blockers = new_cell Map.empty,
               world = w\<rparr>, w))))"

definition get_runtime :: "(('j, 'w) TokioScheduler, nat, error) action" where
  "get_runtime s = (case runtime s of
     Some rt \<Rightarrow> (Ok rt, s)
   | None \<Rightarrow> (Err (Error base_error ''runtime is closed''), s))"

definition rtodo :: "string \<Rightarrow> ('s, 'a, error) action" where
  "rtodo method_name = fail (Error NotImpError (''TokioScheduler#'' @ method_name))"

section \<open>Putting futures on the task set\<close>

definition on_futures :: "('j, 'a, error) action \<Rightarrow> (('j, 'w) TokioScheduler, 'a, error) action" where
  "on_futures m = on_part futures_to_run (\<lambda>c s. s\<lparr>futures_to_run := c\<rparr>) (with_borrow_mut m)"

definition spawn :: "('j, 'w) platform \<Rightarrow> future \<Rightarrow> (('j, 'w) TokioScheduler, nat, error) action" where
  "spawn P future s =
     (let fiber_future = new_fiber_future (vm P) future s in
      case on_futures (\<lambda>j. case js_spawn (tasks P) fiber_future j of (h, j') \<Rightarrow> (Ok h, j')) s of
        (Ok h, t) \<Rightarrow> (Ok h, t)
      | (Err e, t) \<Rightarrow> (Err e, drop_future (channels P) (rt_drop_set P) future t)
      | (Panic p, t) \<Rightarrow> (Panic p, t))"

definition transfer_to_root :: "('j, 'w) platform \<Rightarrow> (('j, 'w) TokioScheduler, Value, error) action" where
  "transfer_to_root P s =
     try_then (check_suspended (vm P) (root_fiber s)) (\<lambda>root. transfer (vm P) root []) s"

definition spawn_and_transfer :: "('j, 'w) platform \<Rightarrow> future \<Rightarrow> (('j, 'w) TokioScheduler, Value, error) action" where
  "spawn_and_transfer P future = try_then (spawn P future) (\<lambda>h. transfer_to_root P)"

section \<open>Marking\<close>

text \<open>
  \<open>mark\<close> as the collector calls it: the values it marks, in a set because the order of a hash
  map's keys is not determined. Outside of a collection \<open>borrow_for_gc\<close> panics.
\<close>

definition mark :: "('j, 'w) platform \<Rightarrow> (('j, 'w) TokioScheduler, Value set, error) action" where
  "mark P s = (case fst (borrow_for_gc (rb_during_gc (vm P) s) (blockers s)) of
     Ok m \<Rightarrow> (Ok (insert (into_value (root_fiber s)) (into_value ` dom m)), s)
   | Err e \<Rightarrow> (Err e, s)
   | Panic p \<Rightarrow> (Panic p, s))"

section \<open>The methods Ruby sees\<close>

definition method_table :: "(string \<times> int) list" where
  "method_table =
     [(''address_resolve'', 1), (''io_wait'', 3), (''io_select'', - 1), (''kernel_sleep'', 1),
      (''close'', 0), (''fiber'', - 1), (''timeout_after'', 3), (''process_wait'', 2),
      (''block'', 2), (''unblock'', 2), (''io_read'', 4), (''io_write'', 4), (''run'', 0)]"

fun define_methods :: "(string \<Rightarrow> int \<Rightarrow> ('s, unit, error) action) \<Rightarrow> (string \<times> int) list \<Rightarrow> ('s, unit, error) action" where
  "define_methods define_method [] = ret ()"
| "define_methods define_method ((name, arity) # ms) =
     try_then (define_method name arity) (\<lambda>u. define_methods define_method ms)"

text \<open>
  \<open>init_tracing\<close> is \<open>Registry::default()...init()\<close> of \<open>tracing_subscriber\<close>. Methods are defined on the
  class object of the scheduler.
\<close>

definition init ::
  "'s intern_ops \<Rightarrow> ('s, unit, error) action \<Rightarrow> (64 word \<Rightarrow> string \<Rightarrow> int \<Rightarrow> ('s, unit, error) action) \<Rightarrow>
   (64 word \<Rightarrow> string \<Rightarrow> int \<Rightarrow> ('s, unit, error) action) \<Rightarrow> ('s, unit, error) action" where
  "init N init_tracing define_singleton_method define_method =
     try_then init_tracing (\<lambda>u.
     try_then (scheduler_class N) (\<lambda>c.
     try_then (define_singleton_method c ''new'' 0) (\<lambda>u.
     define_methods (define_method c) method_table)))"

text \<open>The entry point of the extension, in \<open>lib.rs\<close>.\<close>

definition extension_init ::
  "'s intern_ops \<Rightarrow> ('s, unit, error) action \<Rightarrow> (64 word \<Rightarrow> string \<Rightarrow> int \<Rightarrow> ('s, unit, error) action) \<Rightarrow>
   (64 word \<Rightarrow> string \<Rightarrow> int \<Rightarrow> ('s, unit, error) action) \<Rightarrow> ('s, unit, error) action" where
  "extension_init N init_tracing define_singleton_method define_method =
     try_then (init N init_tracing define_singleton_method define_method) (\<lambda>u. ret ())"

section \<open>Debug output\<close>

text \<open>
  The \<open>Debug\<close> texts of the crate's own types. They read the content of a cell without a borrow, as
  the source does (\<open>&*self.value.get()\<close>). \<open>d\<close> and the other arguments are the texts of what is
  inside.
\<close>

definition debug_cell :: "('a \<Rightarrow> string) \<Rightarrow> 'a GcCell \<Rightarrow> string" where
  "debug_cell d c = ''GcCell('' @ d (cell_value c) @ '')''"

definition debug_ref_mut :: "('a \<Rightarrow> string) \<Rightarrow> GcRefMut \<Rightarrow> 'a GcCell \<Rightarrow> string" where
  "debug_ref_mut d g c = ''GcRefMut('' @ d (cell_value c) @ '')''"

definition debug_ref :: "('a \<Rightarrow> string) \<Rightarrow> GcRef \<Rightarrow> 'a GcCell \<Rightarrow> string" where
  "debug_ref d g c = ''GcRef('' @ d (cell_value c) @ '')''"

definition debug_fiber :: "(Value \<Rightarrow> string) \<Rightarrow> 'st Fiber \<Rightarrow> string" where
  "debug_fiber d f = ''Fiber('' @ d (VRef (as_raw f)) @ '')''"

definition debug_scheduler ::
  "(Value \<Rightarrow> string) \<Rightarrow> ('j \<Rightarrow> string) \<Rightarrow> (blocker_map \<Rightarrow> string) \<Rightarrow> ('j, 'w) TokioScheduler \<Rightarrow> string" where
  "debug_scheduler dv dj db s =
     ''TokioScheduler { root_fiber: '' @ dv (into_value (root_fiber s)) @
     '', futures_to_run: '' @ debug_cell dj (futures_to_run s) @
     '', blockers: '' @ debug_cell db (blockers s) @ '', .. }''"

text \<open>
  What is logged of a cell is its content, whoever holds a borrow of it: taking and dropping
  guards never changes the text, and the text is the same through the cell and a guard, up to
  its name.
\<close>

lemma debug_ignores_borrows:
  "debug_cell d (snd (try_borrow c)) = debug_cell d c \<and> debug_cell d (snd (try_borrow_mut c)) = debug_cell d c \<and>
   debug_cell d (drop_ref g c) = debug_cell d c \<and> debug_cell d (drop_ref_mut h c) = debug_cell d c \<and>
   (\<exists>content. debug_cell d c = ''GcCell'' @ content \<and> debug_ref d g c = ''GcRef'' @ content \<and>
      debug_ref_mut d h c = ''GcRefMut'' @ content)"
  by (simp add: debug_cell_def debug_ref_def debug_ref_mut_def try_borrow_def try_borrow_mut_def
      drop_ref_def drop_ref_mut_def)

section \<open>What Ruby can call\<close>

lemma define_methods_all:
  assumes "\<And>name arity s. d name arity s = (Ok (), reg name arity s)"
  shows "define_methods d ms s = (Ok (), fold (\<lambda>(name, arity). reg name arity) ms s)"
  by (induction ms arbitrary: s) (auto simp: assms try_then_Ok ret_def)

text \<open>
  When tracing starts and the VM accepts every definition, the extension has defined \<open>new\<close> and then
  the thirteen methods on the scheduler's class, each once; when tracing cannot start, none.
\<close>

lemma extension_init_defines:
  assumes cls: "\<And>s. scheduler_class N s = (Ok c, s)"
    and d: "\<And>name arity s. ds c name arity s = (Ok (), singleton name arity s)"
      "\<And>name arity s. dm c name arity s = (Ok (), reg name arity s)"
  shows "tr s = (Ok (), t) \<Longrightarrow> extension_init N tr ds dm s =
      (Ok (), fold (\<lambda>(name, arity). reg name arity) method_table (singleton ''new'' 0 t))"
    and "tr s = (Panic p, t) \<Longrightarrow> extension_init N tr ds dm s = (Panic p, t)"
    and "distinct (map fst method_table)" and "length method_table = 13"
proof -
  show "tr s = (Ok (), t) \<Longrightarrow> extension_init N tr ds dm s =
      (Ok (), fold (\<lambda>(name, arity). reg name arity) method_table (singleton ''new'' 0 t))"
    unfolding extension_init_def init_def
    by (simp add: try_then_Ok cls d(1) define_methods_all [of "dm c", OF d(2)] ret_def)
  show "tr s = (Panic p, t) \<Longrightarrow> extension_init N tr ds dm s = (Panic p, t)"
    by (simp add: extension_init_def init_def try_then_Panic)
qed (simp_all add: method_table_def)

section \<open>What the operations do\<close>

lemma set_futures_same [simp]: "s\<lparr>futures_to_run := futures_to_run s\<rparr> = s"
  by simp

lemma on_futures_idle [effect_simps]:
  "idle (futures_to_run s) \<Longrightarrow> on_futures m s =
     (fst (m (cell_value (futures_to_run s))),
      s\<lparr>futures_to_run := (futures_to_run s)\<lparr>cell_value := snd (m (cell_value (futures_to_run s)))\<rparr>\<rparr>)"
  by (simp add: on_futures_def on_part_def with_borrow_mut_idle)

lemma on_futures_borrowed [effect_simps]:
  "borrowed (futures_to_run s) \<Longrightarrow> on_futures m s = (Err (new_error ''already borrowed''), s)"
  by (simp add: on_futures_def on_part_def with_borrow_mut_borrowed)

definition with_task :: "('j, 'w) platform \<Rightarrow> future \<Rightarrow> ('j, 'w) TokioScheduler \<Rightarrow> ('j, 'w) TokioScheduler" where
  "with_task P future s =
     s\<lparr>futures_to_run := (futures_to_run s)\<lparr>cell_value :=
        snd (js_spawn (tasks P) \<lparr>ff_future = future, ff_fiber = Fiber (rb_fiber_current (vm P) s)\<rparr>
               (cell_value (futures_to_run s)))\<rparr>\<rparr>"

definition task_handle :: "('j, 'w) platform \<Rightarrow> future \<Rightarrow> ('j, 'w) TokioScheduler \<Rightarrow> nat" where
  "task_handle P future s =
     fst (js_spawn (tasks P) \<lparr>ff_future = future, ff_fiber = Fiber (rb_fiber_current (vm P) s)\<rparr>
            (cell_value (futures_to_run s)))"

lemma spawn_idle [effect_simps]:
  "idle (futures_to_run s) \<Longrightarrow> spawn P future s = (Ok (task_handle P future s), with_task P future s)"
  by (simp add: spawn_def Let_def on_futures_idle new_fiber_future_def current_def as_unknown_def
      with_task_def task_handle_def split: prod.splits)

lemma spawn_borrowed [effect_simps]:
  "borrowed (futures_to_run s) \<Longrightarrow>
   spawn P future s = (Err (new_error ''already borrowed''), drop_future (channels P) (rt_drop_set P) future s)"
  by (simp add: spawn_def Let_def on_futures_borrowed)

lemma spawn_and_transfer_idle [effect_simps]:
  "idle (futures_to_run s) \<Longrightarrow>
   spawn_and_transfer P future s = transfer_to_root P (with_task P future s)"
  by (simp add: spawn_and_transfer_def try_then_Ok spawn_idle)

lemma spawn_and_transfer_borrowed [effect_simps]:
  "borrowed (futures_to_run s) \<Longrightarrow>
   spawn_and_transfer P future s =
     (Err (new_error ''already borrowed''), drop_future (channels P) (rt_drop_set P) future s)"
  by (simp add: spawn_and_transfer_def try_then_Err spawn_borrowed)

lemma with_task_fields [simp]:
  "root_fiber (with_task P f s) = root_fiber s" "runtime (with_task P f s) = runtime s"
  "blockers (with_task P f s) = blockers s" "world (with_task P f s) = world s"
  "read_count (futures_to_run (with_task P f s)) = read_count (futures_to_run s)"
  "write_count (futures_to_run (with_task P f s)) = write_count (futures_to_run s)"
  by (simp_all add: with_task_def)

text \<open>
  Every blocking hook goes through \<open>spawn_and_transfer\<close>. With the task set free, one task is
  added, for the fiber that is running, and control goes to the root fiber; but the task is
  added first, so it stays behind when the root fiber cannot be switched to: when it is dead,
  or when it is the one that called (a hook called from the root fiber). With the task set
  borrowed nothing is added and the caller gets the error of the cell.
\<close>

theorem spawn_and_transfer_outcomes:
  "(idle (futures_to_run s) \<longrightarrow>
      (let t = with_task P future s; root = as_raw (root_fiber s) in
       spawn_and_transfer P future s =
         (if \<not> rb_fiber_alive_p (vm P) root t then (Err (Error RuntimeError ''fiber not alive''), t)
          else if rb_fiber_current (vm P) t = root then (Err (Error RuntimeError ''fiber active''), t)
          else rb_fiber_transfer (vm P) root [] t))) \<and>
   (borrowed (futures_to_run s) \<longrightarrow>
      spawn_and_transfer P future s =
        (Err (Error PoisonedCellError ''already borrowed''), drop_future (channels P) (rt_drop_set P) future s))"
  by (auto simp: spawn_and_transfer_idle spawn_and_transfer_borrowed transfer_to_root_def
      try_then_def check_suspended_def fiber_defs new_error_def Let_def)

text \<open>
  During a collection exactly the root fiber and the fibers in the table of blocked fibers
  are marked, whatever the state of the table's borrow counters; the fibers and values held
  only by tasks are not. Outside of a collection the call panics. The state never changes.
\<close>

theorem mark_exact:
  "mark P s =
     (if rb_during_gc (vm P) s = 1
      then (Ok ({VRef (as_raw (root_fiber s))} \<union> {VRef (as_raw f) |f. f \<in> dom (cell_value (blockers s))}), s)
      else (Panic ''attempted to borrow_for_gc outside of GC'', s))"
  by (auto simp: mark_def borrow_for_gc_def into_value_def)

end
