(* ===== verification/Samples.thy ===== *)
theory Samples
  imports Scheduler Intern
begin

text \<open>
  A small concrete platform, on which the hypotheses of the properties are shown to hold
  together. Its virtual machine keeps the running fiber, the dead ones and a log of the
  switches it was asked for; its task set is a list and its channels a table of states. It
  models no code of the crate.
\<close>

record sample_world =
  sw_current :: "64 word"
  sw_dead :: "64 word list"
  sw_log :: "(64 word \<times> Value list) list"
  sw_channels :: "nat \<Rightarrow> channel_state"
  sw_next :: nat
  sw_flags :: "RawFd \<Rightarrow> 32 word"
  sw_interned :: "site \<Rightarrow> 64 word option"

type_synonym sample_state = "(task list, sample_world) TokioScheduler"

definition on_world :: "(sample_world \<Rightarrow> sample_world) \<Rightarrow> sample_state \<Rightarrow> sample_state" where
  "on_world f s = s\<lparr>world := f (world s)\<rparr>"

definition sample_switch :: "64 word \<Rightarrow> Value list \<Rightarrow> (sample_state, Value, error) action" where
  "sample_switch f args s = (Ok VNil, on_world (\<lambda>w. w\<lparr>sw_log := (f, args) # sw_log w\<rparr>) s)"

definition sample_vm :: "sample_state ruby_vm" where
  "sample_vm = \<lparr>
     rb_fiber_current = (\<lambda>s. sw_current (world s)),
     rb_fiber_alive_p = (\<lambda>f s. f \<notin> set (sw_dead (world s))),
     rb_obj_is_fiber = (\<lambda>f s. True),
     rb_classname = (\<lambda>v s. ''IO''),
     rb_class_value = (\<lambda>c. VNil),
     rb_fiber_yield = (\<lambda>args. ret 0),
     rb_fiber_resume = sample_switch,
     rb_fiber_transfer = sample_switch,
     rb_fiber_raise = sample_switch,
     rb_hash_aset = (\<lambda>h k v. ret ((k, v) # h)),
     rb_fiber_new = (\<lambda>kw b. ret 48),
     rb_proc_call = (\<lambda>b args. ret (VInt 1)),
     rb_block_given = (\<lambda>s. True),
     rb_block_proc = ret (RubyProc 96),
     rb_new_exception = (\<lambda>c m. ret (VRef 80)),
     rb_io_try_convert = ret,
     rb_io_fileno = (\<lambda>v. ret 3),
     rb_during_gc = (\<lambda>s. 0),
     rb_thread_check_ints = fail (Error RuntimeError ''interrupted'')\<rparr>"

definition sample_tasks :: "task list join_set" where
  "sample_tasks = \<lparr>js_empty = [], js_spawn = (\<lambda>t ts. (length ts, ts @ [t])), js_abort_all = (\<lambda>ts. [])\<rparr>"

definition set_channel :: "channel \<Rightarrow> channel_state \<Rightarrow> sample_state \<Rightarrow> sample_state" where
  "set_channel ch st = on_world (\<lambda>w. w\<lparr>sw_channels := (sw_channels w)(ch := st)\<rparr>)"

definition sample_channels :: "sample_state oneshot" where
  "sample_channels = \<lparr>
     os_channel = (\<lambda>s. (sw_next (world s), on_world (\<lambda>w. w\<lparr>sw_next := Suc (sw_next w)\<rparr>)
                          (set_channel (sw_next (world s)) Empty s))),
     os_send = (\<lambda>ch v s. case sw_channels (world s) ch of
        Empty \<Rightarrow> (Ok (), set_channel ch (Sent v) s)
      | _ \<Rightarrow> (Err ''true'', s)),
     os_recv = (\<lambda>ch s. case sw_channels (world s) ch of
        Sent v \<Rightarrow> (Ok v, s)
      | _ \<Rightarrow> (Err ''channel closed'', s)),
     os_drop_tx = (\<lambda>ch s. if sw_channels (world s) ch = Empty then set_channel ch SenderGone s else s),
     os_drop_rx = (\<lambda>ch. set_channel ch ReceiverGone)\<rparr>"

definition sample_time :: "sample_state tokio_time" where
  "sample_time = \<lparr>
     tk_now = (\<lambda>s. \<lparr>tv_sec = 5, tv_nsec = 7\<rparr>),
     tk_sleep_until = (\<lambda>i s. s),
     tk_tick = (\<lambda>s. s),
     tk_timeout_at = (\<lambda>i f s. case f s of (r, t) \<Rightarrow> (Some r, t))\<rparr>"

definition sample_io :: "'s tokio_io" where
  "sample_io = \<lparr>
     debug_interest = (\<lambda>i. []), debug_io = (\<lambda>i. []), debug_value = (\<lambda>v. []), display_error = (\<lambda>e. []),
     unix_from_std = (\<lambda>fd. ret ()), udp_from_std = (\<lambda>fd. ret ()), tcp_from_std = (\<lambda>fd. ret ()),
     socket_ready = (\<lambda>io i. ret READY_READABLE),
     inner_poll_read = (\<lambda>io n. ret Pending), inner_poll_write = (\<lambda>io bs. ret Pending),
     inner_poll_flush = (\<lambda>io. ret (Ready ())), inner_poll_shutdown = (\<lambda>io. ret (Ready ())),
     inner_poll_write_vectored = (\<lambda>io bs. ret Pending), inner_is_write_vectored = (\<lambda>io. False)\<rparr>"

definition sample_setfl :: "RawFd \<Rightarrow> 32 word \<Rightarrow> sample_state \<Rightarrow> sample_state" where
  "sample_setfl fd f = on_world (\<lambda>w. w\<lparr>sw_flags := (sw_flags w)
     (fd := (sw_flags w fd AND NOT 2048) OR (f AND 2048))\<rparr>)"

definition sample_fcntl :: "sample_state fcntl_ops" where
  "sample_fcntl = \<lparr>
     f_getfl = (\<lambda>fd s. (Ok (sw_flags (world s) fd), s)),
     f_setfl = (\<lambda>fd f s. (Ok (), sample_setfl fd f s)),
     oflag_all = 4095, O_NONBLOCK = 2048\<rparr>"

definition sample_select ::
  "(sample_state \<Rightarrow> ((Value, error) outcome \<times> sample_state) option) \<Rightarrow> sample_state \<Rightarrow> selected \<times> sample_state" where
  "sample_select ci s = (case cell_value (futures_to_run s) of
     [] \<Rightarrow> (Joined None, s)
   | t # ts \<Rightarrow> (Joined (Some (Inr \<lparr>rf_fiber = ff_fiber t, rf_value = Inr (VInt 9)\<rparr>)),
                s\<lparr>futures_to_run := (futures_to_run s)\<lparr>cell_value := ts\<rparr>\<rparr>))"

definition sample_platform :: "(task list, sample_world) platform" where
  "sample_platform = \<lparr>
     vm = sample_vm, tasks = sample_tasks, channels = sample_channels, clock = sample_time,
     io_driver = sample_io, rt_select = sample_select, rt_drop_set = (\<lambda>ts s. s),
     rt_driving = (\<lambda>s. False), rt_shutdown = (\<lambda>rt d s. s)\<rparr>"

text \<open>Root fiber 16, fiber 32 running, no task and no blocked fiber yet.\<close>

definition sample_start :: sample_state where
  "sample_start = \<lparr>root_fiber = Fiber 16, futures_to_run = new_cell [], runtime = Some 1,
     blockers = new_cell Map.empty,
     world = \<lparr>sw_current = 32, sw_dead = [], sw_log = [], sw_channels = (\<lambda>c. Empty), sw_next = 0,
       sw_flags = (\<lambda>fd. 2), sw_interned = Map.empty\<rparr>\<rparr>"

lemmas sample_defs = sample_platform_def sample_vm_def sample_tasks_def sample_channels_def
  sample_time_def sample_switch_def on_world_def set_channel_def

lemma sample_platform_simps [simp]:
  "vm sample_platform = sample_vm" "tasks sample_platform = sample_tasks"
  "channels sample_platform = sample_channels" "clock sample_platform = sample_time"
  "io_driver sample_platform = sample_io" "rt_select sample_platform = sample_select"
  "rt_drop_set sample_platform ts s = s" "rt_driving sample_platform s = False"
  "rt_shutdown sample_platform rt d s = s"
  by (simp_all add: sample_platform_def)

lemma sample_vm_simps [simp]:
  "rb_fiber_current sample_vm s = sw_current (world s)"
  "rb_fiber_alive_p sample_vm f s \<longleftrightarrow> f \<notin> set (sw_dead (world s))"
  "rb_fiber_transfer sample_vm = sample_switch" "rb_fiber_raise sample_vm = sample_switch"
  "rb_obj_is_fiber sample_vm f s"
  by (simp_all add: sample_vm_def)

lemma sample_start_simps [simp]:
  "idle (futures_to_run sample_start)" "idle (blockers sample_start)"
  "cell_value (futures_to_run sample_start) = []" "cell_value (blockers sample_start) = Map.empty"
  "root_fiber sample_start = Fiber 16" "runtime sample_start = Some 1"
  "sw_current (world sample_start) = 32" "sw_dead (world sample_start) = []"
  by (simp_all add: sample_start_def) (simp add: new_cell_def)+

section \<open>A spawn on the sample platform\<close>

lemma sample_current_with_task [simp]:
  "sw_current (world (with_task sample_platform f s)) = sw_current (world s)"
  "sw_dead (world (with_task sample_platform f s)) = sw_dead (world s)"
  by simp_all

theorem spawn_and_transfer_outcomes_witness:
  "spawn_and_transfer sample_platform (ReadyFuture VNil) sample_start =
     sample_switch 16 [] (with_task sample_platform (ReadyFuture VNil) sample_start)"
  using spawn_and_transfer_outcomes [of sample_start sample_platform "ReadyFuture VNil"]
  by (simp add: Let_def)

section \<open>Files on the sample platform\<close>

abbreviation sample_flags :: "sample_state \<Rightarrow> RawFd \<Rightarrow> 32 word" where
  "sample_flags s \<equiv> sw_flags (world s)"

lemma sample_fcntl_laws: "fcntl_laws sample_fcntl sample_flags 2048"
  by (simp add: fcntl_laws_def sample_fcntl_def sample_setfl_def on_world_def)

theorem backing_io_of_class_witness:
  "from_value_and_raw_fd sample_vm sample_io (VRef 5) 3 sample_start = (Ok (File 3), sample_start) \<and>
   as_raw_fd (File 3) = 3 \<and> display_io (File 3) = ''File''"
proof -
  have made: "from_value_and_raw_fd sample_vm sample_io (VRef 5) 3 sample_start = (Ok (File 3), sample_start)"
    by (simp add: from_value_and_raw_fd_def sample_vm_def)
  with backing_io_of_class [of sample_vm sample_io "VRef 5" 3 sample_start] show ?thesis
    by (simp add: sample_vm_def)
qed

theorem guard_restores_flags_witness:
  "sample_flags (snd (bracket (new_guard sample_fcntl 3) (drop_guard sample_fcntl)
     (\<lambda>g. panic ''boom'' :: (sample_state, Value, error) action) sample_start)) 3 = 2"
  using guard_restores_flags [OF sample_fcntl_laws,
      of "\<lambda>g. panic ''boom'' :: (sample_state, Value, error) action" 3 sample_start]
  by (simp add: panic_def) (simp add: sample_start_def)

theorem overlapping_guards_witness:
  "\<exists>ga gb s2. sample_flags (drop_guard sample_fcntl gb (drop_guard sample_fcntl ga s2)) 3 = 2050 \<and>
     sample_flags (drop_guard sample_fcntl ga (drop_guard sample_fcntl gb s2)) 3 = 2"
proof -
  obtain ga s1 where a: "new_guard sample_fcntl 3 sample_start = (Ok ga, s1)"
    by (rule new_guard_flags [OF sample_fcntl_laws])
  obtain gb s2 where b: "new_guard sample_fcntl 3 s1 = (Ok gb, s2)"
    by (rule new_guard_flags [OF sample_fcntl_laws])
  have "sample_flags sample_start 3 AND O_NONBLOCK sample_fcntl = 0"
    by (simp add: sample_start_def sample_fcntl_def)
  from overlapping_guards [OF sample_fcntl_laws this a b] show ?thesis
    by (intro exI conjI) (auto simp: sample_start_def sample_fcntl_def)
qed

section \<open>Interned objects on the sample platform\<close>

abbreviation sample_held :: "sample_state \<Rightarrow> site \<Rightarrow> 64 word option" where
  "sample_held s \<equiv> sw_interned (world s)"

definition sample_cells :: "sample_state intern_ops" where
  "sample_cells = sample_interns sample_held (\<lambda>c. on_world (\<lambda>w. w\<lparr>sw_interned := c\<rparr>))"

lemma sample_cells_laws: "memo_laws sample_cells sample_held" "quiet_interning sample_cells sample_held"
  unfolding sample_cells_def by (rule sample_intern_laws; simp add: on_world_def)+

lemma sample_empty_array: "\<exists>r t. empty_array sample_cells s = (Ok r, t)"
  by (simp add: empty_array_def registered_def sample_cells_def sample_interns_def effect_defs
      split: option.split)

end
