(* ===== verification/Timeouts.thy ===== *)
theory Timeouts
  imports Samples
begin

text \<open>
  \<open>timeout_after.rs\<close>: the two combinators that give a future a deadline, and the method that
  raises an exception in a fiber when the time given to a block is over.
  \<open>kernel_sleep.rs\<close> is here too.
\<close>

section \<open>A deadline for a future\<close>

definition with_timeout_no_raise ::
  "'s tokio_time \<Rightarrow> TimeoutDuration option \<Rightarrow> ('s, Value, error) action \<Rightarrow> ('s, Value, error) action" where
  "with_timeout_no_raise T timeout f s = (case timeout of
     Some t \<Rightarrow>
       (case instant_add (tk_now T s) (into_std t) of
          Ok instant \<Rightarrow> (case tk_timeout_at T instant f s of
              (Some result, s') \<Rightarrow> (result, s')
            | (None, s') \<Rightarrow> (Ok VNil, s'))
        | Err e \<Rightarrow> (Err e, s)
        | Panic p \<Rightarrow> (Panic p, s))
   | None \<Rightarrow> f s)"

definition timed_out :: "string \<Rightarrow> Duration \<Rightarrow> error" where
  "timed_out desc duration =
     new_timeout_error (''timed out after '' @ debug_duration duration @ '' seconds when '' @ desc)"

definition with_timeout ::
  "'s tokio_time \<Rightarrow> string \<Rightarrow> TimeoutDuration option \<Rightarrow> ('s, Value, error) action \<Rightarrow> ('s, Value, error) action" where
  "with_timeout T desc timeout f s = (case timeout of
     Some t \<Rightarrow>
       (case instant_add (tk_now T s) (into_std t) of
          Ok instant \<Rightarrow> (case tk_timeout_at T instant f s of
              (Some result, s') \<Rightarrow> (result, s')
            | (None, s') \<Rightarrow> (Err (timed_out desc (into_std t)), s'))
        | Err e \<Rightarrow> (Err e, s)
        | Panic p \<Rightarrow> (Panic p, s))
   | None \<Rightarrow> f s)"

section \<open>Sleeping\<close>

definition kernel_sleep :: "('j, 'w) platform \<Rightarrow> TimeoutDuration \<Rightarrow> (('j, 'w) TokioScheduler, Value, error) action" where
  "kernel_sleep P duration s =
     (case instant_add (tk_now (clock P) s) (into_std duration) of
        Ok instant \<Rightarrow>
          if is_zero duration then spawn_and_transfer P (ReadyFuture (VInt 0)) s
          else spawn_and_transfer P (SleepFuture instant duration) s
      | Err e \<Rightarrow> (Err e, s)
      | Panic p \<Rightarrow> (Panic p, s))"

definition sleep_future :: "'s tokio_time \<Rightarrow> Instant \<Rightarrow> TimeoutDuration \<Rightarrow> ('s, Value, error) action" where
  "sleep_future T instant duration s =
     (Ok (VInt (uint (dur_secs (into_std duration)))), tk_sleep_until T instant s)"

section \<open>A deadline for a block of Ruby code\<close>

definition timeout_after ::
  "('j, 'w) platform \<Rightarrow> TimeoutDuration \<Rightarrow> exc_class \<Rightarrow> Value \<Rightarrow> (('j, 'w) TokioScheduler, Value, error) action" where
  "timeout_after P duration exception_class message s =
     (case instant_add (tk_now (clock P) s) (into_std duration) of
        Ok timeout_at \<Rightarrow>
          (let fiber_to_timeout = as_unknown (current (vm P) s) in
           try_then (spawn P (TimeoutFuture timeout_at exception_class message fiber_to_timeout)) (\<lambda>h s1.
             if rb_block_given (vm P) s1
             then try_then (rb_block_proc (vm P)) (\<lambda>blk. rb_proc_call (vm P) blk []) s1
             else (Ok VNil, s1)) s)
      | Err e \<Rightarrow> (Err e, s)
      | Panic p \<Rightarrow> (Panic p, s))"

definition timeout_future ::
  "'s ruby_vm \<Rightarrow> 's tokio_time \<Rightarrow> Instant \<Rightarrow> exc_class \<Rightarrow> Value \<Rightarrow> Unknown Fiber \<Rightarrow> ('s, Value, error) action" where
  "timeout_future R T timeout_at exception_class message fiber_to_timeout =
     try_then (modify (tk_sleep_until T timeout_at)) (\<lambda>u.
     try_then (rb_new_exception R exception_class message) (\<lambda>err.
     try_then (rb_new_exception R exception_class message) (\<lambda>exception.
     try_then (check_suspended R fiber_to_timeout) (\<lambda>fiber.
     raise_error R fiber (Exception exception)))))"

section \<open>What a deadline changes\<close>

text \<open>
  What Tokio documents of \<open>timeout_at\<close>: a future that completes in time gives its own result.
\<close>

definition timeout_at_law :: "'s tokio_time \<Rightarrow> bool" where
  "timeout_at_law T \<longleftrightarrow> (\<forall>i f s r t. tk_timeout_at T i f s = (Some r, t) \<longrightarrow> f s = (r, t))"

lemma timeout_at_in_time:
  "timeout_at_law T \<Longrightarrow> tk_timeout_at T i f s = (Some r, t) \<Longrightarrow> f s = (r, t)"
  by (simp add: timeout_at_law_def)

lemma with_timeout_instant [effect_simps]:
  "instant_add (tk_now T s) (into_std d) = Ok i \<Longrightarrow>
   with_timeout T desc (Some d) f s = (case tk_timeout_at T i f s of
       (Some result, t) \<Rightarrow> (result, t) | (None, t) \<Rightarrow> (Err (timed_out desc (into_std d)), t))"
  "instant_add (tk_now T s) (into_std d) = Ok i \<Longrightarrow>
   with_timeout_no_raise T (Some d) f s = (case tk_timeout_at T i f s of
       (Some result, t) \<Rightarrow> (result, t) | (None, t) \<Rightarrow> (Ok VNil, t))"
  by (simp_all add: with_timeout_def with_timeout_no_raise_def)

text \<open>
  Without a timeout both combinators are the future itself. With one, they give the
  future's own result when it is in time; when it is late, \<open>with_timeout\<close> gives the timeout
  error and \<open>with_timeout_no_raise\<close> gives \<open>nil\<close>, in the same state; when the deadline itself
  cannot be computed they panic before the future is polled.
\<close>

theorem deadline_outcomes:
  assumes law: "timeout_at_law T"
  shows "with_timeout T desc None f = f \<and> with_timeout_no_raise T None f = f \<and>
    (case instant_add (tk_now T s) (into_std d) of
       Ok i \<Rightarrow>
         (case tk_timeout_at T i f s of
            (Some r, t) \<Rightarrow> f s = (r, t) \<and> with_timeout T desc (Some d) f s = (r, t) \<and>
               with_timeout_no_raise T (Some d) f s = (r, t)
          | (None, t) \<Rightarrow>
               with_timeout T desc (Some d) f s =
                 (Err (Error TimeoutError (''timed out after '' @ debug_duration (into_std d) @
                    '' seconds when '' @ desc)), t) \<and>
               with_timeout_no_raise T (Some d) f s = (Ok VNil, t))
     | Err e \<Rightarrow> False
     | Panic p \<Rightarrow> with_timeout T desc (Some d) f s = (Panic p, s) \<and>
                  with_timeout_no_raise T (Some d) f s = (Panic p, s))"
proof -
  have none: "with_timeout T desc None f = f" "with_timeout_no_raise T None f = f"
    by (auto simp: fun_eq_iff with_timeout_def with_timeout_no_raise_def)
  show ?thesis
  proof (cases "instant_add (tk_now T s) (into_std d) :: (Instant, error) outcome")
    case (Ok i)
    obtain r t where "tk_timeout_at T i f s = (r, t)" by fastforce
    with Ok none law show ?thesis
      by (cases r) (auto simp: with_timeout_instant timeout_at_in_time timed_out_def error_defs)
  next
    case (Err e)
    then show ?thesis by (simp add: instant_add_def Let_def split: if_splits)
  next
    case (Panic p)
    with none show ?thesis by (simp add: with_timeout_def with_timeout_no_raise_def)
  qed
qed

theorem deadline_outcomes_witness:
  "with_timeout sample_time ''sleeping'' (Some (TimeoutDuration (from_secs 2))) (ret (VInt 3)) sample_start =
     (Ok (VInt 3), sample_start)"
proof -
  have law: "timeout_at_law sample_time"
    by (auto simp: timeout_at_law_def sample_time_def split: prod.splits)
  show ?thesis
    using deadline_outcomes [OF law, where desc = "''sleeping''" and f = "ret (VInt 3)"
      and s = sample_start and d = "TimeoutDuration (from_secs 2)"]
    by (simp add: sample_time_def instant_add_def from_secs_def into_std_def ret_def
        split: outcome.splits if_splits)
qed

section \<open>Sleeping fibers\<close>

text \<open>
  \<open>kernel_sleep\<close> with the task set free: a deadline that cannot be computed panics with no
  task added; a zero duration adds a future that is ready with 0; any other adds one that sleeps
  until the deadline and gives the whole seconds of the duration, whatever its nanoseconds.
  Then the fiber gives control to the root fiber. With the task set borrowed, nothing is added.
\<close>

theorem kernel_sleep_outcomes:
  "case instant_add (tk_now (clock P) s) (into_std d) of
     Ok i \<Rightarrow>
       (let future = (if into_std d = \<lparr>dur_secs = 0, dur_nanos = 0\<rparr> then ReadyFuture (VInt 0)
                      else SleepFuture i d) in
        (idle (futures_to_run s) \<longrightarrow>
           kernel_sleep P d s = transfer_to_root P (with_task P future s)) \<and>
        (borrowed (futures_to_run s) \<longrightarrow>
           kernel_sleep P d s = (Err (Error PoisonedCellError ''already borrowed''), s)) \<and>
        sleep_future (clock P) i d u = (Ok (VInt (uint (dur_secs (into_std d)))), tk_sleep_until (clock P) i u))
   | Err e \<Rightarrow> False
   | Panic p \<Rightarrow> kernel_sleep P d s = (Panic p, s)"
proof (cases "instant_add (tk_now (clock P) s) (into_std d)")
  case (Ok i)
  then show ?thesis
    by (auto simp: kernel_sleep_def sleep_future_def is_zero_def from_secs_def
        spawn_and_transfer_idle spawn_and_transfer_borrowed new_error_def)
qed (simp_all add: instant_add_not_Err kernel_sleep_def)

theorem kernel_sleep_outcomes_witness:
  "kernel_sleep sample_platform (TimeoutDuration (from_secs 2)) sample_start =
     transfer_to_root sample_platform (with_task sample_platform
       (SleepFuture \<lparr>tv_sec = 7, tv_nsec = 7\<rparr> (TimeoutDuration (from_secs 2))) sample_start)"
  using kernel_sleep_outcomes [where P = sample_platform and s = sample_start
      and d = "TimeoutDuration (from_secs 2)"]
  by (simp add: sample_time_def instant_add_def from_secs_def Let_def)

section \<open>The deadline of a block\<close>

lemma timeout_after_idle:
  assumes "idle (futures_to_run s)"
    and "instant_add (tk_now (clock P) s) (into_std d) = Ok i"
    and "t = with_task P (TimeoutFuture i c m (Fiber (rb_fiber_current (vm P) s))) s"
  shows "timeout_after P d c m s =
    (if rb_block_given (vm P) t then try_then (rb_block_proc (vm P)) (\<lambda>blk. rb_proc_call (vm P) blk []) t
     else (Ok VNil, t))"
  using assms
  by (simp add: timeout_after_def Let_def try_then_Ok spawn_idle current_def as_unknown_def)

lemma timeout_future_switchable:
  assumes "rb_new_exception R c m (tk_sleep_until T i s) = (Ok x, t1)"
    and "rb_new_exception R c m t1 = (Ok y, t2)"
  shows "timeout_future R T i c m f s =
    (if \<not> rb_fiber_alive_p R (as_raw f) t2 then (Err (Error RuntimeError ''fiber not alive''), t2)
     else if rb_fiber_current R t2 = as_raw f then (Err (Error RuntimeError ''fiber active''), t2)
     else rb_fiber_raise R (as_raw f) [y] t2)"
  using assms
  by (auto simp: timeout_future_def modify_def try_then_def check_suspended_def fiber_defs)

text \<open>
  C21. The task of \<open>timeout_after\<close> is added before the block is called and nothing takes it out
  again: the outcome and the state are those of the block, called with the task in the set, on
  every way the block can end. When its time comes the task raises its exception in the
  fiber, unless that is dead or running, without asking whether the block is still being
  executed.
\<close>

theorem timeout_not_cancelled:
  assumes "idle (futures_to_run s)"
    and "instant_add (tk_now (clock P) s) (into_std d) = Ok i"
    and "rb_block_given (vm P) t" and "rb_block_proc (vm P) t = (Ok blk, t')"
    and "rb_new_exception (vm P) c m (tk_sleep_until (clock P) i u) = (Ok x, u1)"
    and "rb_new_exception (vm P) c m u1 = (Ok y, u2)"
  defines "f \<equiv> Fiber (rb_fiber_current (vm P) s) :: Unknown Fiber"
  assumes t: "t = with_task P (TimeoutFuture i c m f) s"
  shows "timeout_after P d c m s = rb_proc_call (vm P) blk [] t' \<and>
    timeout_future (vm P) (clock P) i c m f u =
      (if \<not> rb_fiber_alive_p (vm P) (as_raw f) u2 then (Err (Error RuntimeError ''fiber not alive''), u2)
       else if rb_fiber_current (vm P) u2 = as_raw f then (Err (Error RuntimeError ''fiber active''), u2)
       else rb_fiber_raise (vm P) (as_raw f) [y] u2)"
  using timeout_after_idle [OF assms(1,2) t [unfolded f_def]] assms(3,4) timeout_future_switchable [OF assms(5,6), of f]
  by (simp add: f_def try_then_Ok)

theorem timeout_not_cancelled_witness:
  "fst (timeout_after sample_platform (TimeoutDuration (from_secs 2)) TimeoutError VNil sample_start) = Ok (VInt 1) \<and>
   timeout_future sample_vm sample_time \<lparr>tv_sec = 7, tv_nsec = 7\<rparr> TimeoutError VNil (Fiber 32) sample_start =
     (Err (Error RuntimeError ''fiber active''), sample_start)"
  using timeout_not_cancelled [where P = sample_platform and s = sample_start and u = sample_start
      and d = "TimeoutDuration (from_secs 2)" and c = TimeoutError and m = VNil
      and i = "\<lparr>tv_sec = 7, tv_nsec = 7\<rparr>" and blk = "RubyProc 96" and x = "VRef 80" and y = "VRef 80",
      OF _ _ _ _ _ _ refl]
  by (simp add: sample_time_def sample_vm_def instant_add_def from_secs_def Let_def ret_def)

end
