(* ===== verification/RunLoop.thy ===== *)
theory RunLoop
  imports Timeouts
begin

text \<open>
  \<open>close.rs\<close> and \<open>thread.rs\<close>: the event loop that waits for the next finished task and resumes
  its fiber, the check for thread interrupts it races with, and \<open>close\<close>, which runs the loop to
  its end and shuts the runtime down.

  The loop and the check may run for ever: they are \<open>partial_function (option)\<close>, whose value
  \<open>None\<close> is not returning.
\<close>

section \<open>The check for interrupts\<close>

partial_function (option) check_interrupts ::
  "'s ruby_vm \<Rightarrow> 's tokio_time \<Rightarrow> 's \<Rightarrow> ((Value, error) outcome \<times> 's) option" where
  "check_interrupts R T s = (case rb_thread_check_ints R (tk_tick T s) of
     (Ok u, t) \<Rightarrow> check_interrupts R T t
   | (Err e, t) \<Rightarrow> Some (Err e, t)
   | (Panic p, t) \<Rightarrow> Some (Panic p, t))"

section \<open>One turn of the loop\<close>

datatype control = Continue | Return "(unit, error) outcome"

definition put_futures :: "'j GcCell \<Rightarrow> ('j, 'w) TokioScheduler \<Rightarrow> ('j, 'w) TokioScheduler" where
  "put_futures c s = s\<lparr>futures_to_run := c\<rparr>"

definition release_futures :: "GcRefMut \<Rightarrow> ('j, 'w) TokioScheduler \<Rightarrow> ('j, 'w) TokioScheduler" where
  "release_futures g s = put_futures (drop_ref_mut g (futures_to_run s)) s"

definition abort_all :: "('j, 'w) platform \<Rightarrow> ('j, 'w) TokioScheduler \<Rightarrow> ('j, 'w) TokioScheduler" where
  "abort_all P s = put_futures ((futures_to_run s)\<lparr>cell_value := js_abort_all (tasks P) (cell_value (futures_to_run s))\<rparr>) s"

definition handle_task ::
  "('j, 'w) platform \<Rightarrow> (string + ResumableFiber) option \<Rightarrow> ('j, 'w) TokioScheduler \<Rightarrow> control \<times> ('j, 'w) TokioScheduler" where
  "handle_task P task s = (case task of
     Some (Inr fiber) \<Rightarrow> (case resume_if_alive (vm P) fiber s of
         (Ok v, t) \<Rightarrow> (Continue, t)
       | (Err e, t) \<Rightarrow> (Return (Err e), t)
       | (Panic p, t) \<Rightarrow> (Return (Panic p), t))
   | Some (Inl e) \<Rightarrow> (Continue, s)
   | None \<Rightarrow> (Return (Ok ()), s))"

definition run_iteration :: "('j, 'w) platform \<Rightarrow> ('j, 'w) TokioScheduler \<Rightarrow> control \<times> ('j, 'w) TokioScheduler" where
  "run_iteration P s = (case on_part futures_to_run put_futures try_borrow_mut s of
     (Ok g, s1) \<Rightarrow> (case rt_select P (check_interrupts (vm P) (clock P)) s1 of
         (Joined task, s2) \<Rightarrow> handle_task P task (release_futures g s2)
       | (Interrupted e, s2) \<Rightarrow> (Return (Err e), release_futures g (abort_all P s2))
       | (Unwound p, s2) \<Rightarrow> (Return (Panic p), release_futures g s2))
   | (Err e, s1) \<Rightarrow> (Return (Err e), s1)
   | (Panic p, s1) \<Rightarrow> (Return (Panic p), s1))"

partial_function (option) run_loop ::
  "('j, 'w) platform \<Rightarrow> ('j, 'w) TokioScheduler \<Rightarrow> ((unit, error) outcome \<times> ('j, 'w) TokioScheduler) option" where
  "run_loop pf s = (case run_iteration pf s of
     (Continue, t) \<Rightarrow> run_loop pf t
   | (Return r, t) \<Rightarrow> Some (r, t))"

section \<open>The methods\<close>

definition run :: "('j, 'w) platform \<Rightarrow> ('j, 'w) TokioScheduler \<Rightarrow> ((unit, error) outcome \<times> ('j, 'w) TokioScheduler) option" where
  "run P s = (case get_runtime s of
     (Ok rt, t) \<Rightarrow>
       if rt_driving P t then Some (Panic ''Cannot start a runtime from within a runtime'', t)
       else run_loop P t
   | (Err e, t) \<Rightarrow> Some (Err e, t)
   | (Panic p, t) \<Rightarrow> Some (Panic p, t))"

definition shutdown_limit :: Duration where
  "shutdown_limit = from_secs 5"

definition close :: "('j, 'w) platform \<Rightarrow> ('j, 'w) TokioScheduler \<Rightarrow> ((unit, error) outcome \<times> ('j, 'w) TokioScheduler) option" where
  "close P s = (case run P s of
     None \<Rightarrow> None
   | Some (Ok u, t) \<Rightarrow> (case runtime t of
       Some rt \<Rightarrow> Some (Ok (), rt_shutdown P rt shutdown_limit (t\<lparr>runtime := None\<rparr>))
     | None \<Rightarrow> Some (Ok (), t))
   | Some (Err e, t) \<Rightarrow> Some (Err e, t)
   | Some (Panic p, t) \<Rightarrow> Some (Panic p, t))"

section \<open>Interrupts\<close>

definition raised :: "'s ruby_vm \<Rightarrow> (Value, error) outcome \<Rightarrow> 's \<Rightarrow> bool" where
  "raised R r t \<longleftrightarrow>
     (\<exists>u. (\<exists>e. r = Err e \<and> rb_thread_check_ints R u = (Err e, t)) \<or>
          (\<exists>p. r = Panic p \<and> rb_thread_check_ints R u = (Panic p, t)))"

lemma check_interrupts_raised:
  assumes ret: "check_interrupts R T s = Some (r, t)"
  shows "raised R r t"
proof -
  have "case rt of (r, t) \<Rightarrow> raised R r t" if "check_interrupts R T s = Some rt" for rt
  proof (rule check_interrupts.raw_induct [where P = "\<lambda>R T s rt. case rt of (r, t) \<Rightarrow> raised R r t", OF _ that])
    fix f R T s rt
    assume IH: "\<And>R T s rt. f R T s = Some rt \<Longrightarrow> case rt of (r, t) \<Rightarrow> raised R r t"
      and eq: "(case rb_thread_check_ints R (tk_tick T s) of
         (Ok u, t) \<Rightarrow> f R T t | (Err e, t) \<Rightarrow> Some (Err e, t) | (Panic p, t) \<Rightarrow> Some (Panic p, t)) = Some rt"
    obtain o' u where c: "rb_thread_check_ints R (tk_tick T s) = (o', u)" by fastforce
    show "case rt of (r, t) \<Rightarrow> raised R r t"
      using eq c IH by (cases o') (auto simp: raised_def)
  qed
  from this [OF ret] show ?thesis by simp
qed

section \<open>Borrowing in the loop\<close>

lemma put_futures_fields [simp]:
  "root_fiber (put_futures c s) = root_fiber s" "futures_to_run (put_futures c s) = c"
  "runtime (put_futures c s) = runtime s" "blockers (put_futures c s) = blockers s"
  "world (put_futures c s) = world s"
  by (simp_all add: put_futures_def)

definition awaiting :: "('j, 'w) TokioScheduler \<Rightarrow> ('j, 'w) TokioScheduler" where
  "awaiting s = put_futures ((futures_to_run s)\<lparr>write_count := 1\<rparr>) s"

lemma borrowed_awaiting [simp]: "borrowed (futures_to_run (awaiting s))"
  by (simp add: awaiting_def borrowed_def)

text \<open>The guard of the loop is what refuses everybody else: no statement borrows the set beside it.\<close>

lemma awaiting_refuses:
  assumes "idle (futures_to_run s)"
  shows "\<exists>e. on_futures m (awaiting s) = (Err e, awaiting s)"
proof -
  have "try_borrow_mut (futures_to_run s) = (Ok GcRefMut, futures_to_run (awaiting s))"
    using assms by (simp add: try_borrow_mut_idle awaiting_def)
  from cell_access.statement_reentrant [OF assms this, of m] obtain e
    where "with_borrow_mut m (futures_to_run (awaiting s)) = (Err e, futures_to_run (awaiting s))"
    unfolding with_borrow_mut_def by blast
  then show ?thesis by (auto simp: on_futures_def on_part_simp)
qed

lemma run_iteration_idle:
  assumes "idle (futures_to_run s)"
  shows "run_iteration P s = (case rt_select P (check_interrupts (vm P) (clock P)) (awaiting s) of
         (Joined task, s2) \<Rightarrow> handle_task P task (release_futures GcRefMut s2)
       | (Interrupted e, s2) \<Rightarrow> (Return (Err e), release_futures GcRefMut (abort_all P s2))
       | (Unwound p, s2) \<Rightarrow> (Return (Panic p), release_futures GcRefMut s2))"
  using assms by (simp add: run_iteration_def on_part_def try_borrow_mut_idle awaiting_def)

lemma run_iteration_borrowed:
  assumes "borrowed (futures_to_run s)"
  shows "run_iteration P s = (Return (Err (new_error ''already borrowed'')), s)"
  using assms by (simp add: run_iteration_def on_part_def try_borrow_mut_borrowed put_futures_def)

text \<open>
  What the loop relies on. Tokio's select leaves the guard of the loop alone: nothing that is
  polled meanwhile can drop it. A switch to a fiber comes back with the task set free, as it
  was given: the fiber's own hooks drop their guards before they switch.
\<close>

definition select_keeps_guard :: "('j, 'w) platform \<Rightarrow> bool" where
  "select_keeps_guard P \<longleftrightarrow> (\<forall>ci s.
     read_count (futures_to_run (snd (rt_select P ci s))) = read_count (futures_to_run s) \<and>
     write_count (futures_to_run (snd (rt_select P ci s))) = write_count (futures_to_run s))"

definition switch_keeps_idle :: "('j, 'w) platform \<Rightarrow> bool" where
  "switch_keeps_idle P \<longleftrightarrow> (\<forall>f args s. idle (futures_to_run s) \<longrightarrow>
     idle (futures_to_run (snd (rb_fiber_transfer (vm P) f args s))) \<and>
     idle (futures_to_run (snd (rb_fiber_raise (vm P) f args s))))"

lemma idle_release_awaiting:
  assumes "select_keeps_guard P" and "idle (futures_to_run s)"
    and "rt_select P ci (awaiting s) = (sel, s2)"
  shows "idle (futures_to_run (release_futures GcRefMut s2))"
    "idle (futures_to_run (release_futures GcRefMut (abort_all P s2)))"
proof -
  have "read_count (futures_to_run s2) = 0 \<and> write_count (futures_to_run s2) = 1"
    using assms(1) [unfolded select_keeps_guard_def, rule_format, of ci "awaiting s"] assms(2,3)
    by (simp add: awaiting_def idle_def)
  then show "idle (futures_to_run (release_futures GcRefMut s2))"
    "idle (futures_to_run (release_futures GcRefMut (abort_all P s2)))"
    by (simp_all add: release_futures_def abort_all_def drop_ref_mut_def idle_def)
qed

lemma raise_error_idle:
  assumes "switch_keeps_idle P" and "idle (futures_to_run s)"
  shows "idle (futures_to_run (snd (raise_error (vm P) f e s)))"
  using assms by (cases e) (auto simp: switch_keeps_idle_def effect_defs)

lemma resume_if_alive_idle:
  assumes "switch_keeps_idle P" and "idle (futures_to_run s)"
  shows "idle (futures_to_run (snd (resume_if_alive (vm P) rf s)))"
proof -
  have t: "idle (futures_to_run u)" if "rb_fiber_transfer (vm P) f args s = (r, u)" for f args r u
    using assms that by (metis snd_conv switch_keeps_idle_def)
  have r: "idle (futures_to_run u)" if "raise_error (vm P) f e s = (r, u)" for f e r u
    using raise_error_idle [OF assms] that by (metis snd_conv)
  show ?thesis using assms(2)
    by (auto simp: resume_if_alive_def check_suspended_def transfer_def effect_defs
        split: sum.splits prod.splits outcome.splits dest: t r)
qed

lemma handle_task_idle:
  assumes "switch_keeps_idle P" and "idle (futures_to_run s)"
  shows "idle (futures_to_run (snd (handle_task P task s)))"
  using resume_if_alive_idle [OF assms] assms(2)
  by (auto simp: handle_task_def split: option.splits sum.splits prod.splits outcome.splits)
    (metis snd_conv)+

lemma run_iteration_keeps_idle:
  assumes "select_keeps_guard P" and "switch_keeps_idle P" and "idle (futures_to_run s)"
    and "run_iteration P s = (c, t)"
  shows "idle (futures_to_run t)"
proof -
  obtain sel s2 where sel: "rt_select P (check_interrupts (vm P) (clock P)) (awaiting s) = (sel, s2)"
    by fastforce
  note released = idle_release_awaiting [OF assms(1,3) sel]
  show ?thesis
  proof (cases sel)
    case (Joined task)
    with assms(4) sel have "handle_task P task (release_futures GcRefMut s2) = (c, t)"
      by (simp add: run_iteration_idle [OF assms(3)])
    with handle_task_idle [OF assms(2) released(1)] show ?thesis by (metis snd_conv)
  next
    case (Interrupted e)
    with assms(4) sel released(2) show ?thesis
      by (auto simp: run_iteration_idle [OF assms(3)])
  next
    case (Unwound p)
    with assms(4) sel released(1) show ?thesis
      by (auto simp: run_iteration_idle [OF assms(3)])
  qed
qed

text \<open>A fact about every state a run of the loop returns in, from one turn of it.\<close>

lemma run_loop_invariant:
  assumes turn: "\<And>s c t. J s \<Longrightarrow> run_iteration P s = (c, t) \<Longrightarrow> J t"
    and final: "\<And>s r t. J s \<Longrightarrow> run_iteration P s = (Return r, t) \<Longrightarrow> Q r t"
    and start: "J s" and ret: "run_loop P s = Some (r, t)"
  shows "Q r t"
proof -
  have "P' = P \<longrightarrow> J s \<longrightarrow> (case rt of (r, t) \<Rightarrow> Q r t)"
    if "run_loop P' s = Some rt" for P' s rt
  proof (rule run_loop.raw_induct
      [where P = "\<lambda>P' s rt. P' = P \<longrightarrow> J s \<longrightarrow> (case rt of (r, t) \<Rightarrow> Q r t)", OF _ that])
    fix f P' s rt
    assume IH: "\<And>P' s rt. f P' s = Some rt \<Longrightarrow> P' = P \<longrightarrow> J s \<longrightarrow> (case rt of (r, t) \<Rightarrow> Q r t)"
      and eq: "(case run_iteration P' s of (Continue, t) \<Rightarrow> f P' t | (Return r, t) \<Rightarrow> Some (r, t)) = Some rt"
    obtain c u where c: "run_iteration P' s = (c, u)" by fastforce
    show "P' = P \<longrightarrow> J s \<longrightarrow> (case rt of (r, t) \<Rightarrow> Q r t)"
    proof (cases c)
      case Continue
      with eq c IH [of P' u rt] turn [of s c u] show ?thesis by auto
    next
      case (Return r)
      with eq c final [of s r u] show ?thesis by auto
    qed
  qed
  from this [OF ret] start show ?thesis by simp
qed

text \<open>The sample platform keeps these laws.\<close>

lemma sample_select_keeps_guard: "select_keeps_guard sample_platform"
  by (auto simp: select_keeps_guard_def sample_select_def split: list.splits)

lemma sample_switch_keeps_idle: "switch_keeps_idle sample_platform"
  by (simp add: switch_keeps_idle_def sample_switch_def on_world_def)

lemma awaiting_value [simp]:
  "cell_value (futures_to_run (awaiting s)) = cell_value (futures_to_run s)"
  by (simp add: awaiting_def)

lemma release_awaiting [simp]:
  "idle (futures_to_run s) \<Longrightarrow> release_futures GcRefMut (awaiting s) = s"
  by (simp add: release_futures_def awaiting_def put_futures_def drop_ref_mut_def idle_def)

lemma sample_run_iteration:
  "run_iteration sample_platform sample_start = (Return (Ok ()), sample_start)"
  by (simp add: run_iteration_idle sample_select_def handle_task_def)

lemma sample_run_loop: "run_loop sample_platform sample_start = Some (Ok (), sample_start)"
  by (simp add: run_loop.simps sample_run_iteration)

text \<open>
  C8. The loop holds the task set only while it awaits. Whenever it resumes a fiber the set is
  free, so a hook that fiber calls can add its task, and when the loop returns, however it
  returns, the set is free as well.
\<close>

theorem run_borrow_discipline:
  assumes "select_keeps_guard P" and "switch_keeps_idle P" and "idle (futures_to_run s)"
  shows "(\<forall>ci sel s2 future. rt_select P ci (awaiting s) = (sel, s2) \<longrightarrow>
            (\<exists>h. fst (spawn P future (release_futures GcRefMut s2)) = Ok h)) \<and>
         (\<forall>r t. run_loop P s = Some (r, t) \<longrightarrow> idle (futures_to_run t))"
proof (intro conjI allI impI)
  fix ci sel s2 future
  assume "rt_select P ci (awaiting s) = (sel, s2)"
  from idle_release_awaiting(1) [OF assms(1,3) this]
  show "\<exists>h. fst (spawn P future (release_futures GcRefMut s2)) = Ok h"
    by (simp add: spawn_idle)
next
  fix r t
  assume ret: "run_loop P s = Some (r, t)"
  show "idle (futures_to_run t)"
  proof (rule run_loop_invariant
      [where J = "\<lambda>s. idle (futures_to_run s)" and Q = "\<lambda>r t. idle (futures_to_run t)", OF _ _ assms(3) ret])
  qed (use run_iteration_keeps_idle [OF assms(1,2)] in blast)+
qed

theorem run_borrow_discipline_witness:
  "(\<exists>h. fst (spawn sample_platform (ReadyFuture VNil) sample_start) = Ok h) \<and>
   (\<exists>t. run_loop sample_platform sample_start = Some (Ok (), t) \<and> idle (futures_to_run t))"
proof -
  have sel: "rt_select sample_platform ci (awaiting sample_start) = (Joined None, awaiting sample_start)" for ci
    by (simp add: sample_select_def)
  note run_borrow_discipline [OF sample_select_keeps_guard sample_switch_keeps_idle, of sample_start]
  from this sel show ?thesis using sample_run_loop by fastforce
qed

section \<open>What a turn of the loop does\<close>

definition switchable :: "'s ruby_vm \<Rightarrow> 64 word \<Rightarrow> 's \<Rightarrow> bool" where
  "switchable R f s \<longleftrightarrow> rb_fiber_alive_p R f s \<and> rb_fiber_current R s \<noteq> f"

lemma resume_dead [effect_simps]:
  "\<not> rb_fiber_alive_p R (as_raw (rf_fiber rf)) s \<Longrightarrow> resume_if_alive R rf s = (Ok None, s)"
  by (simp add: resume_if_alive_def is_alive_def)

lemma resume_value [effect_simps]:
  "switchable R (as_raw (rf_fiber rf)) s \<Longrightarrow> rf_value rf = Inr v \<Longrightarrow>
   resume_if_alive R rf s =
     (case rb_fiber_transfer R (as_raw (rf_fiber rf)) [v] s of
        (Ok w, t) \<Rightarrow> (Ok (Some w), t) | (Err e, t) \<Rightarrow> (Err e, t) | (Panic p, t) \<Rightarrow> (Panic p, t))"
  by (simp add: resume_if_alive_def is_alive_def switchable_def check_suspended_Ok try_then_Ok
      transfer_def effect_defs split: prod.splits outcome.splits)

lemma resume_error [effect_simps]:
  "switchable R (as_raw (rf_fiber rf)) s \<Longrightarrow> rf_value rf = Inl e \<Longrightarrow>
   resume_if_alive R rf s =
     (case raise_error R (as_suspended (rf_fiber rf)) e s of
        (Ok w, t) \<Rightarrow> (Ok (Some w), t) | (Err e, t) \<Rightarrow> (Err e, t) | (Panic p, t) \<Rightarrow> (Panic p, t))"
  by (simp add: resume_if_alive_def is_alive_def switchable_def check_suspended_Ok try_then_Ok
      effect_defs split: prod.splits outcome.splits)

text \<open>
  C12. A finished future wakes its fiber exactly when the fiber is alive: the fiber is switched
  to once, with the value of the future as the single argument, or with its error raised in
  it. A dead fiber is skipped and the state is left as it is; a fiber that is itself running
  (a hook called from the root fiber) is refused with an error.
\<close>

theorem resume_outcomes:
  "(\<not> rb_fiber_alive_p R (as_raw f) s \<longrightarrow>
      resume_if_alive R \<lparr>rf_fiber = f, rf_value = r\<rparr> s = (Ok None, s)) \<and>
   (rb_fiber_alive_p R (as_raw f) s \<and> rb_fiber_current R s = as_raw f \<longrightarrow>
      resume_if_alive R \<lparr>rf_fiber = f, rf_value = r\<rparr> s = (Err (Error RuntimeError ''fiber active''), s)) \<and>
   (switchable R (as_raw f) s \<longrightarrow>
      resume_if_alive R \<lparr>rf_fiber = f, rf_value = r\<rparr> s =
        (case (case r of Inr v \<Rightarrow> rb_fiber_transfer R (as_raw f) [v]
               | Inl (Error c m) \<Rightarrow> rb_fiber_raise R (as_raw f) [rb_class_value R c, VStr m]
               | Inl (Exception x) \<Rightarrow> rb_fiber_raise R (as_raw f) [x]
               | Inl (Jump j) \<Rightarrow> fail (Jump j)) s of
           (Ok w, t) \<Rightarrow> (Ok (Some w), t) | (Err e, t) \<Rightarrow> (Err e, t) | (Panic p, t) \<Rightarrow> (Panic p, t)))"
proof (intro conjI impI)
  assume "rb_fiber_alive_p R (as_raw f) s \<and> rb_fiber_current R s = as_raw f"
  then show "resume_if_alive R \<lparr>rf_fiber = f, rf_value = r\<rparr> s = (Err (Error RuntimeError ''fiber active''), s)"
    by (cases r) (simp_all add: resume_if_alive_def is_alive_def check_suspended_active try_then_Err)
next
  assume "switchable R (as_raw f) s"
  then show "resume_if_alive R \<lparr>rf_fiber = f, rf_value = r\<rparr> s =
        (case (case r of Inr v \<Rightarrow> rb_fiber_transfer R (as_raw f) [v]
               | Inl (Error c m) \<Rightarrow> rb_fiber_raise R (as_raw f) [rb_class_value R c, VStr m]
               | Inl (Exception x) \<Rightarrow> rb_fiber_raise R (as_raw f) [x]
               | Inl (Jump j) \<Rightarrow> fail (Jump j)) s of
           (Ok w, t) \<Rightarrow> (Ok (Some w), t) | (Err e, t) \<Rightarrow> (Err e, t) | (Panic p, t) \<Rightarrow> (Panic p, t))"
    by (cases r rule: sum.exhaust; cases "projl r") (auto simp: resume_value resume_error)
qed (simp add: resume_dead)

theorem resume_outcomes_witness:
  "resume_if_alive sample_vm \<lparr>rf_fiber = Fiber 16, rf_value = Inr VNil\<rparr> sample_start =
     (Ok (Some VNil), on_world (\<lambda>w. w\<lparr>sw_log := [(16, [VNil])]\<rparr>) sample_start) \<and>
   resume_if_alive sample_vm \<lparr>rf_fiber = Fiber 32, rf_value = Inr VNil\<rparr> sample_start =
     (Err (Error RuntimeError ''fiber active''), sample_start)"
  using resume_outcomes [of sample_vm "Fiber 16" sample_start "Inr VNil"]
    resume_outcomes [of sample_vm "Fiber 32" sample_start "Inr VNil"]
  by (simp add: switchable_def sample_switch_def on_world_def sample_start_def)

lemma run_iteration_drained:
  "idle (futures_to_run s) \<Longrightarrow>
   rt_select P (check_interrupts (vm P) (clock P)) (awaiting s) = (Joined None, s2) \<Longrightarrow>
   run_iteration P s = (Return (Ok ()), release_futures GcRefMut s2)"
  by (simp add: run_iteration_idle handle_task_def)

lemma run_iteration_join_error:
  "idle (futures_to_run s) \<Longrightarrow>
   rt_select P (check_interrupts (vm P) (clock P)) (awaiting s) = (Joined (Some (Inl je)), s2) \<Longrightarrow>
   run_iteration P s = (Continue, release_futures GcRefMut s2)"
  by (simp add: run_iteration_idle handle_task_def)

lemma run_iteration_task:
  "idle (futures_to_run s) \<Longrightarrow>
   rt_select P (check_interrupts (vm P) (clock P)) (awaiting s) = (Joined (Some (Inr rf)), s2) \<Longrightarrow>
   run_iteration P s = (case resume_if_alive (vm P) rf (release_futures GcRefMut s2) of
       (Ok v, t) \<Rightarrow> (Continue, t)
     | (Err e, t) \<Rightarrow> (Return (Err e), t)
     | (Panic p, t) \<Rightarrow> (Return (Panic p), t))"
  by (simp add: run_iteration_idle handle_task_def)

lemma run_iteration_interrupted:
  "idle (futures_to_run s) \<Longrightarrow>
   rt_select P (check_interrupts (vm P) (clock P)) (awaiting s) = (Interrupted e, s2) \<Longrightarrow>
   run_iteration P s = (Return (Err e), release_futures GcRefMut (abort_all P s2))"
  by (simp add: run_iteration_idle)

text \<open>
  A turn of the loop from a free task set: nothing left ends the loop in success; an
  interrupt aborts every task and ends it with the exception that the interrupt check raised;
  a task that panicked or was aborted is passed over, so the fiber that waits for it is not
  resumed by this turn; an error that comes out of a resumed fiber ends the loop.
\<close>

theorem run_iteration_outcomes:
  assumes "idle (futures_to_run s)"
    and select: "rt_select P (check_interrupts (vm P) (clock P)) (awaiting s) = (sel, s2)"
  shows "(sel = Joined None \<longrightarrow> run_iteration P s = (Return (Ok ()), release_futures GcRefMut s2)) \<and>
    (sel = Joined (Some (Inl je)) \<longrightarrow> run_iteration P s = (Continue, release_futures GcRefMut s2)) \<and>
    (sel = Interrupted e \<longrightarrow>
       run_iteration P s = (Return (Err e), release_futures GcRefMut (abort_all P s2)) \<and>
       cell_value (futures_to_run (snd (run_iteration P s))) =
         js_abort_all (tasks P) (cell_value (futures_to_run s2))) \<and>
    (sel = Unwound q \<longrightarrow> run_iteration P s = (Return (Panic q), release_futures GcRefMut s2)) \<and>
    (sel = Joined (Some (Inr rf)) \<longrightarrow>
       run_iteration P s = (case resume_if_alive (vm P) rf (release_futures GcRefMut s2) of
           (Ok v, t) \<Rightarrow> (Continue, t)
         | (Err e', t) \<Rightarrow> (Return (Err e'), t)
         | (Panic p, t) \<Rightarrow> (Return (Panic p), t)))"
  using assms
  by (auto simp: run_iteration_drained run_iteration_join_error run_iteration_task
      run_iteration_interrupted run_iteration_idle)
    (simp add: release_futures_def abort_all_def drop_ref_mut_def)

theorem run_iteration_outcomes_witness:
  "run_iteration sample_platform sample_start = (Return (Ok ()), sample_start)"
proof -
  have "rt_select sample_platform (check_interrupts (vm sample_platform) (clock sample_platform))
          (awaiting sample_start) = (Joined None, awaiting sample_start)"
    by (simp add: sample_select_def)
  from run_iteration_outcomes [OF sample_start_simps(1) this] show ?thesis by simp
qed

section \<open>The end of the loop\<close>

text \<open>
  What Tokio documents of the two branches: \<open>join_next\<close> gives \<open>None\<close> only for an empty set, and
  the other branch is taken with the error that the interrupt check returned.
\<close>

definition select_laws :: "('j, 'w) platform \<Rightarrow> ('j \<Rightarrow> bool) \<Rightarrow> bool" where
  "select_laws P drained \<longleftrightarrow>
     (\<forall>ci s t. rt_select P ci s = (Joined None, t) \<longrightarrow> drained (cell_value (futures_to_run t))) \<and>
     (\<forall>ci s e t. rt_select P ci s = (Interrupted e, t) \<longrightarrow> (\<exists>u v. ci u = Some (Err e, v)))"

definition resume_raised :: "('j, 'w) platform \<Rightarrow> error \<Rightarrow> bool" where
  "resume_raised P e \<longleftrightarrow> (\<exists>rf u v. resume_if_alive (vm P) rf u = (Err e, v))"

definition interrupt_raised :: "('j, 'w) platform \<Rightarrow> error \<Rightarrow> bool" where
  "interrupt_raised P e \<longleftrightarrow> (\<exists>u v. rb_thread_check_ints (vm P) u = (Err e, v))"

lemma run_iteration_return:
  assumes laws: "select_laws P drained" and idle: "idle (futures_to_run s)"
    and turn: "run_iteration P s = (Return r, t)"
  shows "(r = Ok () \<longrightarrow> drained (cell_value (futures_to_run t))) \<and>
         (\<forall>e. r = Err e \<longrightarrow> resume_raised P e \<or> interrupt_raised P e)"
proof -
  obtain sel s2 where sel: "rt_select P (check_interrupts (vm P) (clock P)) (awaiting s) = (sel, s2)"
    by fastforce
  show ?thesis
  proof (cases sel)
    case (Interrupted e)
    with laws sel obtain u v where "check_interrupts (vm P) (clock P) u = Some (Err e, v)"
      unfolding select_laws_def by blast
    from check_interrupts_raised [OF this] have "interrupt_raised P e"
      by (auto simp: raised_def interrupt_raised_def)
    with turn run_iteration_interrupted [OF idle sel [unfolded Interrupted]] show ?thesis by auto
  next
    case (Unwound p)
    with turn sel show ?thesis by (auto simp: run_iteration_idle [OF idle])
  next
    case (Joined task)
    note sel = sel [unfolded Joined]
    consider "task = None" | je where "task = Some (Inl je)" | rf where "task = Some (Inr rf)"
      by (metis old.sum.exhaust option.exhaust)
    then show ?thesis
    proof cases
      case 1
      with laws sel have "drained (cell_value (futures_to_run s2))"
        unfolding select_laws_def by blast
      with turn run_iteration_drained [OF idle sel [unfolded 1]] show ?thesis
        by (auto simp: release_futures_def drop_ref_mut_def)
    next
      case 2
      with turn run_iteration_join_error [OF idle sel [unfolded 2]] show ?thesis by auto
    next
      case 3
      with turn run_iteration_task [OF idle sel [unfolded 3]] show ?thesis
        by (auto simp: resume_raised_def split: prod.splits outcome.splits)
    qed
  qed
qed

text \<open>
  C9. When the loop returns success no task is left in the set: every future that was spawned
  has finished. When it returns an error, the error came out of a resumed fiber or out of the
  interrupt check.
\<close>

theorem run_loop_drains:
  assumes "select_keeps_guard P" and "switch_keeps_idle P" and "select_laws P drained"
    and "idle (futures_to_run s)" and ret: "run_loop P s = Some (r, t)"
  shows "(r = Ok () \<longrightarrow> drained (cell_value (futures_to_run t))) \<and>
         (\<forall>e. r = Err e \<longrightarrow> resume_raised P e \<or> interrupt_raised P e)"
proof (rule run_loop_invariant
    [where J = "\<lambda>s. idle (futures_to_run s)" and
       Q = "\<lambda>r t. (r = Ok () \<longrightarrow> drained (cell_value (futures_to_run t))) \<and>
         (\<forall>e. r = Err e \<longrightarrow> resume_raised P e \<or> interrupt_raised P e)", OF _ _ assms(4) ret])
qed (use run_iteration_keeps_idle [OF assms(1,2)] run_iteration_return [OF assms(3)] in blast)+

theorem run_loop_drains_witness: "cell_value (futures_to_run sample_start) = []"
proof -
  have "select_laws sample_platform (\<lambda>ts. ts = [])"
    by (auto simp: select_laws_def sample_select_def split: list.splits)
  from run_loop_drains [OF sample_select_keeps_guard sample_switch_keeps_idle this _ sample_run_loop]
  show ?thesis by simp
qed

text \<open>
  A bound on what is left to do, from the task set and the world: the unfinished tasks and
  those that the fibers have still to add. A join takes one away; a fiber that is resumed may
  turn tasks to come into tasks of the set, but adds no work.
\<close>

definition work_left :: "('j \<Rightarrow> 'w \<Rightarrow> nat) \<Rightarrow> ('j, 'w) TokioScheduler \<Rightarrow> nat" where
  "work_left work s = work (cell_value (futures_to_run s)) (world s)"

definition finite_work :: "('j, 'w) platform \<Rightarrow> ('j \<Rightarrow> 'w \<Rightarrow> nat) \<Rightarrow> bool" where
  "finite_work P work \<longleftrightarrow>
     (\<forall>ci s task t. rt_select P ci s = (Joined (Some task), t) \<longrightarrow> work_left work t < work_left work s) \<and>
     (\<forall>rf s. work_left work (snd (resume_if_alive (vm P) rf s)) \<le> work_left work s)"

lemma work_left_guard [simp]:
  "work_left work (awaiting s) = work_left work s"
  "work_left work (release_futures g s) = work_left work s"
  by (simp_all add: work_left_def awaiting_def release_futures_def drop_ref_mut_def)

lemma run_iteration_continue_works:
  assumes "finite_work P work" and "idle (futures_to_run s)"
    and turn: "run_iteration P s = (Continue, t)"
  shows "work_left work t < work_left work s"
proof -
  obtain sel s2 where sel: "rt_select P (check_interrupts (vm P) (clock P)) (awaiting s) = (sel, s2)"
    by fastforce
  have out: "run_iteration P s = (case sel of
         Joined task \<Rightarrow> handle_task P task (release_futures GcRefMut s2)
       | Interrupted e \<Rightarrow> (Return (Err e), release_futures GcRefMut (abort_all P s2))
       | Unwound p \<Rightarrow> (Return (Panic p), release_futures GcRefMut s2))"
    using sel by (simp add: run_iteration_idle [OF assms(2)] split: selected.splits)
  from turn out obtain task where task: "sel = Joined (Some task)"
    and h: "handle_task P (Some task) (release_futures GcRefMut s2) = (Continue, t)"
    by (auto simp: handle_task_def split: selected.splits option.splits)
  from assms(1) sel task have "work_left work s2 < work_left work s"
    unfolding finite_work_def by (metis work_left_guard(1))
  moreover have "work_left work t \<le> work_left work s2"
  proof (cases task)
    case (Inl je)
    with h show ?thesis by (auto simp: handle_task_def)
  next
    case (Inr rf)
    with h have "t = snd (resume_if_alive (vm P) rf (release_futures GcRefMut s2))"
      by (auto simp: handle_task_def split: prod.splits outcome.splits)
    with assms(1) show ?thesis unfolding finite_work_def by (metis work_left_guard(2))
  qed
  ultimately show ?thesis by simp
qed

text \<open>
  C10. The loop returns, whatever the order in which tasks finish, when there is a bound on the
  work left: it does not spin on tasks that failed and it resumes each finished task at most
  once.
\<close>

theorem run_loop_terminates:
  assumes "select_keeps_guard P" and "switch_keeps_idle P" and work: "finite_work P work"
    and "idle (futures_to_run s)"
  shows "\<exists>r t. run_loop P s = Some (r, t)"
  using assms(4)
proof (induction "work_left work s" arbitrary: s rule: less_induct)
  case less
  obtain c u where turn: "run_iteration P s = (c, u)" by fastforce
  show ?case
  proof (cases c)
    case Continue
    have "idle (futures_to_run u)"
      by (rule run_iteration_keeps_idle [OF assms(1,2) less.prems turn])
    moreover have "work_left work u < work_left work s"
      using run_iteration_continue_works [OF work less.prems] turn Continue by simp
    ultimately have "\<exists>r t. run_loop P u = Some (r, t)" by (rule less.hyps [rotated])
    then show ?thesis using turn Continue by (simp add: run_loop.simps [of P s])
  next
    case (Return r)
    then show ?thesis using turn by (simp add: run_loop.simps [of P s])
  qed
qed

theorem run_loop_terminates_witness:
  "\<exists>r t. run_loop sample_platform (with_task sample_platform (ReadyFuture VNil) sample_start) = Some (r, t)"
proof -
  have raise: "cell_value (futures_to_run (snd (raise_error sample_vm f e s))) = cell_value (futures_to_run s)"
    for f e s by (cases e) (simp_all add: sample_switch_def on_world_def fail_def)
  have "cell_value (futures_to_run (snd (resume_if_alive sample_vm rf s))) = cell_value (futures_to_run s)"
    for rf s
    by (auto simp: resume_if_alive_def is_alive_def effect_defs check_suspended_def transfer_def sample_switch_def
        on_world_def split: sum.splits prod.splits outcome.splits) (metis raise snd_conv)+
  then have "finite_work sample_platform (\<lambda>ts w. length ts)"
    by (auto simp: finite_work_def work_left_def sample_select_def split: list.splits)
  then show ?thesis
    by (rule run_loop_terminates [OF sample_select_keeps_guard sample_switch_keeps_idle])
      (simp add: sample_start_def new_cell_def idle_def)
qed

section \<open>Hooks called while the loop awaits\<close>

text \<open>
  A turn of the loop awaits in the state \<open>awaiting s\<close>, in which its guard on the task set is
  alive, and there the runtime polls the tasks. Code that runs inside such a poll and calls a blocking hook is refused: whatever
  future it brings, the hook answers with the error of the cell and adds nothing. (The future
  of \<open>timeout_after\<close> is such code: it raises in the fiber from inside its own poll.)
\<close>

theorem hooks_refused_while_loop_awaits:
  assumes "idle (futures_to_run s)"
    and polled: "write_count (futures_to_run u) = write_count (futures_to_run (awaiting s))"
  shows "run_iteration P s = (case rt_select P (check_interrupts (vm P) (clock P)) (awaiting s) of
         (Joined task, s2) \<Rightarrow> handle_task P task (release_futures GcRefMut s2)
       | (Interrupted e, s2) \<Rightarrow> (Return (Err e), release_futures GcRefMut (abort_all P s2))
       | (Unwound p, s2) \<Rightarrow> (Return (Panic p), release_futures GcRefMut s2)) \<and>
    spawn_and_transfer P future u =
      (Err (Error PoisonedCellError ''already borrowed''), drop_future (channels P) (rt_drop_set P) future u) \<and>
    (\<forall>d i. instant_add (tk_now (clock P) u) (into_std d) = Ok i \<longrightarrow>
       kernel_sleep P d u = (Err (Error PoisonedCellError ''already borrowed''), u)) \<and>
    run_iteration P u = (Return (Err (Error PoisonedCellError ''already borrowed'')), u)"
proof -
  have b: "borrowed (futures_to_run u)"
    using polled by (simp add: borrowed_def awaiting_def)
  show ?thesis
    using b run_iteration_idle [OF assms(1), of P]
    by (auto simp: spawn_and_transfer_borrowed run_iteration_borrowed new_error_def kernel_sleep_def)
qed

theorem hooks_refused_while_loop_awaits_witness:
  "spawn_and_transfer sample_platform (ReadyFuture VNil) (awaiting sample_start) =
     (Err (Error PoisonedCellError ''already borrowed''), awaiting sample_start)"
  using hooks_refused_while_loop_awaits [OF sample_start_simps(1) refl,
      of sample_platform "ReadyFuture VNil"] by simp

section \<open>Closing\<close>

lemma release_runtime [simp]:
  "runtime (release_futures g s) = runtime s" "runtime (abort_all P s) = runtime s"
  by (simp_all add: release_futures_def abort_all_def)



end
