(* ===== verification/BlockUnblock.thy ===== *)
theory BlockUnblock
  imports Timeouts
begin

text \<open>
  \<open>block_unblock.rs\<close>: a fiber that blocks leaves the sending end of a one-shot channel in the
  table of blocked fibers, under its own handle, and waits for the receiving end; \<open>unblock\<close>
  takes the sender out and sends \<open>true\<close>.
\<close>

section \<open>The table of blocked fibers\<close>

definition on_blockers :: "(blocker_map, 'a, error) action \<Rightarrow> (('j, 'w) TokioScheduler, 'a, error) action" where
  "on_blockers m = on_part blockers (\<lambda>c s. s\<lparr>blockers := c\<rparr>) (with_borrow_mut m)"

definition blockers_insert :: "Suspended Fiber \<Rightarrow> channel \<Rightarrow> (blocker_map, channel option, error) action" where
  "blockers_insert fiber tx m = (Ok (m fiber), m(fiber \<mapsto> tx))"

definition blockers_remove :: "Suspended Fiber \<Rightarrow> (blocker_map, channel option, error) action" where
  "blockers_remove fiber m = (Ok (m fiber), m(fiber := None))"

definition drop_sender :: "('j, 'w) platform \<Rightarrow> channel option \<Rightarrow> ('j, 'w) TokioScheduler \<Rightarrow> ('j, 'w) TokioScheduler" where
  "drop_sender P tx s = (case tx of None \<Rightarrow> s | Some ch \<Rightarrow> os_drop_tx (channels P) ch s)"

section \<open>The methods\<close>

definition block :: "('j, 'w) platform \<Rightarrow> Value \<Rightarrow> TimeoutDuration option \<Rightarrow> (('j, 'w) TokioScheduler, Value, error) action" where
  "block P blocker timeout s =
     (case os_channel (channels P) s of (ch, s1) \<Rightarrow>
      (let fiber = as_suspended (current (vm P) s1) in
       case on_blockers (blockers_insert fiber ch) s1 of
         (Ok old, s2) \<Rightarrow> spawn_and_transfer P (BlockFuture ch timeout) (drop_sender P old s2)
       | (Err e, s2) \<Rightarrow> (Err e, os_drop_tx (channels P) ch (os_drop_rx (channels P) ch s2))
       | (Panic p, s2) \<Rightarrow> (Panic p, s2)))"

definition recv_error :: "string \<Rightarrow> error" where
  "recv_error e = new_base_error (''Could not unblock fiber: '' @ e)"

definition send_error :: "string \<Rightarrow> error" where
  "send_error e = new_base_error (''could not unblock fiber: '' @ e)"

definition block_future :: "('j, 'w) platform \<Rightarrow> channel \<Rightarrow> TimeoutDuration option \<Rightarrow> (('j, 'w) TokioScheduler, Value, error) action" where
  "block_future P ch timeout s =
     (case with_timeout (clock P) ''unblocking fiber'' timeout (map_err recv_error (os_recv (channels P) ch)) s of
        (Panic p, s1) \<Rightarrow> (Panic p, s1)
      | (result, s1) \<Rightarrow>
          (let fiber = as_suspended (current (vm P) s1) in
           case on_blockers (blockers_remove fiber) s1 of
             (Ok old, s2) \<Rightarrow> (result, drop_sender P old s2)
           | (Err e, s2) \<Rightarrow> (Err e, s2)
           | (Panic p, s2) \<Rightarrow> (Panic p, s2)))"

definition unblock :: "('j, 'w) platform \<Rightarrow> Value \<Rightarrow> Value \<Rightarrow> (('j, 'w) TokioScheduler, unit, error) action" where
  "unblock P blocker fiber_to_wake =
     try_then (from_value (vm P) fiber_to_wake) (\<lambda>unknown.
     try_then (check_suspended (vm P) unknown) (\<lambda>fiber.
     try_then (on_blockers (blockers_remove fiber)) (\<lambda>removed.
     case removed of
       Some tx \<Rightarrow> map_err send_error (os_send (channels P) tx (VBool True))
     | None \<Rightarrow> ret ())))"

section \<open>The table as an interface\<close>

interpretation blocker_table: keyed_table blockers_insert blockers_remove "\<lambda>m f. m f"
  by unfold_locales (auto simp: blockers_insert_def blockers_remove_def)

lemma on_blockers_idle [effect_simps]:
  "idle (blockers s) \<Longrightarrow> on_blockers m s =
     (fst (m (cell_value (blockers s))),
      s\<lparr>blockers := (blockers s)\<lparr>cell_value := snd (m (cell_value (blockers s)))\<rparr>\<rparr>)"
  by (simp add: on_blockers_def on_part_def with_borrow_mut_idle)

lemma on_blockers_borrowed [effect_simps]:
  "borrowed (blockers s) \<Longrightarrow> on_blockers m s = (Err (new_error ''already borrowed''), s)"
  by (simp add: on_blockers_def on_part_def with_borrow_mut_borrowed)

section \<open>What the channel promises\<close>

text \<open>
  What Tokio documents of a one-shot channel: a new channel is empty; a send puts its value into
  an empty channel and fails when the receiver is gone; a receive gives the value that was sent.
  None of them touches the scheduler object.
\<close>

definition same_scheduler :: "('j, 'w) TokioScheduler \<Rightarrow> ('j, 'w) TokioScheduler \<Rightarrow> bool" where
  "same_scheduler s t \<longleftrightarrow> root_fiber t = root_fiber s \<and> futures_to_run t = futures_to_run s \<and>
     runtime t = runtime s \<and> blockers t = blockers s"

definition oneshot_laws ::
  "('j, 'w) TokioScheduler oneshot \<Rightarrow> ('w \<Rightarrow> channel \<Rightarrow> channel_state) \<Rightarrow> bool" where
  "oneshot_laws C view \<longleftrightarrow>
     (\<forall>s. same_scheduler s (snd (os_channel C s)) \<and>
        view (world (snd (os_channel C s))) = (view (world s))(fst (os_channel C s) := Empty)) \<and>
     (\<forall>ch v s. same_scheduler s (snd (os_send C ch v s)) \<and>
        (view (world s) ch = Empty \<longrightarrow> fst (os_send C ch v s) = Ok () \<and>
           view (world (snd (os_send C ch v s))) = (view (world s))(ch := Sent v)) \<and>
        (view (world s) ch = ReceiverGone \<longrightarrow> (\<exists>e. fst (os_send C ch v s) = Err e))) \<and>
     (\<forall>ch v s. view (world s) ch = Sent v \<longrightarrow>
        fst (os_recv C ch s) = Ok v \<and> same_scheduler s (snd (os_recv C ch s))) \<and>
     (\<forall>ch s. same_scheduler s (os_drop_tx C ch s) \<and> same_scheduler s (os_drop_rx C ch s) \<and>
        view (world (os_drop_rx C ch s)) ch = ReceiverGone)"

lemma send_delivers:
  "oneshot_laws C view \<Longrightarrow> view (world s) ch = Empty \<Longrightarrow>
   \<exists>t. os_send C ch v s = (Ok (), t) \<and> same_scheduler s t \<and> view (world t) = (view (world s))(ch := Sent v)"
  unfolding oneshot_laws_def by (metis prod.collapse)

lemma send_fails:
  "oneshot_laws C view \<Longrightarrow> view (world s) ch = ReceiverGone \<Longrightarrow>
   \<exists>e t. os_send C ch v s = (Err e, t) \<and> same_scheduler s t"
  unfolding oneshot_laws_def by (metis prod.collapse)

lemma recv_delivers:
  "oneshot_laws C view \<Longrightarrow> view (world s) ch = Sent v \<Longrightarrow>
   \<exists>t. os_recv C ch s = (Ok v, t) \<and> same_scheduler s t"
  unfolding oneshot_laws_def by (metis prod.collapse)

section \<open>The entry of a fiber\<close>

definition blocked_on :: "('j, 'w) TokioScheduler \<Rightarrow> Suspended Fiber \<rightharpoonup> channel" where
  "blocked_on s = cell_value (blockers s)"

definition set_blocked :: "blocker_map \<Rightarrow> ('j, 'w) TokioScheduler \<Rightarrow> ('j, 'w) TokioScheduler" where
  "set_blocked m s = s\<lparr>blockers := (blockers s)\<lparr>cell_value := m\<rparr>\<rparr>"

lemma set_blocked_fields [simp]:
  "blocked_on (set_blocked m s) = m" "idle (blockers (set_blocked m s)) = idle (blockers s)"
  "futures_to_run (set_blocked m s) = futures_to_run s" "world (set_blocked m s) = world s"
  "root_fiber (set_blocked m s) = root_fiber s" "runtime (set_blocked m s) = runtime s"
  by (simp_all add: set_blocked_def blocked_on_def)

lemma insert_entry_idle [effect_simps]:
  "idle (blockers s) \<Longrightarrow> on_blockers (blockers_insert f ch) s =
     (Ok (blocked_on s f), set_blocked ((blocked_on s)(f \<mapsto> ch)) s)"
  using blocker_table.insert_returns [of f ch "blocked_on s"] blocker_table.insert_finds [of f ch "blocked_on s"]
  by (simp add: on_blockers_idle blocked_on_def set_blocked_def)

lemma remove_entry_idle [effect_simps]:
  "idle (blockers s) \<Longrightarrow> on_blockers (blockers_remove f) s =
     (Ok (blocked_on s f), set_blocked ((blocked_on s)(f := None)) s)"
  using blocker_table.remove_returns [of f "blocked_on s"] blocker_table.remove_finds [of f "blocked_on s"]
  by (simp add: on_blockers_idle blocked_on_def set_blocked_def)

lemma unblock_switchable [effect_simps]:
  assumes "idle (blockers s)" and "rb_obj_is_fiber (vm P) r s" and "rb_fiber_alive_p (vm P) r s"
    and "rb_fiber_current (vm P) s \<noteq> r"
  shows "unblock P b (VRef r) s =
    (case blocked_on s (Fiber r) of
       Some ch \<Rightarrow> map_err send_error (os_send (channels P) ch (VBool True))
                    (set_blocked ((blocked_on s)(Fiber r := None)) s)
     | None \<Rightarrow> (Ok (), s))"
proof -
  have "from_value (vm P) (VRef r) s = (Ok (Fiber r), s)"
    using assms(2) by (simp add: from_value_def)
  moreover have "check_suspended (vm P) (Fiber r) s = (Ok (Fiber r), s)"
    using assms(3,4) by (simp add: check_suspended_Ok as_suspended_def)
  moreover have "set_blocked (blocked_on s) s = s"
    by (simp add: set_blocked_def blocked_on_def)
  ultimately show ?thesis
    using assms(1)
    by (auto simp: unblock_def try_then_Ok remove_entry_idle ret_def fun_upd_idem split: option.splits)
qed

text \<open>
  \<open>unblock\<close> on every branch, with the table free: a value that is not a fiber is a
  \<open>TypeError\<close>; a dead fiber and the running one are refused; a fiber that is not in the table
  is success without any effect; a blocked fiber leaves the table and its channel is sent
  \<open>true\<close>, and when the send fails the entry is gone all the same.
\<close>

theorem unblock_outcomes:
  assumes "idle (blockers s)"
  shows "unblock P b v s =
    (let refused = (Err (Error TypeError (''no implicit conversion of '' @ rb_classname (vm P) v s @
                     '' into Fiber'')), s) in
     case v of
       VRef r \<Rightarrow>
         if \<not> rb_obj_is_fiber (vm P) r s then refused
         else if \<not> rb_fiber_alive_p (vm P) r s then (Err (Error RuntimeError ''fiber not alive''), s)
         else if rb_fiber_current (vm P) s = r then (Err (Error RuntimeError ''fiber active''), s)
         else (case blocked_on s (Fiber r) of
             None \<Rightarrow> (Ok (), s)
           | Some ch \<Rightarrow>
               (case os_send (channels P) ch (VBool True) (set_blocked ((blocked_on s)(Fiber r := None)) s) of
                  (Ok u, t) \<Rightarrow> (Ok (), t)
                | (Err e, t) \<Rightarrow> (Err (Error SchedulerError (''could not unblock fiber: '' @ e)), t)
                | (Panic p, t) \<Rightarrow> (Panic p, t)))
     | _ \<Rightarrow> refused)"
proof (cases v)
  case (VRef r)
  show ?thesis
  proof (cases "rb_obj_is_fiber (vm P) r s \<and> rb_fiber_alive_p (vm P) r s \<and> rb_fiber_current (vm P) s \<noteq> r")
    case True
    then show ?thesis
      using VRef unblock_switchable [OF assms, of P r]
      by (auto simp: map_err_def send_error_def error_defs split: option.splits prod.splits outcome.splits)
  next
    case False
    then show ?thesis
      using VRef
      by (auto simp: unblock_def try_then_def from_value_def not_fiber_error_def check_suspended_def fiber_defs)
  qed
qed (simp_all add: unblock_def try_then_Err from_value_def not_fiber_error_def)

theorem unblock_outcomes_witness:
  "unblock sample_platform VNil (VRef 16) sample_start = (Ok (), sample_start)"
  using unblock_outcomes [OF sample_start_simps(2), of sample_platform VNil "VRef 16"]
  by (simp add: blocked_on_def)

lemma same_scheduler_blocked:
  "same_scheduler s t \<Longrightarrow> blocked_on t = blocked_on s \<and> futures_to_run t = futures_to_run s \<and>
     idle (blockers t) = idle (blockers s)"
  by (simp add: same_scheduler_def blocked_on_def)

lemma drop_sender_scheduler:
  "oneshot_laws (channels P) view \<Longrightarrow> same_scheduler s (drop_sender P tx s)"
  by (cases tx) (simp_all add: drop_sender_def oneshot_laws_def, simp add: same_scheduler_def)

text \<open>
  C18. \<open>block\<close> with the table free enters the running fiber with a new channel, in the place of an
  entry the fiber had before, and then adds its task and gives control to the root fiber. When
  the task set is borrowed the call fails after that: the entry stays, with a channel whose
  receiver is already gone.
\<close>

theorem block_outcomes:
  assumes laws: "oneshot_laws (channels P) view" and "idle (blockers s)"
    and ch: "os_channel (channels P) s = (ch, s1)"
  defines "f \<equiv> Fiber (rb_fiber_current (vm P) s1)"
  defines "s2 \<equiv> drop_sender P (blocked_on s f) (set_blocked ((blocked_on s)(f \<mapsto> ch)) s1)"
  shows "blocked_on s2 = (blocked_on s)(f \<mapsto> ch) \<and>
    (idle (futures_to_run s) \<longrightarrow> block P b t s = transfer_to_root P (with_task P (BlockFuture ch t) s2)) \<and>
    (borrowed (futures_to_run s) \<longrightarrow>
       fst (block P b t s) = Err (Error PoisonedCellError ''already borrowed'') \<and>
       blocked_on (snd (block P b t s)) f = Some ch \<and>
       view (world (snd (block P b t s))) ch = ReceiverGone)"
proof -
  have "same_scheduler s s1" using laws ch unfolding oneshot_laws_def by (metis snd_conv)
  then have s1: "blocked_on s1 = blocked_on s" "idle (blockers s1)" "futures_to_run s1 = futures_to_run s"
    using assms(2) by (simp_all add: same_scheduler_blocked)
  have s2: "blocked_on s2 = (blocked_on s)(f \<mapsto> ch)" "futures_to_run s2 = futures_to_run s"
    using drop_sender_scheduler [OF laws] s1(3) unfolding s2_def
    by (metis same_scheduler_blocked set_blocked_fields(1,3))+
  have blk: "block P b t s = spawn_and_transfer P (BlockFuture ch t) s2"
    using ch s1 by (simp add: block_def Let_def insert_entry_idle s2_def f_def current_def as_suspended_def)
  have "same_scheduler s2 (os_drop_rx (channels P) ch s2)"
    "view (world (os_drop_rx (channels P) ch s2)) ch = ReceiverGone"
    using laws unfolding oneshot_laws_def by blast+
  then show ?thesis
    using s2 by (auto simp: blk spawn_and_transfer_idle spawn_and_transfer_borrowed new_error_def
        dest: same_scheduler_blocked)
qed

text \<open>The channels of the sample platform keep these laws.\<close>

abbreviation sample_view :: "sample_world \<Rightarrow> channel \<Rightarrow> channel_state" where
  "sample_view \<equiv> sw_channels"

lemma sample_oneshot_laws: "oneshot_laws (channels sample_platform) sample_view"
  by (auto simp: oneshot_laws_def sample_channels_def same_scheduler_def set_channel_def on_world_def
      split: channel_state.splits)

theorem block_outcomes_witness:
  "\<exists>t. block sample_platform VNil None sample_start = transfer_to_root sample_platform t \<and>
       cell_value (futures_to_run t) = [\<lparr>ff_future = BlockFuture 0 None, ff_fiber = Fiber 32\<rparr>]"
proof -
  obtain s1 where ch: "os_channel (channels sample_platform) sample_start = (0, s1)"
    and cur: "sw_current (world s1) = 32"
    by (simp add: sample_channels_def sample_start_def on_world_def set_channel_def)
  define s2 where "s2 = drop_sender sample_platform (blocked_on sample_start (Fiber 32))
    (set_blocked ((blocked_on sample_start)(Fiber 32 \<mapsto> 0)) s1)"
  have w: "futures_to_run s2 = new_cell []" "sw_current (world s2) = 32"
    using ch cur unfolding s2_def
    by (auto simp: drop_sender_def blocked_on_def sample_start_def new_cell_def sample_channels_def
        on_world_def set_channel_def)
  have "block sample_platform VNil None sample_start =
      transfer_to_root sample_platform (with_task sample_platform (BlockFuture 0 None) s2)"
    using block_outcomes [OF sample_oneshot_laws sample_start_simps(2) ch, of VNil None] cur
    by (simp add: s2_def)
  then show ?thesis using w by (auto simp: with_task_def sample_tasks_def new_cell_def)
qed

section \<open>Blocking and unblocking\<close>

lemma block_future_received:
  assumes laws: "oneshot_laws (channels P) view" and "idle (blockers s)" and "view (world s) ch = Sent v"
  shows "\<exists>t. block_future P ch None s = (Ok v, t) \<and> blocked_on t =
     (blocked_on s)(Fiber (rb_fiber_current (vm P) (snd (os_recv (channels P) ch s))) := None)"
proof -
  from recv_delivers [OF laws assms(3)] obtain t
    where recv: "os_recv (channels P) ch s = (Ok v, t)" and t: "same_scheduler s t" by blast
  let ?f = "Fiber (rb_fiber_current (vm P) t) :: Suspended Fiber"
  have "on_blockers (blockers_remove ?f) t =
      (Ok (blocked_on s ?f), set_blocked ((blocked_on s)(?f := None)) t)"
    using remove_entry_idle [of t ?f] same_scheduler_blocked [OF t] assms(2) by simp
  then have "block_future P ch None s =
      (Ok v, drop_sender P (blocked_on s ?f) (set_blocked ((blocked_on s)(?f := None)) t))"
    using recv by (simp add: block_future_def with_timeout_def map_err_def Let_def current_def as_suspended_def)
  then show ?thesis
    using drop_sender_scheduler [OF laws, of "set_blocked ((blocked_on s)(?f := None)) t" "blocked_on s ?f"]
    by (auto simp: recv dest: same_scheduler_blocked)
qed

text \<open>
  C13. What \<open>unblock\<close> sends is what the blocked fiber's future receives. For a fiber entered with
  an empty channel, \<open>unblock\<close> succeeds and takes the entry out, and then the future, without a
  timeout, is ready with \<open>true\<close> and leaves the table without the entry.
\<close>

theorem unblock_delivers:
  assumes laws: "oneshot_laws (channels P) view" and "idle (blockers s)"
    and "rb_obj_is_fiber (vm P) r s" "rb_fiber_alive_p (vm P) r s" "rb_fiber_current (vm P) s \<noteq> r"
    and entry: "blocked_on s (Fiber r) = Some ch" and empty: "view (world s) ch = Empty"
  shows "\<exists>t u. unblock P b (VRef r) s = (Ok (), t) \<and> blocked_on t = (blocked_on s)(Fiber r := None) \<and>
    block_future P ch None t = (Ok (VBool True), u) \<and> blocked_on u (Fiber r) = None"
proof -
  let ?s = "set_blocked ((blocked_on s)(Fiber r := None)) s"
  from send_delivers [OF laws, of ?s ch "VBool True"] empty obtain t
    where send: "os_send (channels P) ch (VBool True) ?s = (Ok (), t)" and same: "same_scheduler ?s t"
      and sent: "view (world t) = (view (world s))(ch := Sent (VBool True))" by auto
  have "unblock P b (VRef r) s = (Ok (), t)"
    using unblock_switchable [OF assms(2-5), of b] entry send by (simp add: map_err_def)
  moreover have bt: "blocked_on t = (blocked_on s)(Fiber r := None)" and it: "idle (blockers t)"
    using same_scheduler_blocked [OF same] assms(2) by simp_all
  moreover have "\<exists>u. block_future P ch None t = (Ok (VBool True), u) \<and> blocked_on u (Fiber r) = None"
    using block_future_received [OF laws it, of ch "VBool True"] sent bt by (auto simp: fun_upd_apply)
  ultimately show ?thesis by blast
qed

text \<open>The root fiber runs, and fiber 32 is blocked on channel 0.\<close>

definition sample_blocked :: sample_state where
  "sample_blocked = set_blocked [Fiber 32 \<mapsto> 0] (on_world (\<lambda>w. w\<lparr>sw_current := 16\<rparr>) sample_start)"

lemma sample_blocked_simps [simp]:
  "blocked_on sample_blocked = [Fiber 32 \<mapsto> 0]" "idle (blockers sample_blocked)"
  "sw_current (world sample_blocked) = 16" "sw_dead (world sample_blocked) = []"
  "sample_view (world sample_blocked) ch = Empty"
  by (simp_all add: sample_blocked_def on_world_def sample_start_def)
    (simp add: new_cell_def idle_def set_blocked_def)?

theorem unblock_delivers_witness:
  "\<exists>t u. unblock sample_platform VNil (VRef 32) sample_blocked = (Ok (), t) \<and>
     block_future sample_platform 0 None t = (Ok (VBool True), u) \<and> blocked_on u (Fiber 32) = None"
  using unblock_delivers [OF sample_oneshot_laws, of sample_blocked 32 0 VNil] by auto

text \<open>
  C19. A block that times out leaves its entry behind. The future runs on the root fiber, so the
  entry it removes is the root fiber's and not that of the fiber that blocked; its own result is
  the timeout error, not \<open>false\<close>. A later \<open>unblock\<close> of that fiber then fails, because the
  channel's receiver is gone, and only that failure removes the entry.
\<close>

theorem timed_out_block_leaks:
  assumes laws: "oneshot_laws (channels P) view"
    and i: "instant_add (tk_now (clock P) s) (into_std d) = Ok i"
    and late: "tk_timeout_at (clock P) i (map_err recv_error (os_recv (channels P) ch)) s = (None, s1)"
    and "idle (blockers s1)" and root: "rb_fiber_current (vm P) s1 = main" "main \<noteq> r"
    and entry: "blocked_on s1 (Fiber r) = Some ch" and none: "blocked_on s1 (Fiber main) = None"
    and gone: "view (world s1) ch = ReceiverGone"
    and fiber: "rb_obj_is_fiber (vm P) r s1" "rb_fiber_alive_p (vm P) r s1"
  shows "block_future P ch (Some d) s = (Err (timed_out ''unblocking fiber'' (into_std d)), s1) \<and>
    (\<exists>e t. unblock P b (VRef r) s1 = (Err (Error SchedulerError (''could not unblock fiber: '' @ e)), t) \<and>
           blocked_on t (Fiber r) = None)"
proof -
  have upd: "(blocked_on s1)(Fiber main := None) = blocked_on s1"
    using none by (simp add: fun_upd_idem)
  have id: "set_blocked (blocked_on s1) s1 = s1" by (simp add: set_blocked_def blocked_on_def)
  have "block_future P ch (Some d) s = (Err (timed_out ''unblocking fiber'' (into_std d)), s1)"
    using remove_entry_idle [OF assms(4), of "Fiber main"] i late root(1) none
    by (simp add: block_future_def with_timeout_instant current_def as_suspended_def upd id drop_sender_def Let_def)
  moreover
  let ?s = "set_blocked ((blocked_on s1)(Fiber r := None)) s1"
  from send_fails [OF laws, of ?s ch "VBool True"] gone obtain e t
    where "os_send (channels P) ch (VBool True) ?s = (Err e, t)" and "same_scheduler ?s t" by auto
  then have "unblock P b (VRef r) s1 = (Err (Error SchedulerError (''could not unblock fiber: '' @ e)), t) \<and>
      blocked_on t (Fiber r) = None"
    using unblock_switchable [OF assms(4) fiber, of b] root entry same_scheduler_blocked [of ?s t]
    by (simp add: map_err_def send_error_def error_defs)
  ultimately show ?thesis by blast
qed

text \<open>A clock on which every deadline is missed, and channel 0 is dropped with the future.\<close>

definition sample_late :: "(task list, sample_world) platform" where
  "sample_late = sample_platform
     \<lparr>clock := sample_time\<lparr>tk_timeout_at := (\<lambda>i f s. (None, set_channel 0 ReceiverGone s))\<rparr>\<rparr>"

theorem timed_out_block_leaks_witness:
  "\<exists>e t. unblock sample_late VNil (VRef 32) (set_channel 0 ReceiverGone sample_blocked) =
           (Err (Error SchedulerError (''could not unblock fiber: '' @ e)), t) \<and>
         blocked_on t (Fiber 32) = None"
proof -
  have laws: "oneshot_laws (channels sample_late) sample_view"
    using sample_oneshot_laws by (simp add: sample_late_def)
  show ?thesis
    using timed_out_block_leaks [OF laws, of sample_blocked "TimeoutDuration (from_secs 2)"
        "\<lparr>tv_sec = 7, tv_nsec = 7\<rparr>" 0 "set_channel 0 ReceiverGone sample_blocked" 16 32 VNil]
    by (simp add: sample_late_def sample_time_def instant_add_def from_secs_def Let_def set_channel_def
        on_world_def blocked_on_def) (simp add: sample_blocked_def on_world_def blocked_on_def set_blocked_def)?
qed

end
