(* ===== verification/IoWait.thy ===== *)
theory IoWait
  imports Timeouts
begin

unbundle bit_operations_syntax

text \<open>
  \<open>io_wait.rs\<close>: the event mask Ruby passes, what Tokio is asked to wait for, and the hook that
  waits for a descriptor.

  The three bits are constants of the Ruby headers (\<open>rb_io_event_t\<close>): the fields of
  \<open>event_masks\<close>.
\<close>

section \<open>Event masks\<close>

record event_masks =
  RUBY_IO_READABLE :: "32 word"
  RUBY_IO_WRITABLE :: "32 word"
  RUBY_IO_PRIORITY :: "32 word"

datatype RubyIoEvent = RubyIoEvent (bits: "32 word")

definition EVENT_READABLE :: "event_masks \<Rightarrow> RubyIoEvent" where
  "EVENT_READABLE M = RubyIoEvent (RUBY_IO_READABLE M)"

definition EVENT_WRITABLE :: "event_masks \<Rightarrow> RubyIoEvent" where
  "EVENT_WRITABLE M = RubyIoEvent (RUBY_IO_WRITABLE M)"

definition EVENT_PRIORITY :: "event_masks \<Rightarrow> RubyIoEvent" where
  "EVENT_PRIORITY M = RubyIoEvent (RUBY_IO_PRIORITY M)"

definition all_events :: "event_masks \<Rightarrow> 32 word" where
  "all_events M = RUBY_IO_READABLE M OR RUBY_IO_WRITABLE M OR RUBY_IO_PRIORITY M"

definition event_from_bits :: "event_masks \<Rightarrow> 32 word \<Rightarrow> RubyIoEvent option" where
  "event_from_bits M v = (if v AND NOT (all_events M) = 0 then Some (RubyIoEvent v) else None)"

definition contains :: "RubyIoEvent \<Rightarrow> RubyIoEvent \<Rightarrow> bool" where
  "contains e f \<longleftrightarrow> bits e AND bits f = bits f"

text \<open>\<open>try_u32\<close> is the conversion of \<open>magnus\<close>.\<close>

definition try_convert_event ::
  "(Value \<Rightarrow> (32 word, error) outcome) \<Rightarrow> event_masks \<Rightarrow> Value \<Rightarrow> (RubyIoEvent, error) outcome" where
  "try_convert_event try_u32 M v = (case try_u32 v of
     Ok value \<Rightarrow> (case event_from_bits M value of
         Some e \<Rightarrow> Ok e
       | None \<Rightarrow> Err (Error base_error (''Invalid IO interests: '' @ show_int (uint value))))
   | Err e \<Rightarrow> Err e
   | Panic p \<Rightarrow> Panic p)"

definition event_into_value :: "RubyIoEvent \<Rightarrow> Value" where
  "event_into_value e = VInt (uint (bits e))"

text \<open>\<open>result.add(Interest::WRITABLE)\<close> gives a new interest, which the code drops.\<close>

definition interest_of_event :: "event_masks \<Rightarrow> RubyIoEvent \<Rightarrow> (Interest, error) outcome" where
  "interest_of_event M e =
     (let result = (if contains e (EVENT_READABLE M) then INTEREST_READABLE else INTEREST_WRITABLE);
          dropped = (if contains e (EVENT_WRITABLE M) then Some (interest_add result INTEREST_WRITABLE) else None) in
      if contains e (EVENT_PRIORITY M)
      then Err (Error base_error ''Priority is not a valid interest for tokio::io::Interest'')
      else Ok result)"

section \<open>The hook\<close>

definition io_wait ::
  "('j, 'w) platform \<Rightarrow> event_masks \<Rightarrow> Value \<Rightarrow> RubyIoEvent \<Rightarrow> TimeoutDuration option \<Rightarrow>
   (('j, 'w) TokioScheduler, Value, error) action" where
  "io_wait P M io event timeout =
     try_then (lift_outcome (interest_of_event M event)) (\<lambda>interests.
     try_then (new_with_interest (vm P) (io_driver P) io interests) (\<lambda>ruby_io.
     spawn_and_transfer P (WithTimeoutNoRaise timeout (IoWaitFuture ruby_io interests))))"

definition not_readable :: "'s tokio_io \<Rightarrow> error \<Rightarrow> error" where
  "not_readable T e = Error base_error (''Could not wait for readable: '' @ display_error T e)"

definition io_wait_future ::
  "'s tokio_io \<Rightarrow> 's fcntl_ops \<Rightarrow> event_masks \<Rightarrow> RubyIo \<Rightarrow> Interest \<Rightarrow> ('s, Value, error) action" where
  "io_wait_future T X M ruby_io interests =
     bracket (with_nonblock X ruby_io) (drop_guard X) (\<lambda>nonblock.
       try_then (map_err (not_readable T) (ruby_io_ready T ruby_io interests)) (\<lambda>ready.
       ret (event_into_value (EVENT_READABLE M))))"

section \<open>What is waited for\<close>

text \<open>The documented masks: three different bits.\<close>

definition distinct_events :: "event_masks \<Rightarrow> bool" where
  "distinct_events M \<longleftrightarrow>
     RUBY_IO_READABLE M \<noteq> 0 \<and> RUBY_IO_WRITABLE M \<noteq> 0 \<and> RUBY_IO_PRIORITY M \<noteq> 0 \<and>
     RUBY_IO_READABLE M AND RUBY_IO_WRITABLE M = 0 \<and> RUBY_IO_READABLE M AND RUBY_IO_PRIORITY M = 0 \<and>
     RUBY_IO_WRITABLE M AND RUBY_IO_PRIORITY M = 0"

lemma contains_or_left [simp]: "contains (RubyIoEvent (a OR b)) (RubyIoEvent a)"
  by (simp add: contains_def)

lemma contains_or_right [simp]: "contains (RubyIoEvent (a OR b)) (RubyIoEvent b)"
  using contains_or_left [of b a] by (simp add: or.commute)

lemma contains_disjoint: "a AND c = 0 \<Longrightarrow> c \<noteq> 0 \<Longrightarrow> \<not> contains (RubyIoEvent a) (RubyIoEvent c)"
  by (simp add: contains_def)

lemma contains_or_disjoint:
  "a AND c = 0 \<Longrightarrow> b AND c = 0 \<Longrightarrow> c \<noteq> 0 \<Longrightarrow> \<not> contains (RubyIoEvent (a OR b)) (RubyIoEvent c)"
  by (simp add: contains_def and.commute [of "a OR b"] bit.conj_disj_distrib and.commute)

text \<open>
  The mask as a Ruby integer and back: a mask is read back as itself exactly when it has no bit
  but the three known ones, and a number that is read as a mask is the number that mask gives.
\<close>

theorem event_mask_roundtrip:
  assumes conv: "\<And>i. 0 \<le> i \<Longrightarrow> i < 2 ^ 32 \<Longrightarrow> try_u32 (VInt i) = Ok (of_int i)"
  shows "(try_convert_event try_u32 M (event_into_value e) = Ok e \<longleftrightarrow> bits e AND NOT (all_events M) = 0) \<and>
    (\<forall>i f. 0 \<le> i \<and> i < 2 ^ 32 \<and> try_convert_event try_u32 M (VInt i) = Ok f \<longrightarrow> event_into_value f = VInt i)"
proof (intro conjI allI impI)
  have "uint (bits e) < 2 ^ 32" using uint_lt2p [of "bits e"] by simp
  then have "try_u32 (VInt (uint (bits e))) = Ok (bits e)" using conv by simp
  then show "try_convert_event try_u32 M (event_into_value e) = Ok e \<longleftrightarrow> bits e AND NOT (all_events M) = 0"
    by (cases e) (simp add: try_convert_event_def event_into_value_def event_from_bits_def)
next
  fix i f
  assume i: "0 \<le> i \<and> i < 2 ^ 32 \<and> try_convert_event try_u32 M (VInt i) = Ok f"
  then have "f = RubyIoEvent (of_int i)"
    using conv [of i] by (auto simp: try_convert_event_def event_from_bits_def split: if_splits)
  with i show "event_into_value f = VInt i"
    by (simp add: event_into_value_def uint_word_of_int_eq take_bit_int_eq_self)
qed

theorem event_mask_roundtrip_witness:
  "try_convert_event (\<lambda>v. case v of VInt i \<Rightarrow> Ok (of_int i) | _ \<Rightarrow> Err (new_type_error []))
     \<lparr>RUBY_IO_READABLE = 1, RUBY_IO_WRITABLE = 4, RUBY_IO_PRIORITY = 2\<rparr> (event_into_value (RubyIoEvent 5)) =
   Ok (RubyIoEvent 5)"
  using event_mask_roundtrip
    [of "\<lambda>v. case v of VInt i \<Rightarrow> Ok (of_int i) | _ \<Rightarrow> Err (new_type_error [])"
       "\<lparr>RUBY_IO_READABLE = 1, RUBY_IO_WRITABLE = 4, RUBY_IO_PRIORITY = 2\<rparr>" "RubyIoEvent 5"]
  by (simp add: all_events_def)

text \<open>
  C32. A mask with the priority bit is refused; otherwise Tokio waits for one direction only:
  reading when the mask has the readable bit, writing when it has not, be it asked for or not.
  So a wait for reading or writing is a wait for reading, and an empty mask waits for writing.
\<close>

theorem interest_is_one_direction:
  assumes "distinct_events M"
  shows "interest_of_event M e =
      (if contains e (EVENT_PRIORITY M)
       then Err (Error SchedulerError ''Priority is not a valid interest for tokio::io::Interest'')
       else Ok (if contains e (EVENT_READABLE M) then INTEREST_READABLE else INTEREST_WRITABLE)) \<and>
    interest_of_event M (RubyIoEvent (RUBY_IO_READABLE M OR RUBY_IO_WRITABLE M)) = Ok INTEREST_READABLE \<and>
    interest_of_event M (RubyIoEvent (RUBY_IO_WRITABLE M)) = Ok INTEREST_WRITABLE \<and>
    interest_of_event M (RubyIoEvent 0) = Ok INTEREST_WRITABLE"
proof -
  note d = assms [unfolded distinct_events_def]
  have "\<not> contains (RubyIoEvent 0) (RubyIoEvent c)" if "c \<noteq> 0" for c
    using that by (simp add: contains_def)
  moreover have "\<not> contains (RubyIoEvent (RUBY_IO_READABLE M OR RUBY_IO_WRITABLE M)) (EVENT_PRIORITY M)"
    using d by (simp add: EVENT_PRIORITY_def contains_or_disjoint)
  moreover have "\<not> contains (RubyIoEvent (RUBY_IO_WRITABLE M)) (EVENT_PRIORITY M)"
    "\<not> contains (RubyIoEvent (RUBY_IO_WRITABLE M)) (EVENT_READABLE M)"
    using d contains_disjoint [of "RUBY_IO_WRITABLE M" "RUBY_IO_PRIORITY M"]
      contains_disjoint [of "RUBY_IO_WRITABLE M" "RUBY_IO_READABLE M"]
    by (simp_all add: EVENT_PRIORITY_def EVENT_READABLE_def and.commute)
  ultimately show ?thesis
    using d by (simp add: interest_of_event_def Let_def base_error_def EVENT_READABLE_def EVENT_PRIORITY_def)
qed

theorem interest_is_one_direction_witness:
  "interest_of_event \<lparr>RUBY_IO_READABLE = 1, RUBY_IO_WRITABLE = 4, RUBY_IO_PRIORITY = 2\<rparr> (RubyIoEvent 5) =
     Ok INTEREST_READABLE"
  using interest_is_one_direction
    [of "\<lparr>RUBY_IO_READABLE = 1, RUBY_IO_WRITABLE = 4, RUBY_IO_PRIORITY = 2\<rparr>", THEN conjunct2, THEN conjunct1]
  by (simp add: distinct_events_def)

section \<open>What the future answers\<close>

lemma with_nonblock_backing [effect_simps]:
  "backing_io io = Some b \<Longrightarrow> with_nonblock X io = new_guard X (as_raw_fd b)"
  by (simp add: with_nonblock_def expect_backing_def try_then_simps)

text \<open>
  C33. The future waits with the descriptor in non-blocking mode and restores the descriptor's
  flags however the wait ends. Its answer does not depend on what it waited for, nor on the
  readiness that Tokio reports: it is the readable bit alone, also for a wait for writing.
\<close>

theorem io_wait_reports_readable:
  assumes laws: "fcntl_laws X fl settable" and b: "backing_io io = Some b"
    and quiet: "\<And>t. fl (snd (ruby_io_ready T io i t)) = fl t"
  shows "fl (snd (io_wait_future T X M io i s)) = fl s \<and>
    (\<exists>t. fl t (as_raw_fd b) = fl s (as_raw_fd b) OR O_NONBLOCK X \<and>
         fst (io_wait_future T X M io i s) =
           (case fst (ruby_io_ready T io i t) of
              Ok r \<Rightarrow> Ok (VInt (uint (RUBY_IO_READABLE M)))
            | Err e \<Rightarrow> Err (Error SchedulerError (''Could not wait for readable: '' @ display_error T e))
            | Panic p \<Rightarrow> Panic p))"
proof -
  define body where "body = (\<lambda>g::NonBlockGuard. try_then (map_err (not_readable T) (ruby_io_ready T io i))
    (\<lambda>ready. ret (event_into_value (EVENT_READABLE M))))"
  have quiet_body: "fl (snd (body g t)) = fl t" for g t
    using quiet [of t] by (auto simp: body_def effect_defs split: prod.splits outcome.splits)
  have future: "io_wait_future T X M io i = bracket (new_guard X (as_raw_fd b)) (drop_guard X) body"
    by (simp add: io_wait_future_def with_nonblock_backing [OF b] body_def fun_eq_iff)
  obtain g t where t: "fl t = (fl s)(as_raw_fd b := fl s (as_raw_fd b) OR O_NONBLOCK X)"
    and out: "fst (bracket (new_guard X (as_raw_fd b)) (drop_guard X) body s) = fst (body g t)"
    and flags: "fl (snd (bracket (new_guard X (as_raw_fd b)) (drop_guard X) body s)) = fl s"
    by (rule guard_bracket [OF laws quiet_body])
  have "fst (body g t) = (case fst (ruby_io_ready T io i t) of
              Ok r \<Rightarrow> Ok (VInt (uint (RUBY_IO_READABLE M)))
            | Err e \<Rightarrow> Err (Error SchedulerError (''Could not wait for readable: '' @ display_error T e))
            | Panic p \<Rightarrow> Panic p)"
    by (auto simp: body_def effect_defs not_readable_def base_error_def event_into_value_def
        EVENT_READABLE_def split: prod.splits outcome.splits)
  with t out flags show ?thesis unfolding future by (metis fun_upd_same)
qed

theorem io_wait_reports_readable_witness:
  "fst (io_wait_future sample_io sample_fcntl \<lparr>RUBY_IO_READABLE = 1, RUBY_IO_WRITABLE = 4, RUBY_IO_PRIORITY = 2\<rparr>
     \<lparr>io_value = VRef 5, backing_io = Some (File 3)\<rparr> INTEREST_WRITABLE sample_start) = Ok (VInt 1)"
proof -
  have ready: "ruby_io_ready sample_io \<lparr>io_value = VRef 5, backing_io = Some (File 3)\<rparr> INTEREST_WRITABLE t =
      (Ok (VRef 5, READY_WRITABLE), t)" for t :: sample_state
    by (simp add: ruby_io_ready_def expect_backing_def backing_ready_def INTEREST_WRITABLE_def effect_defs)
  show ?thesis
    using io_wait_reports_readable [OF sample_fcntl_laws, where T = sample_io and b = "File 3"
        and io = "\<lparr>io_value = VRef 5, backing_io = Some (File 3)\<rparr>" and i = INTEREST_WRITABLE
        and s = sample_start and M = "\<lparr>RUBY_IO_READABLE = 1, RUBY_IO_WRITABLE = 4, RUBY_IO_PRIORITY = 2\<rparr>"]
    by (simp add: ready)
qed

end
