(* ===== verification/Nilable.thy ===== *)
theory Nilable
  imports RubyTypes
begin

text \<open>
  \<open>nilable.rs\<close>: an argument that may be given as \<open>nil\<close>. \<open>conv\<close> is the conversion of the type
  inside, which the generic \<open>TryConvert\<close> is instantiated with.
\<close>

datatype 't Nilable = NilableValue 't | Nil

definition try_convert_nilable :: "(Value \<Rightarrow> ('t, error) outcome) \<Rightarrow> Value \<Rightarrow> ('t Nilable, error) outcome" where
  "try_convert_nilable conv v =
     (if is_nil v then Ok Nil
      else (case conv v of Ok x \<Rightarrow> Ok (NilableValue x) | Err e \<Rightarrow> Err e | Panic p \<Rightarrow> Panic p))"

definition into_option :: "'t Nilable \<Rightarrow> 't option" where
  "into_option n = (case n of NilableValue x \<Rightarrow> Some x | Nil \<Rightarrow> None)"

definition nilable_is_some :: "'t Nilable \<Rightarrow> bool" where
  "nilable_is_some n = (case n of NilableValue x \<Rightarrow> True | Nil \<Rightarrow> False)"

definition nilable_is_none :: "'t Nilable \<Rightarrow> bool" where
  "nilable_is_none n = (case n of Nil \<Rightarrow> True | NilableValue x \<Rightarrow> False)"

definition nilable_is_nil :: "'t Nilable \<Rightarrow> bool" where
  "nilable_is_nil n = (case n of Nil \<Rightarrow> True | NilableValue x \<Rightarrow> False)"

lemma try_convert_nilable_nil [simp]:
  "try_convert_nilable conv v = Ok Nil \<longleftrightarrow> v = VNil"
  by (simp add: try_convert_nilable_def is_nil_def split: outcome.splits)

lemma nilable_tests:
  "nilable_is_some n = (into_option n \<noteq> None)" "nilable_is_none n = (\<not> nilable_is_some n)"
  "nilable_is_nil n = nilable_is_none n"
  by (cases n; simp add: nilable_is_some_def nilable_is_none_def nilable_is_nil_def into_option_def)+

end
