(* ===== verification/IoSelect.thy ===== *)
theory IoSelect
  imports Timeouts Nilable Intern
begin

text \<open>
  \<open>io_select.rs\<close>: the set of waits for the descriptors given to \<open>IO.select\<close>, and the hook that
  answers with the first of them to be ready.

  The inner \<open>JoinSet\<close> of the source is a list of tasks, one per descriptor; the call that
  waits for the next one to finish and the call that aborts the rest are the fields of
  \<open>select_ops\<close>.
\<close>

section \<open>The set of waits\<close>

record RubyIoSet =
  select_futures :: "select_task list"

definition new_io_set :: RubyIoSet where
  "new_io_set = \<lparr>select_futures = []\<rparr>"

text \<open>An array is given by what its iterator yields.\<close>

type_synonym io_array = "(error + Value) list"

definition push_all :: "io_array \<Rightarrow> Interest \<Rightarrow> RubyIoSet \<Rightarrow> RubyIoSet" where
  "push_all array interest io_set =
     io_set\<lparr>select_futures := select_futures io_set @ map (\<lambda>io. (io, interest)) array\<rparr>"

definition io_set_len :: "RubyIoSet \<Rightarrow> nat" where
  "io_set_len io_set = length (select_futures io_set)"

definition select_body ::
  "'s ruby_vm \<Rightarrow> 's tokio_io \<Rightarrow> select_task \<Rightarrow> ('s, Value \<times> Interest, error) action" where
  "select_body R T task = (case task of (io, interest) \<Rightarrow>
     (case io of
        Inl e \<Rightarrow> fail e
      | Inr v \<Rightarrow>
          try_then (new_with_interest R T v interest) (\<lambda>io.
          try_then (ruby_io_ready T io interest) (\<lambda>(ruby_io, guard).
          ret (ruby_io, interest)))))"

section \<open>The hook\<close>

record 's select_ops =
  sel_join_next :: "('s, Value \<times> Interest, error) action list \<Rightarrow> 's \<Rightarrow>
    (string + (error + Value \<times> Interest)) option \<times> 's"
  sel_abort_all :: "'s \<Rightarrow> 's"

definition push_given :: "io_array Nilable option \<Rightarrow> Interest \<Rightarrow> RubyIoSet \<Rightarrow> RubyIoSet" where
  "push_given arg interest io_set = (case arg of
     Some (NilableValue array) \<Rightarrow> push_all array interest io_set
   | _ \<Rightarrow> io_set)"

definition build_io_set ::
  "io_array Nilable option \<Rightarrow> io_array Nilable option \<Rightarrow> io_array Nilable option \<Rightarrow> RubyIoSet" where
  "build_io_set readables writables exceptable =
     push_given exceptable (interest_add INTEREST_READABLE INTEREST_WRITABLE)
       (push_given writables INTEREST_WRITABLE
         (push_given readables INTEREST_READABLE new_io_set))"

type_synonym io_select_args =
  "io_array Nilable option \<times> io_array Nilable option \<times> io_array Nilable option \<times> TimeoutDuration option"

text \<open>\<open>scan\<close> is \<open>scan_args\<close> of \<open>magnus\<close>, which checks the number and the types of the arguments.\<close>

definition io_select ::
  "('j, 'w) platform \<Rightarrow> (Value list \<Rightarrow> (io_select_args, error) outcome) \<Rightarrow> Value list \<Rightarrow>
   (('j, 'w) TokioScheduler, Value, error) action" where
  "io_select P scan args =
     try_then (lift_outcome (scan args)) (\<lambda>(readables, writables, exceptable, timeout).
       spawn_and_transfer P (WithTimeoutNoRaise timeout
         (IoSelectFuture (select_futures (build_io_set readables writables exceptable)))))"

text \<open>
  Every slot is an array of its own, except that the empty ones are the interned empty array:
  an object of the VM, the same in every answer.
\<close>

definition select_slots :: "'s intern_ops \<Rightarrow> Value \<Rightarrow> Interest \<Rightarrow> ('s, Value, error) action" where
  "select_slots N ruby_io interest =
     (if interest = interest_add INTEREST_READABLE INTEREST_WRITABLE
      then try_then (empty_array N) (\<lambda>a. try_then (empty_array N) (\<lambda>b.
        ret (VArr [VRef a, VRef b, VArr [ruby_io]])))
      else if interest = INTEREST_READABLE
      then try_then (empty_array N) (\<lambda>a. try_then (empty_array N) (\<lambda>b.
        ret (VArr [VArr [ruby_io], VRef a, VRef b])))
      else if interest = INTEREST_WRITABLE
      then try_then (empty_array N) (\<lambda>a. try_then (empty_array N) (\<lambda>b.
        ret (VArr [VRef a, VArr [ruby_io], VRef b])))
      else panic ''internal error: entered unreachable code: Unexpected interest'')"

definition io_select_future ::
  "'s ruby_vm \<Rightarrow> 's tokio_io \<Rightarrow> 's intern_ops \<Rightarrow> 's select_ops \<Rightarrow> select_task list \<Rightarrow> ('s, Value, error) action" where
  "io_select_future R T N S ts s =
     (let joined = sel_join_next S (map (select_body R T) ts) s;
          result = (case fst joined of
             None \<Rightarrow> ret VNil
           | Some (Inl e) \<Rightarrow> fail (new_base_error (''Error joining futures: '' @ e))
           | Some (Inr (Inl e)) \<Rightarrow>
               fail (new_base_error (''Error waiting for IO to be ready: '' @ display_error T e))
           | Some (Inr (Inr (ruby_io, interest))) \<Rightarrow> select_slots N ruby_io interest) (snd joined) in
      case result of
        (Ok v, t) \<Rightarrow> (Ok v, sel_abort_all S t)
      | (Err e, t) \<Rightarrow> (Err e, sel_abort_all S t)
      | (Panic p, t) \<Rightarrow> (Panic p, t))"

section \<open>Which descriptors are reported\<close>

text \<open>
  What Tokio documents of \<open>join_next\<close>: \<open>None\<close> exactly for an empty set, and otherwise the
  output of one of the tasks, run in some state, or the error that it panicked or was aborted.
\<close>

definition join_next_laws :: "'s select_ops \<Rightarrow> bool" where
  "join_next_laws S \<longleftrightarrow>
     (\<forall>ts s. (fst (sel_join_next S ts s) = None) = (ts = [])) \<and>
     (\<forall>ts s r. fst (sel_join_next S ts s) = Some (Inr r) \<longrightarrow>
        (\<exists>task \<in> set ts. \<exists>u. fst (task u) = (case r of Inl e \<Rightarrow> Err e | Inr v \<Rightarrow> Ok v)))"

lemma new_with_interest_value:
  "new_with_interest R T v i s = (Ok io, t) \<Longrightarrow> io_value io = v"
  by (auto simp: new_with_interest_def effect_defs split: prod.splits outcome.splits)

lemma ruby_io_ready_value:
  "ruby_io_ready T io i s = (Ok (v, g), t) \<Longrightarrow> v = io_value io"
  by (auto simp: ruby_io_ready_def effect_defs split: prod.splits outcome.splits)

lemma select_body_result:
  "fst (select_body R T task s) = Ok (v, i) \<Longrightarrow> task = (Inr v, i)"
proof -
  assume out: "fst (select_body R T task s) = Ok (v, i)"
  obtain io i' where task: "task = (io, i')" by fastforce
  show "task = (Inr v, i)"
  proof (cases io)
    case (Inl e)
    with out task show ?thesis by (simp add: select_body_def fail_def)
  next
    case (Inr w)
    from out obtain t where "select_body R T task s = (Ok (v, i), t)" by (metis prod.collapse)
    then show ?thesis
      using new_with_interest_value ruby_io_ready_value
      by (fastforce simp: select_body_def task Inr try_then_def ret_def split: prod.splits outcome.splits)
  qed
qed

definition in_array :: "Value \<Rightarrow> io_array Nilable option \<Rightarrow> bool" where
  "in_array v arg \<longleftrightarrow> (\<exists>array. arg = Some (NilableValue array) \<and> Inr v \<in> set array)"

lemma push_given_tasks:
  "(Inr v, i) \<in> set (select_futures (push_given arg j s)) \<longleftrightarrow>
   (Inr v, i) \<in> set (select_futures s) \<or> i = j \<and> in_array v arg"
  by (auto simp: push_given_def push_all_def in_array_def split: option.splits Nilable.splits)

lemma build_io_set_tasks:
  "(Inr v, i) \<in> set (select_futures (build_io_set rs ws es)) \<longleftrightarrow>
   i = INTEREST_READABLE \<and> in_array v rs \<or> i = INTEREST_WRITABLE \<and> in_array v ws \<or>
   i = interest_add INTEREST_READABLE INTEREST_WRITABLE \<and> in_array v es"
  by (auto simp: build_io_set_def push_given_tasks new_io_set_def)

lemma interests_differ [simp]:
  "INTEREST_READABLE \<noteq> INTEREST_WRITABLE" "INTEREST_WRITABLE \<noteq> INTEREST_READABLE"
  "interest_add INTEREST_READABLE INTEREST_WRITABLE \<noteq> INTEREST_READABLE"
  "interest_add INTEREST_READABLE INTEREST_WRITABLE \<noteq> INTEREST_WRITABLE"
  by (simp_all add: INTEREST_READABLE_def INTEREST_WRITABLE_def interest_add_def)

text \<open>An answer with one descriptor in one slot and the object \<open>r\<close> in the two others.\<close>

definition answer_with :: "64 word \<Rightarrow> Value \<Rightarrow> Interest \<Rightarrow> Value" where
  "answer_with r io interest =
     VArr (if interest = INTEREST_READABLE then [VArr [io], VRef r, VRef r]
           else if interest = INTEREST_WRITABLE then [VRef r, VArr [io], VRef r]
           else [VRef r, VRef r, VArr [io]])"

definition given_for :: "Interest \<Rightarrow> Value \<Rightarrow> io_array Nilable option \<Rightarrow> io_array Nilable option \<Rightarrow>
    io_array Nilable option \<Rightarrow> bool" where
  "given_for interest io rs ws es \<longleftrightarrow>
     interest = INTEREST_READABLE \<and> in_array io rs \<or> interest = INTEREST_WRITABLE \<and> in_array io ws \<or>
     interest = interest_add INTEREST_READABLE INTEREST_WRITABLE \<and> in_array io es"

definition array_available :: "'s intern_ops \<Rightarrow> bool" where
  "array_available N \<longleftrightarrow> (\<forall>s. \<exists>r t. empty_array N s = (Ok r, t))"

lemma empty_array_available:
  assumes "memo_laws N held" and "quiet_interning N held" and "array_available N"
  obtains r t where "empty_array N s = (Ok r, t)" and "empty_array N t = (Ok r, t)"
    and "held t EmptyArray = Some r" and "held s \<subseteq>\<^sub>m held t"
proof -
  from assms(3) obtain r t where rt: "empty_array N s = (Ok r, t)" unfolding array_available_def by blast
  then have "held t EmptyArray = Some r" "held s \<subseteq>\<^sub>m held t"
    using interned_made(2) [OF assms(1,2), of EmptyArray s r t] interned_made(1) [OF assms(1,2), of s EmptyArray]
    by simp_all
  with rt interned_held [OF assms(1,2), of t EmptyArray r] that show thesis by auto
qed

lemma select_slots_answer:
  assumes "memo_laws N held" and "quiet_interning N held" and "array_available N"
    and "given_for i v rs ws es"
  obtains r t where "select_slots N v i s = (Ok (answer_with r v i), t)"
    and "held t EmptyArray = Some r" and "held s \<subseteq>\<^sub>m held t"
proof -
  obtain r t where "empty_array N s = (Ok r, t)" "empty_array N t = (Ok r, t)"
    and held: "held t EmptyArray = Some r" "held s \<subseteq>\<^sub>m held t"
    by (rule empty_array_available [OF assms(1,2,3)])
  moreover have "i = INTEREST_READABLE \<or> i = INTEREST_WRITABLE \<or>
      i = interest_add INTEREST_READABLE INTEREST_WRITABLE"
    using assms(4) by (auto simp: given_for_def)
  ultimately have "select_slots N v i s = (Ok (answer_with r v i), t)"
    by (elim disjE) (simp_all add: select_slots_def answer_with_def try_then_Ok ret_def interests_differ [symmetric])
  with held show thesis by (intro that)
qed

text \<open>What the runtime gives of the inner set: nothing, an error, or one of the descriptors given.\<close>

lemma joined_task:
  assumes laws: "join_next_laws S" and built: "ts = select_futures (build_io_set rs ws es)"
    and j: "sel_join_next S (map (select_body R T) ts) s = (Some (Inr (Inr (v, i))), t)"
  shows "given_for i v rs ws es"
proof -
  from laws j obtain task u where "task \<in> set ts" "fst (select_body R T task u) = Ok (v, i)"
    unfolding join_next_laws_def by (metis (no_types, lifting) fst_conv imageE list.set_map old.sum.simps(6))
  then have "(Inr v, i) \<in> set ts" using select_body_result by metis
  then show ?thesis unfolding built given_for_def by (simp add: build_io_set_tasks)
qed

lemma joined_none:
  assumes "join_next_laws S" and "sel_join_next S (map (select_body R T) ts) s = (j, t)"
  shows "j = None \<longleftrightarrow> ts = []"
  using assms unfolding join_next_laws_def by (metis fst_conv map_is_Nil_conv)

lemma io_select_future_cases:
  assumes laws: "join_next_laws S" and built: "ts = select_futures (build_io_set rs ws es)"
    and cells: "memo_laws N held" "quiet_interning N held" "array_available N"
  obtains (none) t where "ts = []" "io_select_future R T N S ts s = (Ok VNil, sel_abort_all S t)"
    | (error) e t where "ts \<noteq> []" "io_select_future R T N S ts s = (Err e, sel_abort_all S t)"
    | (ready) v i r t where "ts \<noteq> []" "given_for i v rs ws es"
        "io_select_future R T N S ts s = (Ok (answer_with r v i), sel_abort_all S t)"
        "held t EmptyArray = Some r"
        "held (snd (sel_join_next S (map (select_body R T) ts) s)) \<subseteq>\<^sub>m held t"
proof -
  obtain j u where j: "sel_join_next S (map (select_body R T) ts) s = (j, u)" by fastforce
  consider "j = None" | e where "j = Some (Inl e)" | e where "j = Some (Inr (Inl e))"
    | v i where "j = Some (Inr (Inr (v, i)))"
    by (metis option.exhaust sum.exhaust surj_pair)
  then show thesis
  proof cases
    case 1
    with j joined_none [OF laws j] show thesis
      by (intro none [of u]) (simp_all add: io_select_future_def ret_def)
  next
    case 2
    with j joined_none [OF laws j] show thesis
      by (intro error [of "new_base_error (''Error joining futures: '' @ e)" u])
        (simp_all add: io_select_future_def fail_def)
  next
    case 3
    with j joined_none [OF laws j] show thesis
      by (intro error [of "new_base_error (''Error waiting for IO to be ready: '' @ display_error T e)" u])
        (simp_all add: io_select_future_def fail_def)
  next
    case 4
    with j have given: "given_for i v rs ws es" using joined_task [OF laws built] by metis
    obtain r t where "select_slots N v i u = (Ok (answer_with r v i), t)"
      and "held t EmptyArray = Some r" "held u \<subseteq>\<^sub>m held t"
      by (rule select_slots_answer [OF cells given])
    with 4 j joined_none [OF laws j] given show thesis
      by (intro ready [of i v r t]) (simp_all add: io_select_future_def)
  qed
qed

lemma io_select_future_answers:
  assumes laws: "join_next_laws S" and built: "ts = select_futures (build_io_set rs ws es)"
    and cells: "memo_laws N held" "quiet_interning N held" "array_available N"
  shows "(fst (io_select_future R T N S ts s) = Ok VNil \<longleftrightarrow> ts = []) \<and>
    (\<forall>p. fst (io_select_future R T N S ts s) \<noteq> Panic p) \<and>
    (\<exists>t. snd (io_select_future R T N S ts s) = sel_abort_all S t \<and>
       (\<forall>v. fst (io_select_future R T N S ts s) = Ok v \<and> v \<noteq> VNil \<longrightarrow>
          (\<exists>r io. held t EmptyArray = Some r \<and>
             (v = VArr [VArr [io], VRef r, VRef r] \<and> in_array io rs \<or>
              v = VArr [VRef r, VArr [io], VRef r] \<and> in_array io ws \<or>
              v = VArr [VRef r, VRef r, VArr [io]] \<and> in_array io es))))"
proof (cases rule: io_select_future_cases [OF laws built cells, of R T s])
  case (3 v i r t)
  then show ?thesis
    by (auto simp: answer_with_def given_for_def interests_differ [symmetric] intro!: exI [of _ t])
qed auto

text \<open>
  C34. \<open>io_select\<close> adds one future, and that answers \<open>nil\<close> exactly when its deadline expired or no
  descriptor was given, and panics exactly when the deadline cannot be computed. Otherwise it ends
  with an error or with three slots of which exactly one holds exactly one descriptor, and that
  one was given in the argument of the same position; the other two are the interned empty array.
  The unreachable branch is not reached, and when it ends by itself it aborts the remaining waits.
\<close>

theorem io_select_answers:
  fixes P :: "('j, 'w) platform" and s :: "('j, 'w) TokioScheduler"
  assumes laws: "join_next_laws S" and deadline: "timeout_at_law (clock P)"
    and cells: "memo_laws N held" "quiet_interning N held" "array_available N"
    and args: "scan args = Ok (rs, ws, es, timeout)"
  defines "ts \<equiv> select_futures (build_io_set rs ws es)"
  defines "selecting \<equiv> io_select_future (vm P) (io_driver P) N S ts"
  defines "future \<equiv> with_timeout_no_raise (clock P) timeout selecting"
  defines "expired \<equiv> \<exists>d i. timeout = Some d \<and> instant_add (tk_now (clock P) s) (into_std d) = Ok i \<and>
      fst (tk_timeout_at (clock P) i selecting s) = None"
  defines "overflows \<equiv> \<exists>d p. timeout = Some d \<and> instant_add (tk_now (clock P) s) (into_std d) = Panic p"
  shows "io_select P scan args = spawn_and_transfer P (WithTimeoutNoRaise timeout (IoSelectFuture ts)) \<and>
    (fst (future s) = Ok VNil \<longleftrightarrow> expired \<or> ts = [] \<and> \<not> overflows) \<and>
    ((\<exists>p. fst (future s) = Panic p) \<longleftrightarrow> overflows) \<and>
    (\<not> expired \<and> \<not> overflows \<longrightarrow>
       (\<exists>t. snd (future s) = sel_abort_all S t \<and>
          (\<forall>v. fst (future s) = Ok v \<and> v \<noteq> VNil \<longrightarrow>
             (\<exists>r io. held t EmptyArray = Some r \<and>
                (v = VArr [VArr [io], VRef r, VRef r] \<and> in_array io rs \<or>
                 v = VArr [VRef r, VArr [io], VRef r] \<and> in_array io ws \<or>
                 v = VArr [VRef r, VRef r, VArr [io]] \<and> in_array io es)))))"
proof -
  have hook: "io_select P scan args = spawn_and_transfer P (WithTimeoutNoRaise timeout (IoSelectFuture ts))"
    by (simp add: io_select_def args lift_outcome_def try_then_def ts_def ret_def fun_eq_iff)
  note answers = io_select_future_answers [OF laws ts_def [THEN meta_eq_to_obj_eq] cells, of "vm P" "io_driver P" s,
      folded selecting_def]
  consider (overflows) d p where "timeout = Some d" "instant_add (tk_now (clock P) s) (into_std d) = Panic p"
    | (expired) d i t where "timeout = Some d" "instant_add (tk_now (clock P) s) (into_std d) = Ok i"
        "tk_timeout_at (clock P) i selecting s = (None, t)"
    | (itself) "future s = selecting s" "\<not> expired" "\<not> overflows"
  proof (cases timeout)
    case None
    then show thesis
      by (intro itself) (simp_all add: future_def with_timeout_no_raise_def expired_def overflows_def)
  next
    case (Some d)
    show thesis
    proof (cases "instant_add (tk_now (clock P) s) (into_std d)")
      case (Ok i)
      obtain r t where run: "tk_timeout_at (clock P) i selecting s = (r, t)" by fastforce
      show thesis
      proof (cases r)
        case (Some x)
        with timeout_at_in_time [OF deadline] run have "selecting s = (x, t)" by blast
        with run Some \<open>timeout = Some d\<close> Ok show thesis
          by (intro itself) (simp_all add: future_def with_timeout_instant expired_def overflows_def)
      qed (use run Some Ok expired in blast)
    next
      case (Panic p)
      with Some overflows show thesis by blast
    qed (simp add: instant_add_not_Err)
  qed
  then show ?thesis
  proof cases
    case (overflows d p)
    then have "future s = (Panic p, s)" "\<not> expired" "overflows"
      by (auto simp: future_def with_timeout_no_raise_def expired_def overflows_def)
    with hook show ?thesis by simp
  next
    case (expired d i t)
    then have "future s = (Ok VNil, t)" "expired" "\<not> overflows"
      by (auto simp: future_def with_timeout_instant expired_def overflows_def)
    with hook show ?thesis by simp
  next
    case itself
    with hook answers show ?thesis by simp
  qed
qed

text \<open>
  C35. The empty slots of all answers are one mutable Ruby array: two selects, however far apart, give
  their callers the same object, so what one caller appends to an empty slot is in the slots of
  every later answer. It needs of the runtime only that it leaves the interned objects alone.
\<close>

theorem empty_slots_shared:
  assumes laws: "join_next_laws S" and cells: "memo_laws N held" "quiet_interning N held" "array_available N"
    and keeps: "\<And>ts s. held s \<subseteq>\<^sub>m held (snd (sel_join_next S (map (select_body R T) ts) s))"
      "\<And>s. held s \<subseteq>\<^sub>m held (sel_abort_all S s)"
    and first: "io_select_future R T N S (select_futures (build_io_set rs ws es)) s = (Ok v, t)" "v \<noteq> VNil"
    and later: "held t \<subseteq>\<^sub>m held u"
    and second: "io_select_future R T N S (select_futures (build_io_set rs' ws' es')) u = (Ok w, z)" "w \<noteq> VNil"
  shows "\<exists>r io i io' i'. v = answer_with r io i \<and> w = answer_with r io' i'"
proof -
  obtain io i r t' where v: "v = answer_with r io i" and t: "t = sel_abort_all S t'" "held t' EmptyArray = Some r"
    by (rule io_select_future_cases [OF laws refl cells, of rs ws es R T s]) (use first in auto)
  have "held t' \<subseteq>\<^sub>m held u" using map_le_trans [OF keeps(2) later [unfolded t(1)]] .
  then have u: "held t' \<subseteq>\<^sub>m held (snd (sel_join_next S (map (select_body R T) ts) u))" for ts using keeps(1) by (rule map_le_trans)
  obtain io' i' r' z' where w: "w = answer_with r' io' i'" and r': "held z' EmptyArray = Some r'"
      "held (snd (sel_join_next S (map (select_body R T) (select_futures (build_io_set rs' ws' es'))) u)) \<subseteq>\<^sub>m held z'"
    by (rule io_select_future_cases [OF laws refl cells, of rs' ws' es' R T u]) (use second in auto)
  from map_le_trans [OF u r'(2)] t(2) r'(1) have "r' = r"
    unfolding map_le_def by (metis domI option.inject)
  with v w show ?thesis by blast
qed

definition sample_select_ops :: "'s select_ops" where
  "sample_select_ops = \<lparr>
     sel_join_next = (\<lambda>ts s. case ts of
        [] \<Rightarrow> (None, s)
      | t # ts \<Rightarrow> (case t s of
           (Ok v, u) \<Rightarrow> (Some (Inr (Inr v)), u)
         | (Err e, u) \<Rightarrow> (Some (Inr (Inl e)), u)
         | (Panic p, u) \<Rightarrow> (Some (Inl p), u))),
     sel_abort_all = (\<lambda>s. s)\<rparr>"

lemma sample_join_next_laws: "join_next_laws sample_select_ops"
proof -
  have "fst (sel_join_next sample_select_ops ts s) = Some (Inr r) \<Longrightarrow>
      \<exists>task \<in> set ts. \<exists>u. fst (task u) = (case r of Inl e \<Rightarrow> Err e | Inr v \<Rightarrow> Ok v)"
    for ts and s :: 's and r
    by (cases ts; cases "hd ts s" rule: prod.exhaust)
      (auto simp: sample_select_ops_def split: outcome.splits intro!: exI [of _ s])
  moreover have "(fst (sel_join_next sample_select_ops ts s) = None) = (ts = [])" for ts and s :: 's
    by (auto simp: sample_select_ops_def split: list.splits prod.splits outcome.splits)
  ultimately show ?thesis unfolding join_next_laws_def by blast
qed

lemma sample_select_body [simp]:
  "select_body sample_vm sample_io (Inr v, INTEREST_READABLE) s = (Ok (v, INTEREST_READABLE), s)"
  by (simp add: select_body_def new_with_interest_def sample_vm_def from_value_and_raw_fd_def
      ruby_io_ready_def expect_backing_def backing_ready_def INTEREST_READABLE_def effect_defs)

lemma sample_select_body_state: "snd (select_body sample_vm sample_io task s) = s"
  by (cases task; cases "fst task")
    (auto simp: select_body_def new_with_interest_def sample_vm_def from_value_and_raw_fd_def
      ruby_io_ready_def expect_backing_def backing_ready_def effect_defs)

lemma sample_join_keeps:
  "snd (sel_join_next sample_select_ops (map (select_body sample_vm sample_io) ts) s) = s"
  using sample_select_body_state
  by (cases ts) (auto simp: sample_select_ops_def split: prod.splits outcome.splits; metis snd_conv)+

definition sample_one :: "io_array Nilable option" where
  "sample_one = Some (NilableValue [Inr (VRef 5)])"

lemma sample_one_set:
  "select_futures (build_io_set sample_one None None) = [(Inr (VRef 5), INTEREST_READABLE)]"
  by (simp add: sample_one_def build_io_set_def push_given_def push_all_def new_io_set_def)

text \<open>One descriptor to read from, with a timeout of two seconds that does not expire.\<close>

theorem io_select_answers_witness:
  defines "future \<equiv> with_timeout_no_raise sample_time (Some (TimeoutDuration (from_secs 2)))
     (io_select_future sample_vm sample_io sample_cells sample_select_ops [(Inr (VRef 5), INTEREST_READABLE)])"
  shows "fst (future sample_start) \<noteq> Ok VNil \<and> (\<forall>p. fst (future sample_start) \<noteq> Panic p)"
proof -
  have deadline: "timeout_at_law (clock sample_platform)"
    by (auto simp: timeout_at_law_def sample_time_def split: prod.splits)
  have now: "instant_add (tk_now sample_time s) (from_secs 2) =
      Ok \<lparr>tv_sec = 7, tv_nsec = 7\<rparr>" for s
    by (simp add: sample_time_def instant_add_def from_secs_def Let_def)
  have expired: "fst (tk_timeout_at sample_time i f s) \<noteq> None" for i f s
    by (simp add: sample_time_def split: prod.split)
  show ?thesis
    using io_select_answers [OF sample_join_next_laws deadline sample_cells_laws,
        where scan = "\<lambda>args. Ok (sample_one, None, None, Some (TimeoutDuration (from_secs 2)))"
          and rs = sample_one and ws = None and es = None and timeout = "Some (TimeoutDuration (from_secs 2))"
          and s = sample_start]
    by (auto simp: future_def sample_one_set array_available_def sample_empty_array now expired)
qed

definition sample_select_twice :: "sample_state \<Rightarrow> (Value, error) outcome \<times> sample_state" where
  "sample_select_twice = io_select_future sample_vm sample_io sample_cells sample_select_ops
     (select_futures (build_io_set sample_one None None))"

theorem empty_slots_shared_witness:
  "\<exists>r io i io' i'. fst (sample_select_twice sample_start) = Ok (answer_with r io i) \<and>
     fst (sample_select_twice (snd (sample_select_twice sample_start))) = Ok (answer_with r io' i')"
proof -
  have available: "array_available sample_cells"
    by (simp add: array_available_def sample_empty_array)
  have ok: "\<exists>w z. sample_select_twice s = (Ok w, z) \<and> w \<noteq> VNil" for s
  proof -
    have given: "given_for INTEREST_READABLE (VRef 5) sample_one None None"
      by (simp add: given_for_def in_array_def sample_one_def)
    show ?thesis
      by (rule select_slots_answer [OF sample_cells_laws available given, of s])
        (simp add: sample_select_twice_def sample_one_set io_select_future_def sample_select_ops_def answer_with_def)
  qed
  obtain v t where v: "sample_select_twice sample_start = (Ok v, t)" "v \<noteq> VNil" using ok by blast
  obtain w z where w: "sample_select_twice t = (Ok w, z)" "w \<noteq> VNil" using ok by blast
  have "\<exists>r io i io' i'. v = answer_with r io i \<and> w = answer_with r io' i'"
    by (rule empty_slots_shared [OF sample_join_next_laws sample_cells_laws _ _ _
          v [unfolded sample_select_twice_def] _ w [unfolded sample_select_twice_def]])
      (simp_all add: available sample_join_keeps, simp add: sample_select_ops_def)
  with v w show ?thesis by auto
qed

end
