(* ===== verification/IoBuffer.thy ===== *)
theory IoBuffer
  imports Futures
begin

text \<open>
  \<open>io_buffer.rs\<close>: the bytes of a Ruby \<open>IO::Buffer\<close>. The two calls that give the address and the
  size of its memory, and that memory itself, are the fields of \<open>buffer_ops\<close>.
\<close>

record slice =
  slice_base :: "64 word"
  slice_len :: "64 word"

record 's buffer_ops =
  rb_typed_data :: "64 word \<Rightarrow> 's \<Rightarrow> bool"
  get_bytes_for_reading :: "64 word \<Rightarrow> ('s, 64 word \<times> 64 word, error) action"
  get_bytes_for_writing :: "64 word \<Rightarrow> ('s, 64 word \<times> 64 word, error) action"
  mem_load :: "64 word \<Rightarrow> nat \<Rightarrow> 's \<Rightarrow> 8 word list"
  mem_store :: "64 word \<Rightarrow> 8 word list \<Rightarrow> 's \<Rightarrow> 's"

primrec buffer_raw :: "RubyIoBuffer \<Rightarrow> 64 word" where
  "buffer_raw (RubyIoBuffer r) = r"

definition as_slice :: "'s buffer_ops \<Rightarrow> RubyIoBuffer \<Rightarrow> ('s, slice, error) action" where
  "as_slice B b = try_then (get_bytes_for_reading B (buffer_raw b)) (\<lambda>(base, size).
     ret \<lparr>slice_base = base, slice_len = size\<rparr>)"

definition as_mut_slice :: "'s buffer_ops \<Rightarrow> RubyIoBuffer \<Rightarrow> ('s, slice, error) action" where
  "as_mut_slice B b = try_then (get_bytes_for_writing B (buffer_raw b)) (\<lambda>(base, size).
     ret \<lparr>slice_base = base, slice_len = size\<rparr>)"

definition not_io_buffer :: "'s ruby_vm \<Rightarrow> Value \<Rightarrow> 's \<Rightarrow> error" where
  "not_io_buffer R v s = Error TypeError (''expected an IO::Buffer, got '' @ rb_classname R v s)"

definition try_convert_buffer ::
  "'s ruby_vm \<Rightarrow> 's buffer_ops \<Rightarrow> Value \<Rightarrow> ('s, RubyIoBuffer, error) action" where
  "try_convert_buffer R B v s = (case v of
     VRef r \<Rightarrow>
       if \<not> rb_typed_data B r s then (Err (not_io_buffer R v s), s)
       else if rb_classname R (VRef r) s \<noteq> ''IO::Buffer'' then (Err (not_io_buffer R v s), s)
       else (Ok (RubyIoBuffer r), s)
   | _ \<Rightarrow> (Err (not_io_buffer R v s), s))"

definition buffer_into_value :: "RubyIoBuffer \<Rightarrow> Value" where
  "buffer_into_value b = VRef (buffer_raw b)"

text \<open>
  A value is taken as a buffer exactly when it is a typed data object whose class is
  \<open>IO::Buffer\<close> itself (an object of a subclass is refused); the buffer is then that very value,
  and anything else is a \<open>TypeError\<close> that names its class. The state is never changed.
\<close>

theorem try_convert_buffer_exact:
  "snd (try_convert_buffer R B v s) = s \<and>
   (\<forall>b. fst (try_convert_buffer R B v s) = Ok b \<longleftrightarrow>
      (\<exists>r. v = VRef r \<and> rb_typed_data B r s \<and> rb_classname R v s = ''IO::Buffer'' \<and> buffer_into_value b = v)) \<and>
   ((\<forall>b. fst (try_convert_buffer R B v s) \<noteq> Ok b) \<longleftrightarrow>
      fst (try_convert_buffer R B v s) =
        Err (Error TypeError (''expected an IO::Buffer, got '' @ rb_classname R v s)))"
proof -
  have "buffer_into_value b = VRef r \<longleftrightarrow> b = RubyIoBuffer r" for b r
    by (cases b) (simp add: buffer_into_value_def)
  then show ?thesis
    by (auto simp: try_convert_buffer_def not_io_buffer_def split: Value.splits)
qed

end
