(* ===== verification/IoReadWrite.thy ===== *)
theory IoReadWrite
  imports Timeouts IoBuffer
begin

text \<open>
  \<open>io_read_write.rs\<close>: reading into and writing from an \<open>IO::Buffer\<close>.

  Tokio's buffered reader and writer are parameters, over the poll functions of the backing
  object: \<open>buf_read\<close> is \<open>read\<close> of a fresh \<open>BufReader\<close>, \<open>buf_write_all\<close> is \<open>write_all\<close> of a fresh
  \<open>BufWriter\<close> and gives the bytes it still holds, \<open>buf_flush\<close> flushes a writer that holds them.
  The \<open>aw_\<close> fields await a poll function. The bytes of a slice are read when they are handed
  to the writer, and stored when the reader gives them.
\<close>

section \<open>Reading and writing at least so much\<close>

record 's async_io =
  aw_read :: "('s, 8 word list poll, io_error) action \<Rightarrow> ('s, 8 word list, io_error) action"
  aw_write :: "('s, nat poll, io_error) action \<Rightarrow> ('s, nat, io_error) action"
  aw_flush :: "('s, unit poll, io_error) action \<Rightarrow> ('s, unit, io_error) action"
  buf_read :: "(nat \<Rightarrow> ('s, 8 word list, io_error) action) \<Rightarrow> nat \<Rightarrow> ('s, 8 word list, io_error) action"
  buf_write_all :: "(8 word list \<Rightarrow> ('s, nat, io_error) action) \<Rightarrow> 8 word list \<Rightarrow>
    ('s, 8 word list, io_error) action"
  buf_flush :: "(8 word list \<Rightarrow> ('s, nat, io_error) action) \<Rightarrow> ('s, unit, io_error) action \<Rightarrow>
    8 word list \<Rightarrow> ('s, unit, io_error) action"
  unknown_errno :: "32 word"

definition io_reader :: "'s async_io \<Rightarrow> 's tokio_io \<Rightarrow> BackingIo \<Rightarrow> nat \<Rightarrow> ('s, 8 word list, io_error) action" where
  "io_reader A T io n = aw_read A (poll_read T io n)"

definition io_writer :: "'s async_io \<Rightarrow> 's tokio_io \<Rightarrow> BackingIo \<Rightarrow> 8 word list \<Rightarrow> ('s, nat, io_error) action" where
  "io_writer A T io bs = aw_write A (poll_write T io bs)"

definition io_flusher :: "'s async_io \<Rightarrow> 's tokio_io \<Rightarrow> BackingIo \<Rightarrow> ('s, unit, io_error) action" where
  "io_flusher A T io = aw_flush A (poll_flush T io)"

definition assert_min :: "slice \<Rightarrow> 64 word \<Rightarrow> ('s, unit, 'e) action" where
  "assert_min buf min_len =
     (if min_len \<le> slice_len buf then ret () else panic ''assertion failed: buf.len() >= min'')"

text \<open>
  The result of the read is kept while the reader is flushed, and an error of the flush goes
  before it.
\<close>

definition read_at_least ::
  "'s async_io \<Rightarrow> 's tokio_io \<Rightarrow> 's buffer_ops \<Rightarrow> BackingIo \<Rightarrow> slice \<Rightarrow> 64 word \<Rightarrow> ('s, 64 word, io_error) action" where
  "read_at_least A T B io buf min_len =
     try_then (assert_min buf min_len) (\<lambda>u.
     match_result (buf_read A (io_reader A T io) (unat min_len))
       (\<lambda>bs. try_then (modify (mem_store B (slice_base buf) bs)) (\<lambda>u.
             try_then (io_flusher A T io) (\<lambda>u. ret (word_of_nat (length bs)))))
       (\<lambda>e. try_then (io_flusher A T io) (\<lambda>u. fail e)))"

definition write_at_least ::
  "'s async_io \<Rightarrow> 's tokio_io \<Rightarrow> 's buffer_ops \<Rightarrow> BackingIo \<Rightarrow> slice \<Rightarrow> 64 word \<Rightarrow> ('s, 64 word, io_error) action" where
  "write_at_least A T B io buf min_len =
     try_then (assert_min buf min_len) (\<lambda>u.
     try_then (gets (mem_load B (slice_base buf) (unat (slice_len buf)))) (\<lambda>data.
     try_then (buf_write_all A (io_writer A T io) data) (\<lambda>held.
     try_then (buf_flush A (io_writer A T io) (io_flusher A T io) held) (\<lambda>u.
     ret (slice_len buf)))))"

section \<open>The hooks and their futures\<close>

definition given_timeout :: "TimeoutDuration \<Rightarrow> TimeoutDuration option" where
  "given_timeout timeout = (if is_zero timeout then None else Some timeout)"

definition io_read ::
  "('j, 'w) platform \<Rightarrow> Value \<Rightarrow> RubyIoBuffer \<Rightarrow> 64 word \<Rightarrow> TimeoutDuration \<Rightarrow>
   (('j, 'w) TokioScheduler, Value, error) action" where
  "io_read P io buffer minimum_length_to_read timeout =
     try_then (new_with_interest (vm P) (io_driver P) io INTEREST_READABLE) (\<lambda>io.
     spawn_and_transfer P (WithTimeout ''io_read'' (given_timeout timeout)
       (IoReadFuture io buffer minimum_length_to_read)))"

definition io_write ::
  "('j, 'w) platform \<Rightarrow> ('j, 'w) TokioScheduler buffer_ops \<Rightarrow> Value \<Rightarrow> Value \<Rightarrow> 64 word \<Rightarrow> TimeoutDuration \<Rightarrow>
   (('j, 'w) TokioScheduler, Value, error) action" where
  "io_write P B io buffer minimum_length_to_be_written timeout =
     try_then (new_with_interest (vm P) (io_driver P) io INTEREST_WRITABLE) (\<lambda>io.
     try_then (try_convert_buffer (vm P) B buffer) (\<lambda>buffer.
     spawn_and_transfer P (WithTimeout ''io_write'' (given_timeout timeout)
       (IoWriteFuture io buffer minimum_length_to_be_written))))"

definition too_short :: "string \<Rightarrow> 64 word \<Rightarrow> slice \<Rightarrow> error" where
  "too_short verb min_len buf =
     new_base_error (''Cannot '' @ verb @ '' more than the buffer size: '' @ show_int (uint min_len) @
       '' > '' @ show_int (uint (slice_len buf)))"

definition amount :: "64 word \<Rightarrow> slice \<Rightarrow> 64 word" where
  "amount min_len buf = (if min_len = 0 then slice_len buf else min_len)"

text \<open>\<open>amt as isize\<close>, and \<open>-(errno as isize)\<close>, as Ruby integers.\<close>

definition transferred :: "64 word \<Rightarrow> Value" where
  "transferred amt = VInt (sint amt)"

definition negated_errno :: "'s async_io \<Rightarrow> io_error \<Rightarrow> Value" where
  "negated_errno A err = VInt (- sint (case raw_os_error err of Some n \<Rightarrow> n | None \<Rightarrow> unknown_errno A))"

definition io_read_body ::
  "'s async_io \<Rightarrow> 's tokio_io \<Rightarrow> 's buffer_ops \<Rightarrow> RubyIo \<Rightarrow> RubyIoBuffer \<Rightarrow> 64 word \<Rightarrow> ('s, Value, error) action" where
  "io_read_body A T B io buffer minimum_length_to_read =
     try_then (as_mut_slice B buffer) (\<lambda>buf.
     if slice_len buf < minimum_length_to_read then fail (too_short ''read'' minimum_length_to_read buf)
     else try_then (expect_backing io) (\<lambda>backing.
       match_result (read_at_least A T B backing buf (amount minimum_length_to_read buf))
         (\<lambda>amt. ret (transferred amt)) (\<lambda>err. ret (negated_errno A err))))"

definition io_read_future ::
  "'s async_io \<Rightarrow> 's tokio_io \<Rightarrow> 's fcntl_ops \<Rightarrow> 's buffer_ops \<Rightarrow> RubyIo \<Rightarrow> RubyIoBuffer \<Rightarrow> 64 word \<Rightarrow>
   ('s, Value, error) action" where
  "io_read_future A T X B io buffer minimum_length_to_read =
     bracket (with_nonblock X io) (drop_guard X) (\<lambda>nonblock.
       io_read_body A T B io buffer minimum_length_to_read)"

definition io_write_body ::
  "'s async_io \<Rightarrow> 's tokio_io \<Rightarrow> 's buffer_ops \<Rightarrow> RubyIo \<Rightarrow> RubyIoBuffer \<Rightarrow> 64 word \<Rightarrow> ('s, Value, error) action" where
  "io_write_body A T B io buffer minimum_length_to_be_written =
     try_then (as_slice B buffer) (\<lambda>data.
     if slice_len data < minimum_length_to_be_written
     then fail (too_short ''write'' minimum_length_to_be_written data)
     else try_then (expect_backing io) (\<lambda>backing.
       match_result (write_at_least A T B backing data (amount minimum_length_to_be_written data))
         (\<lambda>amt. ret (transferred amt)) (\<lambda>err. ret (negated_errno A err))))"

definition io_write_future ::
  "'s async_io \<Rightarrow> 's tokio_io \<Rightarrow> 's fcntl_ops \<Rightarrow> 's buffer_ops \<Rightarrow> RubyIo \<Rightarrow> RubyIoBuffer \<Rightarrow> 64 word \<Rightarrow>
   ('s, Value, error) action" where
  "io_write_future A T X B io buffer minimum_length_to_be_written =
     bracket (with_nonblock X io) (drop_guard X) (\<lambda>nonblock.
       io_write_body A T B io buffer minimum_length_to_be_written)"

definition io_pread :: "RawFd \<Rightarrow> 8 word list \<Rightarrow> 64 word \<Rightarrow> 64 word \<Rightarrow> 64 word \<Rightarrow> ('s, 64 word, error) action" where
  "io_pread io buffer from len offset = rtodo ''io_pread''"

definition io_pwrite :: "RawFd \<Rightarrow> 8 word list \<Rightarrow> 64 word \<Rightarrow> 64 word \<Rightarrow> 64 word \<Rightarrow> ('s, 64 word, error) action" where
  "io_pwrite io buffer from len offset = rtodo ''io_pwrite''"

section \<open>How much is read\<close>

text \<open>
  What Tokio documents of a \<open>BufReader\<close> of capacity \<open>cap\<close>: one read of the reader below it, for
  as much as asked when that is the capacity or more, else for the capacity, of which so much as
  was asked is given out and the rest is kept in the buffer.
\<close>

definition buf_read_law :: "'s async_io \<Rightarrow> nat \<Rightarrow> bool" where
  "buf_read_law A cap \<longleftrightarrow> (\<forall>inner n s. buf_read A inner n s =
     (if cap \<le> n then inner n s
      else (case inner cap s of
          (Ok bs, t) \<Rightarrow> (Ok (take n bs), t)
        | (Err e, t) \<Rightarrow> (Err e, t)
        | (Panic p, t) \<Rightarrow> (Panic p, t))))"

definition request :: "nat \<Rightarrow> 64 word \<Rightarrow> nat" where
  "request cap m = max cap (unat m)"

lemma assert_min_Ok [simp]: "m \<le> slice_len buf \<Longrightarrow> assert_min buf m = ret ()"
  by (simp add: assert_min_def)

lemma buf_read_Ok:
  assumes "buf_read_law A cap" and "inner (request cap m) s = (Ok bs, t)" and "length bs \<le> request cap m"
  shows "buf_read A inner (unat m) s = (Ok (take (unat m) bs), t)"
  using assms by (auto simp: buf_read_law_def request_def max_def split: if_splits)

lemma buf_read_fails:
  assumes "buf_read_law A cap"
  shows "inner (request cap m) s = (Err e, t) \<Longrightarrow> buf_read A inner (unat m) s = (Err e, t)"
    and "inner (request cap m) s = (Panic p, t) \<Longrightarrow> buf_read A inner (unat m) s = (Panic p, t)"
  using assms by (auto simp: buf_read_law_def request_def max_def split: if_splits)

text \<open>
  C29. \<open>read_at_least\<close> reads once: its first read decides, however few bytes that brings, and it
  gives at most \<open>min\<close> bytes. What the one read takes from the descriptor beyond \<open>min\<close> is in
  neither the buffer nor the result. An error of the flush afterwards hides the result.
\<close>

theorem read_at_least_reads_once:
  assumes law: "buf_read_law A cap" and fits: "m \<le> slice_len buf"
    and short: "length bs \<le> request cap m"
    and flush: "io_flusher A T io (mem_store B (slice_base buf) (take (unat m) bs) t) = (f, u)"
  shows "(io_reader A T io (request cap m) s = (Ok bs, t) \<longrightarrow>
       read_at_least A T B io buf m s =
         (case f of Ok x \<Rightarrow> Ok (word_of_nat (min (length bs) (unat m))) | Err e \<Rightarrow> Err e | Panic p \<Rightarrow> Panic p, u)) \<and>
    (io_reader A T io (request cap m) s = (Err e, t) \<longrightarrow>
       read_at_least A T B io buf m s =
         (case io_flusher A T io t of (Ok x, v) \<Rightarrow> (Err e, v) | (Err e', v) \<Rightarrow> (Err e', v) | (Panic p, v) \<Rightarrow> (Panic p, v)))"
proof (intro conjI impI)
  assume "io_reader A T io (request cap m) s = (Ok bs, t)"
  then show "read_at_least A T B io buf m s =
      (case f of Ok x \<Rightarrow> Ok (word_of_nat (min (length bs) (unat m))) | Err e \<Rightarrow> Err e | Panic p \<Rightarrow> Panic p, u)"
    using buf_read_Ok [OF law _ short] fits flush
    by (cases f) (simp_all add: read_at_least_def try_then_simps match_result_def modify_def try_then_def ret_def)
next
  assume "io_reader A T io (request cap m) s = (Err e, t)"
  then show "read_at_least A T B io buf m s =
      (case io_flusher A T io t of (Ok x, v) \<Rightarrow> (Err e, v) | (Err e', v) \<Rightarrow> (Err e', v) | (Panic p, v) \<Rightarrow> (Panic p, v))"
    using buf_read_fails(1) [OF law] fits
    by (simp add: read_at_least_def try_then_simps match_result_def try_then_def fail_def
        split: prod.splits outcome.splits)
qed

section \<open>How much is written\<close>

text \<open>
  What Tokio documents of a \<open>BufWriter\<close>: when \<open>write_all\<close> succeeds the bytes are written or still
  held by the writer, in order, and when \<open>flush\<close> succeeds those it held are written. \<open>sent\<close> is
  what a descriptor was given so far, by a writer and a flush that are honest about it.
\<close>

definition honest_writer ::
  "(8 word list \<Rightarrow> ('s, nat, io_error) action) \<Rightarrow> ('s, unit, io_error) action \<Rightarrow> ('s \<Rightarrow> 8 word list) \<Rightarrow> bool" where
  "honest_writer inner flush sent \<longleftrightarrow>
     (\<forall>bs s n t. inner bs s = (Ok n, t) \<longrightarrow> n \<le> length bs \<and> sent t = sent s @ take n bs) \<and>
     (\<forall>s. sent (snd (flush s)) = sent s)"

definition buf_write_law :: "'s async_io \<Rightarrow> bool" where
  "buf_write_law A \<longleftrightarrow> (\<forall>inner flush sent. honest_writer inner flush sent \<longrightarrow>
     (\<forall>bs s held t. buf_write_all A inner bs s = (Ok held, t) \<longrightarrow> sent t @ held = sent s @ bs) \<and>
     (\<forall>held s t. buf_flush A inner flush held s = (Ok (), t) \<longrightarrow> sent t = sent s @ held))"

lemma write_at_least_sent:
  assumes law: "buf_write_law A" and honest: "honest_writer (io_writer A T io) (io_flusher A T io) sent"
    and wrote: "write_at_least A T B io buf m s = (Ok n, u)"
  shows "n = slice_len buf \<and> m \<le> slice_len buf \<and>
    sent u = sent s @ mem_load B (slice_base buf) (unat (slice_len buf)) s"
proof -
  let ?data = "mem_load B (slice_base buf) (unat (slice_len buf)) s"
  from wrote have m: "m \<le> slice_len buf" and n: "n = slice_len buf"
    by (auto simp: write_at_least_def assert_min_def effect_defs split: if_splits prod.splits outcome.splits)
  from wrote m obtain held t where
    w: "buf_write_all A (io_writer A T io) ?data s = (Ok held, t)"
    and f: "buf_flush A (io_writer A T io) (io_flusher A T io) held t = (Ok (), u)"
    by (auto simp: write_at_least_def effect_defs split: prod.splits outcome.splits)
  from law honest w f have "sent t @ held = sent s @ ?data" "sent u = sent t @ held"
    unfolding buf_write_law_def by blast+
  with n m show ?thesis by simp
qed

text \<open>
  C28. A write that succeeds has written the whole buffer, in order, whatever minimum was asked
  for, and answers with its length; a minimum longer than the buffer is refused before a byte
  is written.
\<close>

theorem io_write_delivers:
  assumes law: "buf_write_law A"
    and honest: "\<And>b. backing_io io = Some b \<Longrightarrow> honest_writer (io_writer A T b) (io_flusher A T b) sent"
    and slice: "as_slice B buffer s = (Ok data, t)" and b: "backing_io io = Some b"
  shows "(slice_len data < m \<longrightarrow>
            io_write_body A T B io buffer m s =
              (Err (Error SchedulerError (''Cannot write more than the buffer size: '' @ show_int (uint m) @
                 '' > '' @ show_int (uint (slice_len data)))), t)) \<and>
         (\<forall>n u. write_at_least A T B b data (amount m data) t = (Ok n, u) \<longrightarrow> m \<le> slice_len data \<longrightarrow>
            io_write_body A T B io buffer m s = (Ok (VInt (sint (slice_len data))), u) \<and>
            sent u = sent t @ mem_load B (slice_base data) (unat (slice_len data)) t) \<and>
         (\<forall>e u. write_at_least A T B b data (amount m data) t = (Err e, u) \<longrightarrow> m \<le> slice_len data \<longrightarrow>
            io_write_body A T B io buffer m s =
              (Ok (VInt (- sint (case raw_os_error e of Some n \<Rightarrow> n | None \<Rightarrow> unknown_errno A))), u))"
proof -
  have body: "io_write_body A T B io buffer m s =
      match_result (write_at_least A T B b data (amount m data))
        (\<lambda>amt. ret (transferred amt)) (\<lambda>err. ret (negated_errno A err)) t" if "m \<le> slice_len data"
    using leD [OF that] slice b by (simp add: io_write_body_def try_then_Ok expect_backing_def ret_def)
  have refused: "io_write_body A T B io buffer m s = (Err (too_short ''write'' m data), t)" if "slice_len data < m"
    using that slice by (simp add: io_write_body_def try_then_Ok fail_def)
  show ?thesis
    using write_at_least_sent [OF law honest [OF b]]
    by (auto simp: body refused too_short_def error_defs match_result_def transferred_def negated_errno_def ret_def)
qed

text \<open>
  C30. The future of \<open>io_read\<close> on every branch. Without a backing object it panics; when the
  descriptor's flags cannot be read or set, that is its error and nothing is read. Otherwise a
  buffer that cannot be written to is its error; a minimum longer than the buffer is refused before
  a byte is read; a minimum of zero asks for the whole buffer; a failed read is not an error of
  the future but its error number, negated, and the number of the unknown error when it has none.
  Whatever happened, the last thing it does is to set the flags it read at the start.
\<close>

theorem io_read_outcomes:
  fixes A :: "'s async_io" and T :: "'s tokio_io" and X :: "'s fcntl_ops" and B :: "'s buffer_ops"
    and io :: RubyIo and buffer :: RubyIoBuffer and m :: "64 word" and s :: 's
  defines "future \<equiv> io_read_future A T X B io buffer m" and "flags_error \<equiv> \<lambda>verb fd e. Error SchedulerError
     (''Could not '' @ verb @ '' file descriptor flags for '' @ show_int (sint fd) @ '': '' @ io_message e)"
  shows "(case backing_io io of
      None \<Rightarrow> future s = (Panic ''RubyIo async_fd is None'', s)
    | Some b \<Rightarrow> let fd = as_raw_fd b in
        (case f_getfl X fd s of
           (Err e, t) \<Rightarrow> future s = (Err (flags_error ''get'' fd e), t)
         | (Panic p, t) \<Rightarrow> future s = (Panic p, t)
         | (Ok flags, t) \<Rightarrow>
             (case f_setfl X fd (flags AND oflag_all X OR O_NONBLOCK X) t of
                (Err e, u) \<Rightarrow> future s = (Err (flags_error ''set'' fd e), u)
              | (Panic p, u) \<Rightarrow> future s = (Panic p, u)
              | (Ok _, u) \<Rightarrow>
                  snd (future s) = snd (f_setfl X fd (flags AND oflag_all X) (snd (io_read_body A T B io buffer m u))) \<and>
                  fst (future s) = (case as_mut_slice B buffer u of
                      (Err e, w) \<Rightarrow> Err e
                    | (Panic p, w) \<Rightarrow> Panic p
                    | (Ok buf, w) \<Rightarrow>
                        if slice_len buf < m
                        then Err (Error SchedulerError (''Cannot read more than the buffer size: '' @ show_int (uint m) @
                               '' > '' @ show_int (uint (slice_len buf))))
                        else (case fst (read_at_least A T B b buf (if m = 0 then slice_len buf else m) w) of
                            Ok n \<Rightarrow> Ok (VInt (sint n))
                          | Err e \<Rightarrow> Ok (VInt (- sint (case raw_os_error e of Some n \<Rightarrow> n | None \<Rightarrow> unknown_errno A)))
                          | Panic p \<Rightarrow> Panic p))))) \<and>
    (fcntl_laws X fl settable \<longrightarrow> (\<forall>t. fl (snd (io_read_body A T B io buffer m t)) = fl t) \<longrightarrow> fl (snd (future s)) = fl s)"
proof (cases "backing_io io")
  case None
  then show ?thesis
    by (simp add: future_def io_read_future_def bracket_def with_nonblock_def expect_backing_def try_then_def panic_def)
next
  case (Some b)
  have body: "fst (io_read_body A T B io buffer m u) = (case as_mut_slice B buffer u of
      (Err e, w) \<Rightarrow> Err e
    | (Panic p, w) \<Rightarrow> Panic p
    | (Ok buf, w) \<Rightarrow>
        if slice_len buf < m
        then Err (Error SchedulerError (''Cannot read more than the buffer size: '' @ show_int (uint m) @
               '' > '' @ show_int (uint (slice_len buf))))
        else (case fst (read_at_least A T B b buf (if m = 0 then slice_len buf else m) w) of
            Ok n \<Rightarrow> Ok (VInt (sint n))
          | Err e \<Rightarrow> Ok (VInt (- sint (case raw_os_error e of Some n \<Rightarrow> n | None \<Rightarrow> unknown_errno A)))
          | Panic p \<Rightarrow> Panic p))" for u
    by (auto simp: io_read_body_def effect_defs expect_backing_def Some too_short_def error_defs amount_def
        transferred_def negated_errno_def split: prod.splits outcome.splits)
  have guarded: "future = bracket (new_guard X (as_raw_fd b)) (drop_guard X) (\<lambda>g. io_read_body A T B io buffer m)"
    using Some by (simp add: future_def io_read_future_def with_nonblock_def expect_backing_def try_then_simps fun_eq_iff)
  have flags: "fl (snd (future s)) = fl s"
    if laws: "fcntl_laws X fl settable" and quiet: "\<And>t. fl (snd (io_read_body A T B io buffer m t)) = fl t"
    unfolding guarded by (rule guard_bracket [OF laws, where body = "\<lambda>g. io_read_body A T B io buffer m", OF quiet])
  show ?thesis
    unfolding Some option.case Let_def body [symmetric]
    by (rule conjI, simp add: guarded bracket_def try_then_def new_guard_def map_err_def from_bits_truncate_def Let_def
        finally_do_def drop_guard_def flags_failure_def flags_error_def error_defs ret_def split: prod.split outcome.split,
        intro impI, rule flags) auto
qed

section \<open>UDP sockets\<close>

text \<open>
  What awaiting a poll function does with a panic: it passes it on.
\<close>

definition await_panics :: "'s async_io \<Rightarrow> bool" where
  "await_panics A \<longleftrightarrow>
     (\<forall>m s p t. m s = (Panic p, t) \<longrightarrow> aw_read A m s = (Panic p, t)) \<and>
     (\<forall>m s p t. m s = (Panic p, t) \<longrightarrow> aw_flush A m s = (Panic p, t))"

text \<open>
  C31. A UDP socket gets a backing object like the other sockets, but reading from it panics, so
  the task is lost and no error number is answered. The flags of the descriptor are restored
  even then.
\<close>

theorem udp_read_panics:
  assumes laws: "fcntl_laws X fl settable" and law: "buf_read_law A cap" and panics: "await_panics A"
    and slice: "\<And>t. as_mut_slice B buffer t = (Ok buf, t)" and m: "m \<le> slice_len buf"
  shows "fst (io_read_future A T X B \<lparr>io_value = v, backing_io = Some (UdpSocket fd)\<rparr> buffer m s) =
      Panic ''not yet implemented: UDP sockets are not supported yet'' \<and>
    fl (snd (io_read_future A T X B \<lparr>io_value = v, backing_io = Some (UdpSocket fd)\<rparr> buffer m s)) = fl s"
proof -
  let ?io = "\<lparr>io_value = v, backing_io = Some (UdpSocket fd)\<rparr>"
  have read: "buf_read A (io_reader A T (UdpSocket fd)) (unat n) t = (Panic udp_todo, t)" for n :: "64 word" and t
    by (rule buf_read_fails(2) [OF law])
      (use panics in \<open>simp add: io_reader_def poll_read_def await_panics_def panic_def\<close>)
  have body: "io_read_body A T B ?io buffer m t = (Panic udp_todo, t)" for t
    using m leD [OF m] slice read
    by (simp add: io_read_body_def try_then_Ok expect_backing_def ret_def match_result_def amount_def
        read_at_least_def)
  have quiet: "fl (snd (io_read_body A T B ?io buffer m t)) = fl t" for t by (simp add: body)
  have future: "io_read_future A T X B ?io buffer m =
      bracket (new_guard X fd) (drop_guard X) (\<lambda>g. io_read_body A T B ?io buffer m)"
    by (simp add: io_read_future_def with_nonblock_def expect_backing_def try_then_simps fun_eq_iff as_raw_fd_def)
  show ?thesis
    unfolding future
    by (rule guard_bracket [OF laws, where body = "\<lambda>g. io_read_body A T B ?io buffer m", OF quiet])
      (simp add: body udp_todo_def)
qed

section \<open>A sample device\<close>

text \<open>
  A device on the sample platform: what it was sent is kept in the log of the world, its
  buffers are four bytes long, and its reads bring the bytes 1 to 3.
\<close>

definition sample_sent :: "sample_state \<Rightarrow> 8 word list" where
  "sample_sent s = map (\<lambda>p. ucast (fst p)) (rev (sw_log (world s)))"

definition sample_send :: "8 word list \<Rightarrow> sample_state \<Rightarrow> sample_state" where
  "sample_send bs = on_world (\<lambda>w. w\<lparr>sw_log := rev (map (\<lambda>b. (ucast b, [])) bs) @ sw_log w\<rparr>)"

definition sample_device :: "sample_state tokio_io" where
  "sample_device = sample_io\<lparr>
     inner_poll_read := (\<lambda>io n. ret (Ready (take n [1, 2, 3]))),
     inner_poll_write := (\<lambda>io bs s. (Ok (Ready (length bs)), sample_send bs s)),
     inner_poll_flush := (\<lambda>io. ret (Ready ()))\<rparr>"

definition await_ready :: "('s, 'a poll, io_error) action \<Rightarrow> ('s, 'a, io_error) action" where
  "await_ready m s = (case m s of
     (Ok (Ready x), t) \<Rightarrow> (Ok x, t)
   | (Ok Pending, t) \<Rightarrow> (Panic ''deadlock'', t)
   | (Err e, t) \<Rightarrow> (Err e, t)
   | (Panic p, t) \<Rightarrow> (Panic p, t))"

definition sample_async :: "'s async_io" where
  "sample_async = \<lparr>
     aw_read = await_ready, aw_write = await_ready, aw_flush = await_ready,
     buf_read = (\<lambda>inner n s. if 8192 \<le> n then inner n s
        else (case inner 8192 s of
          (Ok bs, t) \<Rightarrow> (Ok (take n bs), t) | (Err e, t) \<Rightarrow> (Err e, t) | (Panic p, t) \<Rightarrow> (Panic p, t))),
     buf_write_all = (\<lambda>inner bs. ret bs),
     buf_flush = (\<lambda>inner flush held s. case inner held s of
        (Ok n, t) \<Rightarrow> if n = length held then flush t else (Err \<lparr>raw_os_error = None, io_message = []\<rparr>, t)
      | (Err e, t) \<Rightarrow> (Err e, t) | (Panic p, t) \<Rightarrow> (Panic p, t)),
     unknown_errno = 0\<rparr>"

definition sample_buffers :: "'s buffer_ops" where
  "sample_buffers = \<lparr>
     rb_typed_data = (\<lambda>r s. True),
     get_bytes_for_reading = (\<lambda>r. ret (64, 4)), get_bytes_for_writing = (\<lambda>r. ret (64, 4)),
     mem_load = (\<lambda>base n s. replicate n 42), mem_store = (\<lambda>base bs s. s)\<rparr>"

lemma sample_buf_read_law: "buf_read_law sample_async 8192"
  by (simp add: buf_read_law_def sample_async_def)

lemma sample_await_panics: "await_panics sample_async"
  by (simp add: await_panics_def sample_async_def await_ready_def)

lemma sample_buf_write_law: "buf_write_law sample_async"
proof -
  have "sent t = sent s @ held" if "honest_writer inner flush sent"
    and "buf_flush sample_async inner flush held s = (Ok (), t)"
    for inner flush sent held and s t :: 's
    using that unfolding honest_writer_def sample_async_def
    by (auto split: prod.splits outcome.splits if_splits) (metis snd_conv take_all_iff order_refl)
  then show ?thesis by (auto simp: buf_write_law_def sample_async_def ret_def)
qed

lemma byte_in_word [simp]: "(ucast (ucast b :: 64 word) :: 8 word) = b"
  by (rule bit_word_eqI) (auto simp: bit_simps dest: bit_imp_le_length)

lemma sample_honest: "honest_writer (io_writer sample_async sample_device (File 3))
    (io_flusher sample_async sample_device (File 3)) sample_sent"
  by (auto simp: honest_writer_def io_writer_def io_flusher_def sample_async_def await_ready_def
      sample_device_def poll_write_def poll_flush_def sample_sent_def sample_send_def on_world_def ret_def
      rev_map comp_def)

lemma sample_slices [simp]:
  "as_slice sample_buffers b s = (Ok \<lparr>slice_base = 64, slice_len = 4\<rparr>, s)"
  "as_mut_slice sample_buffers b s = (Ok \<lparr>slice_base = 64, slice_len = 4\<rparr>, s)"
  by (simp_all add: as_slice_def as_mut_slice_def sample_buffers_def try_then_simps ret_def)

lemma sample_write: "write_at_least sample_async sample_device sample_buffers (File 3)
    \<lparr>slice_base = 64, slice_len = 4\<rparr> 1 s = (Ok 4, sample_send [42, 42, 42, 42] s)"
proof -
  have "replicate 4 (42 :: 8 word) = [42, 42, 42, 42]" by (simp add: numeral_eq_Suc)
  then show ?thesis
    by (simp add: write_at_least_def assert_min_def effect_defs sample_buffers_def sample_async_def
        await_ready_def io_writer_def io_flusher_def sample_device_def poll_write_def poll_flush_def
        word_le_nat_alt)
qed

theorem read_at_least_reads_once_witness:
  "read_at_least sample_async sample_device sample_buffers (File 3) \<lparr>slice_base = 64, slice_len = 4\<rparr> 2
     sample_start = (Ok 2, sample_start)"
proof -
  have read: "io_reader sample_async sample_device (File 3) (request 8192 2) sample_start = (Ok [1, 2, 3], sample_start)"
    by (simp add: io_reader_def sample_async_def await_ready_def sample_device_def poll_read_def ret_def request_def)
  have flush: "io_flusher sample_async sample_device (File 3) (mem_store sample_buffers base bs s) = (Ok (), s)"
    for base bs and s :: sample_state
    by (simp add: io_flusher_def sample_async_def await_ready_def sample_device_def poll_flush_def ret_def
        sample_buffers_def)
  show ?thesis
    using read_at_least_reads_once [OF sample_buf_read_law, of 2 "\<lparr>slice_base = 64, slice_len = 4\<rparr>" "[1, 2, 3]",
        OF _ _ flush] read
    by (simp add: request_def)
qed

theorem io_write_delivers_witness:
  "io_write_body sample_async sample_device sample_buffers \<lparr>io_value = VRef 5, backing_io = Some (File 3)\<rparr>
     (RubyIoBuffer 9) 1 sample_start = (Ok (VInt 4), sample_send [42, 42, 42, 42] sample_start)"
  using io_write_delivers [OF sample_buf_write_law, where io = "\<lparr>io_value = VRef 5, backing_io = Some (File 3)\<rparr>"
      and T = sample_device and B = sample_buffers and buffer = "RubyIoBuffer 9" and s = sample_start
      and sent = sample_sent and m = 1 and b = "File 3" and t = sample_start
      and data = "\<lparr>slice_base = 64, slice_len = 4\<rparr>"]
  by (simp add: sample_honest sample_write amount_def)

theorem io_read_outcomes_witness:
  "fst (io_read_future sample_async sample_device sample_fcntl sample_buffers
     \<lparr>io_value = VRef 5, backing_io = Some (File 3)\<rparr> (RubyIoBuffer 9) 5 sample_start) =
     Err (Error SchedulerError ''Cannot read more than the buffer size: 5 > 4'') \<and>
   sample_flags (snd (io_read_future sample_async sample_device sample_fcntl sample_buffers
     \<lparr>io_value = VRef 5, backing_io = Some (File 3)\<rparr> (RubyIoBuffer 9) 5 sample_start)) = sample_flags sample_start"
proof -
  let ?io = "\<lparr>io_value = VRef 5, backing_io = Some (File 3)\<rparr>"
  have body: "io_read_body sample_async sample_device sample_buffers ?io (RubyIoBuffer 9) 5 t =
      (Err (too_short ''read'' 5 \<lparr>slice_base = 64, slice_len = 4\<rparr>), t)" for t
    by (simp add: io_read_body_def try_then_Ok fail_def)
  show ?thesis
    using io_read_outcomes [where A = sample_async and T = sample_device and X = sample_fcntl
        and B = sample_buffers and io = ?io and buffer = "RubyIoBuffer 9" and m = 5 and s = sample_start
        and fl = sample_flags and settable = 2048]
    by (simp add: body sample_fcntl_laws) (simp add: sample_fcntl_def show_int_def show_digits.simps digit_char_def char_of_def Let_def)
qed

theorem udp_read_panics_witness:
  "fst (io_read_future sample_async sample_device sample_fcntl sample_buffers
     \<lparr>io_value = VRef 5, backing_io = Some (UdpSocket 3)\<rparr> (RubyIoBuffer 9) 1 sample_start) =
     Panic ''not yet implemented: UDP sockets are not supported yet''"
  by (rule udp_read_panics [OF sample_fcntl_laws sample_buf_read_law sample_await_panics,
        where buf = "\<lparr>slice_base = 64, slice_len = 4\<rparr>", THEN conjunct1])
    (simp_all add: word_le_nat_alt)

end
