(* ===== verification/ProcessWait.thy ===== *)
theory ProcessWait
  imports Timeouts
begin

unbundle bit_operations_syntax

text \<open>
  \<open>process_wait.rs\<close>: the future that waits for a child process. It looks at the process each
  time a \<open>SIGCHLD\<close> may have come, and answers with a \<open>Process::Status\<close> it fills in itself.

  The signal stream, \<open>waitpid\<close> and the calls that make the Ruby object are the fields of
  \<open>process_ops\<close>. A poll that unwinds with a panic is \<open>Ready (Panic p)\<close> here.
\<close>

section \<open>The status object\<close>

record RbProcessStatus =
  rb_pid :: "32 word"
  rb_status :: "32 word"
  rb_error :: "32 word"

text \<open>
  \<open>sig_poll_recv\<close> answers whether the poll was pending. \<open>os_waitpid\<close> gives the raw status of a
  child, \<open>None\<close> when it is still running, or an error number.
\<close>

record 's process_ops =
  sig_new :: "('s, nat, io_error) action"
  sig_poll_recv :: "nat \<Rightarrow> 's task_context \<Rightarrow> bool \<times> 's task_context"
  wait_options :: "32 word"
  pid_from_raw :: "32 word \<Rightarrow> 32 word option"
  os_waitpid :: "32 word option \<Rightarrow> 32 word \<Rightarrow> ('s, 32 word option, 32 word) action"
  status_interns :: "'s intern_ops"
  status_new_instance :: "64 word \<Rightarrow> ('s, Value, error) action"
  status_typed_data :: "Value \<Rightarrow> 's \<Rightarrow> 64 word option"
  ruby_xmalloc :: "nat \<Rightarrow> ('s, 64 word, error) action"
  write_status :: "64 word \<Rightarrow> RbProcessStatus \<Rightarrow> 's \<Rightarrow> 's"
  set_data :: "64 word \<Rightarrow> 64 word \<Rightarrow> 's \<Rightarrow> 's"

definition unwrap_none :: string where
  "unwrap_none = ''called `Option::unwrap()` on a `None` value''"

definition unwrap_err :: string where
  "unwrap_err = ''called `Result::unwrap()` on an `Err` value''"

definition unwrap_option :: "string \<Rightarrow> 'a option \<Rightarrow> ('s, 'a, 'e) action" where
  "unwrap_option msg x = (case x of Some y \<Rightarrow> ret y | None \<Rightarrow> panic msg)"

definition build_struct_data ::
  "'s process_ops \<Rightarrow> 32 word \<Rightarrow> 32 word \<Rightarrow> 32 word \<Rightarrow> ('s, 64 word, error) action" where
  "build_struct_data os pid status err =
     try_then (ruby_xmalloc os 12) (\<lambda>ptr.
     try_then (modify (write_status os ptr \<lparr>rb_pid = pid, rb_status = status, rb_error = err\<rparr>)) (\<lambda>u.
     ret ptr))"

definition allocate :: "'s process_ops \<Rightarrow> ('s, Value, error) action" where
  "allocate os = try_then (process_status_class (status_interns os)) (\<lambda>klass. status_new_instance os klass)"

definition new_status ::
  "'s process_ops \<Rightarrow> 32 word \<Rightarrow> 32 word \<Rightarrow> 32 word \<Rightarrow> ('s, Value, error) action" where
  "new_status os pid status err =
     try_then (allocate os) (\<lambda>allocated.
     try_then (gets (status_typed_data os allocated)) (\<lambda>typed.
     try_then (unwrap_option unwrap_err typed) (\<lambda>typed_data.
     try_then (build_struct_data os pid status err) (\<lambda>ptr.
     try_then (modify (set_data os typed_data ptr)) (\<lambda>u.
     ret (VRef typed_data))))))"

section \<open>Looking at the process\<close>

record PidWaiter =
  pw_pid :: "32 word"
  pw_flags :: "32 word"
  pw_signal :: nat

definition new_waiter :: "'s process_ops \<Rightarrow> 32 word \<Rightarrow> 32 word \<Rightarrow> ('s, PidWaiter, error) action" where
  "new_waiter os pid flags =
     try_then (map_err (\<lambda>e. new_base_error (''failed to create signal watcher: '' @ io_message e)) (sig_new os))
       (\<lambda>signal. ret \<lparr>pw_pid = pid, pw_flags = flags, pw_signal = signal\<rparr>)"

definition wait_flags :: "'s process_ops \<Rightarrow> 32 word \<Rightarrow> 32 word option" where
  "wait_flags os flags = (if flags AND NOT (wait_options os) = 0 then Some flags else None)"

definition RawPid_MAX :: "32 word" where
  "RawPid_MAX = 0x7FFFFFFF"

definition wait_target :: "'s process_ops \<Rightarrow> 32 word \<Rightarrow> ('s, 32 word option, error) action" where
  "wait_target os raw_pid =
     (if raw_pid = 0 then ret None
      else if raw_pid = - 1 then
        try_then (unwrap_option unwrap_none (pid_from_raw os RawPid_MAX)) (\<lambda>p. ret (Some p))
      else if sint (- raw_pid) < sint raw_pid then
        try_then (unwrap_option unwrap_none (pid_from_raw os raw_pid)) (\<lambda>p. ret (Some p))
      else if 0 < sint raw_pid then
        try_then (unwrap_option unwrap_none (pid_from_raw os raw_pid)) (\<lambda>p. ret (Some p))
      else fail (new_base_error (''Invalid PID for process: '' @ show_int (sint raw_pid))))"

definition try_wait :: "'s process_ops \<Rightarrow> PidWaiter \<Rightarrow> ('s, Value option, error) action" where
  "try_wait os w =
     (case wait_flags os (pw_flags w) of
        None \<Rightarrow> fail (new_base_error (''invalid process wait flags: '' @ show_int (uint (pw_flags w))))
      | Some options \<Rightarrow>
          try_then (wait_target os (pw_pid w)) (\<lambda>pid.
          match_result (os_waitpid os pid options)
            (\<lambda>status. case status of
                None \<Rightarrow> ret None
              | Some s \<Rightarrow> try_then (new_status os (pw_pid w) s 0) (\<lambda>v. ret (Some v)))
            (\<lambda>errno. try_then (new_status os (- 1) 0 errno) (\<lambda>v. ret (Some v)))))"

section \<open>The future\<close>

partial_function (option) poll_pid_waiter ::
  "'s process_ops \<Rightarrow> (PidWaiter, 's, (Value, error) outcome) poll_fn" where
  "poll_pid_waiter os w cx =
     (case sig_poll_recv os (pw_signal w) cx of
        (registered_interest, cx1) \<Rightarrow>
          (case try_wait os w (outside cx1) of
             (Ok (Some status), t) \<Rightarrow> Some (Ready (Ok status), w, cx1\<lparr>outside := t\<rparr>)
           | (Ok None, t) \<Rightarrow>
               if registered_interest then Some (Pending, w, cx1\<lparr>outside := t\<rparr>)
               else poll_pid_waiter os w (cx1\<lparr>outside := t\<rparr>)
           | (Err e, t) \<Rightarrow>
               if registered_interest then Some (Pending, w, cx1\<lparr>outside := t\<rparr>)
               else poll_pid_waiter os w (cx1\<lparr>outside := t\<rparr>)
           | (Panic p, t) \<Rightarrow> Some (Ready (Panic p), w, cx1\<lparr>outside := t\<rparr>)))"

text \<open>The \<open>async\<close> block of \<open>process_wait\<close>, before and after it has made its waiter.\<close>

datatype process_state = NotStarted "32 word" "32 word" | Waiting PidWaiter

definition poll_waiting ::
  "'s process_ops \<Rightarrow> (PidWaiter, 's, (Value, error) outcome) poll_fn \<Rightarrow>
   (process_state, 's, (Value, error) outcome) poll_fn" where
  "poll_waiting os poll_waiter st cx = (case st of
     Waiting w \<Rightarrow> map_option (\<lambda>(r, w', cx'). (r, Waiting w', cx')) (poll_waiter w cx)
   | NotStarted pid flags \<Rightarrow>
       (case new_waiter os pid flags (outside cx) of
          (Ok w, t) \<Rightarrow> map_option (\<lambda>(r, w', cx'). (r, Waiting w', cx')) (poll_waiter w (cx\<lparr>outside := t\<rparr>))
        | (Err e, t) \<Rightarrow> Some (Ready (Err e), st, cx\<lparr>outside := t\<rparr>)
        | (Panic p, t) \<Rightarrow> Some (Ready (Panic p), st, cx\<lparr>outside := t\<rparr>)))"

definition poll_process_future :: "'s process_ops \<Rightarrow> (process_state, 's, (Value, error) outcome) poll_fn" where
  "poll_process_future os = poll_waiting os (poll_pid_waiter os)"

definition process_wait ::
  "('j, 'w) platform \<Rightarrow> 32 word \<Rightarrow> 32 word \<Rightarrow> (('j, 'w) TokioScheduler, Value, error) action" where
  "process_wait P pid flags = spawn_and_transfer P (ProcessFuture pid flags)"

section \<open>Registered before it looks\<close>

text \<open>
  A waiter is armed when the signal stream was pending, and so had taken the waker, before the
  process was looked at for the last time, and that look did not find it finished.
\<close>

definition looked_after_registering ::
  "'s process_ops \<Rightarrow> PidWaiter \<Rightarrow> 's task_context \<Rightarrow> bool" where
  "looked_after_registering os w cx \<longleftrightarrow>
     (\<exists>cx0 cx1 r t. sig_poll_recv os (pw_signal w) cx0 = (True, cx1) \<and>
        try_wait os w (outside cx1) = (r, t) \<and> (r = Ok None \<or> (\<exists>e. r = Err e)) \<and> cx = cx1\<lparr>outside := t\<rparr>)"

lemma poll_pid_waiter_inductive:
  assumes found: "\<And>cx b cx1 v t. sig_poll_recv os (pw_signal w) cx = (b, cx1) \<Longrightarrow>
      try_wait os w (outside cx1) = (Ok (Some v), t) \<Longrightarrow> Q (Ready (Ok v)) (cx1\<lparr>outside := t\<rparr>)"
    and unwound: "\<And>cx b cx1 p t. sig_poll_recv os (pw_signal w) cx = (b, cx1) \<Longrightarrow>
      try_wait os w (outside cx1) = (Panic p, t) \<Longrightarrow> Q (Ready (Panic p)) (cx1\<lparr>outside := t\<rparr>)"
    and waiting: "\<And>cx cx1 r t. sig_poll_recv os (pw_signal w) cx = (True, cx1) \<Longrightarrow>
      try_wait os w (outside cx1) = (r, t) \<Longrightarrow> r = Ok None \<or> (\<exists>e. r = Err e) \<Longrightarrow>
      Q Pending (cx1\<lparr>outside := t\<rparr>)"
    and ret: "poll_pid_waiter os w cx = Some (r, w', cx')"
  shows "w' = w \<and> Q r cx'"
proof -
  have "os' = os \<longrightarrow> w0 = w \<longrightarrow> (case out of (r, w', cx') \<Rightarrow> w' = w \<and> Q r cx')"
    if "poll_pid_waiter os' w0 cx = Some out" for os' w0 cx out
  proof (rule poll_pid_waiter.raw_induct
      [where P = "\<lambda>os' w0 cx out. os' = os \<longrightarrow> w0 = w \<longrightarrow> (case out of (r, w', cx') \<Rightarrow> w' = w \<and> Q r cx')",
        OF _ that])
    fix f os' w0 cx out
    assume IH: "\<And>os' w0 cx out. f os' w0 cx = Some out \<Longrightarrow>
        os' = os \<longrightarrow> w0 = w \<longrightarrow> (case out of (r, w', cx') \<Rightarrow> w' = w \<and> Q r cx')"
      and eq: "(case sig_poll_recv os' (pw_signal w0) cx of
        (registered_interest, cx1) \<Rightarrow>
          (case try_wait os' w0 (outside cx1) of
             (Ok (Some status), t) \<Rightarrow> Some (Ready (Ok status), w0, cx1\<lparr>outside := t\<rparr>)
           | (Ok None, t) \<Rightarrow>
               if registered_interest then Some (Pending, w0, cx1\<lparr>outside := t\<rparr>)
               else f os' w0 (cx1\<lparr>outside := t\<rparr>)
           | (Err e, t) \<Rightarrow>
               if registered_interest then Some (Pending, w0, cx1\<lparr>outside := t\<rparr>)
               else f os' w0 (cx1\<lparr>outside := t\<rparr>)
           | (Panic p, t) \<Rightarrow> Some (Ready (Panic p), w0, cx1\<lparr>outside := t\<rparr>))) = Some out"
    obtain b cx1 where sig: "sig_poll_recv os' (pw_signal w0) cx = (b, cx1)" by fastforce
    obtain r t where look: "try_wait os' w0 (outside cx1) = (r, t)" by fastforce
    show "os' = os \<longrightarrow> w0 = w \<longrightarrow> (case out of (r, w', cx') \<Rightarrow> w' = w \<and> Q r cx')"
    proof (intro impI)
      assume os: "os' = os" and w: "w0 = w"
      note sig = sig [unfolded os w] and look = look [unfolded os w]
      show "case out of (r, w', cx') \<Rightarrow> w' = w \<and> Q r cx'"
        using eq found [OF sig] unwound [OF sig] waiting IH sig look
        by (cases r; cases b) (auto simp: os w split: option.splits)
    qed
  qed
  from this [OF ret] show ?thesis by simp
qed

lemma poll_pid_waiter_pending:
  assumes "poll_pid_waiter os w cx = Some (Pending, w', cx')"
  shows "w' = w \<and> looked_after_registering os w' cx'"
proof -
  have "w' = w \<and> ((Pending :: (Value, error) outcome poll) = Pending \<longrightarrow>
      looked_after_registering os w cx')"
    by (rule poll_pid_waiter_inductive
        [where Q = "\<lambda>r cx. r = Pending \<longrightarrow> looked_after_registering os w cx", OF _ _ _ assms])
      (simp_all, unfold looked_after_registering_def, blast)
  then show ?thesis by simp
qed

interpretation pid_waiter: future_contract "poll_pid_waiter os" "looked_after_registering os" for os
  by unfold_locales (simp add: poll_pid_waiter_pending)

text \<open>
  C23. No signal is lost. However often it was polled, a waiter that is pending has registered
  with the signal stream and only then looked at the process, and found it running (or got an
  error): a child that ends after the look wakes the waiter.
\<close>

theorem pid_waiter_registers_first:
  assumes "poll_times (poll_pid_waiter os) n w cx = Some (Pending, w', cx')"
  shows "\<exists>cx0 cx1 r t. sig_poll_recv os (pw_signal w') cx0 = (True, cx1) \<and>
    try_wait os w' (outside cx1) = (r, t) \<and> (r = Ok None \<or> (\<exists>e. r = Err e)) \<and> cx' = cx1\<lparr>outside := t\<rparr>"
  using pid_waiter.poll_times_armed [OF assms] by (simp add: looked_after_registering_def)

definition finite_signals :: "'s process_ops \<Rightarrow> PidWaiter \<Rightarrow> ('s task_context \<Rightarrow> nat) \<Rightarrow> bool" where
  "finite_signals os w left \<longleftrightarrow>
     (\<forall>cx cx1. sig_poll_recv os (pw_signal w) cx = (False, cx1) \<longrightarrow> left cx1 < left cx) \<and>
     (\<forall>cx. left (cx\<lparr>outside := snd (try_wait os w (outside cx))\<rparr>) \<le> left cx)"

text \<open>
  C24. A poll returns when the signals that were delivered run out: every time around the loop
  takes one of them.
\<close>

theorem pid_waiter_poll_returns:
  assumes "finite_signals os w left"
  shows "\<exists>r cx'. poll_pid_waiter os w cx = Some (r, w, cx')"
proof (induction "left cx" arbitrary: cx rule: less_induct)
  case less
  obtain b cx1 where sig: "sig_poll_recv os (pw_signal w) cx = (b, cx1)" by fastforce
  obtain r t where look: "try_wait os w (outside cx1) = (r, t)" by fastforce
  have "\<exists>r cx'. poll_pid_waiter os w (cx1\<lparr>outside := t\<rparr>) = Some (r, w, cx')" if "\<not> b"
  proof (rule less.hyps)
    have "left cx1 < left cx" using assms sig that by (simp add: finite_signals_def)
    moreover have "left (cx1\<lparr>outside := t\<rparr>) \<le> left cx1"
      using assms look unfolding finite_signals_def by (metis snd_conv)
    ultimately show "left (cx1\<lparr>outside := t\<rparr>) < left cx" by simp
  qed
  then show ?case
    using sig look by (cases r) (auto simp: poll_pid_waiter.simps [of os w cx] split: option.splits)
qed

section \<open>Which child is waited for\<close>

text \<open>What \<open>rustix\<close> documents of \<open>Pid::from_raw\<close>: every positive number is a process number.\<close>

definition pid_law :: "'s process_ops \<Rightarrow> bool" where
  "pid_law os \<longleftrightarrow> (\<forall>p. 0 < sint p \<longrightarrow> pid_from_raw os p = Some p)"

lemma sint_neg: "- (2 ^ 31) < sint p \<Longrightarrow> sint (- p :: 32 word) = - sint p"
  using sint_lt [of p] by (simp add: sint_word_ariths signed_take_bit_int_eq_self)

lemma wrapping_neg_less: "sint (- p) < sint p \<longleftrightarrow> 0 < sint (p :: 32 word)"
proof (cases "sint p = - (2 ^ 31)")
  case True
  then show ?thesis using sint_ge [of "- p"] by simp
next
  case False
  with sint_ge [of p] show ?thesis by (simp add: sint_neg)
qed

lemma wait_target_value:
  assumes "pid_law os"
  shows "wait_target os p s =
    (if p = 0 then (Ok None, s)
     else if p = - 1 then (Ok (Some RawPid_MAX), s)
     else if 0 < sint p then (Ok (Some p), s)
     else (Err (new_base_error (''Invalid PID for process: '' @ show_int (sint p))), s))"
proof -
  have "0 < sint RawPid_MAX" by (simp add: RawPid_MAX_def)
  with assms show ?thesis
    by (auto simp: wait_target_def pid_law_def wrapping_neg_less unwrap_option_def effect_defs)
qed

text \<open>
  C25. Which child a number stands for: 0 is the group of the caller, -1 is the largest process
  number (the one \<open>rustix\<close> reads as any child), a positive number is that child; every number
  below -1 is refused, the smallest one included, whose negation is itself. No number panics,
  and unknown option bits are refused before the number is looked at.
\<close>

theorem wait_request:
  assumes law: "pid_law os"
  shows "try_wait os w s =
    (if pw_flags w AND NOT (wait_options os) \<noteq> 0
     then (Err (Error SchedulerError (''invalid process wait flags: '' @ show_int (uint (pw_flags w)))), s)
     else if sint (pw_pid w) < - 1
     then (Err (Error SchedulerError (''Invalid PID for process: '' @ show_int (sint (pw_pid w)))), s)
     else
       (let target = (if pw_pid w = 0 then None else if pw_pid w = - 1 then Some 0x7FFFFFFF else Some (pw_pid w)) in
        case os_waitpid os target (pw_flags w) s of
          (Ok None, t) \<Rightarrow> (Ok None, t)
        | (Ok (Some raw), t) \<Rightarrow> try_then (new_status os (pw_pid w) raw 0) (\<lambda>v. ret (Some v)) t
        | (Err errno, t) \<Rightarrow> try_then (new_status os (- 1) 0 errno) (\<lambda>v. ret (Some v)) t
        | (Panic p, t) \<Rightarrow> (Panic p, t)))"
proof -
  have "sint p < - 1 \<longleftrightarrow> p \<noteq> 0 \<and> p \<noteq> - 1 \<and> \<not> 0 < sint p" for p :: "32 word"
  proof -
    have "sint p = 0 \<longleftrightarrow> p = 0" "sint p = - 1 \<longleftrightarrow> p = - 1"
      by (metis signed_0 signed_word_eqI, metis signed_minus_1 signed_word_eqI)
    then show ?thesis by auto
  qed
  then show ?thesis
    by (auto simp: try_wait_def wait_flags_def wait_target_value [OF law] error_defs fail_def try_then_def
        match_result_def RawPid_MAX_def ret_def Let_def split: prod.splits outcome.splits option.splits)
qed

text \<open>
  C26. A wait with unknown option bits, or for a number below -1, never ends: \<open>try_wait\<close> gives an
  error each time, the poll drops the error, and no poll is ever ready, whatever happens to
  the children.
\<close>

theorem refused_wait_never_ready:
  assumes law: "pid_law os"
    and bad: "pw_flags w AND NOT (wait_options os) \<noteq> 0 \<or> sint (pw_pid w) < - 1"
    and polled: "poll_times (poll_pid_waiter os) n w cx = Some (r, w', cx')"
  shows "r = Pending"
proof -
  have refused: "\<exists>e. try_wait os w s = (Err e, s)" for s
    using bad by (cases "wait_flags os (pw_flags w)")
      (auto simp: try_wait_def wait_flags_def wait_target_value [OF law] fail_def try_then_def
        split: if_splits)
  have one: "r = Pending \<and> w' = w" if "poll_pid_waiter os w cx = Some (r, w', cx')" for cx r w' cx'
    using poll_pid_waiter_inductive [where Q = "\<lambda>r cx. r = Pending", OF _ _ _ that] refused
    by (metis Pair_inject outcome.distinct(1) outcome.distinct(5))
  show ?thesis using polled
    by (induction n arbitrary: cx) (auto split: option.splits prod.splits poll.splits dest: one)
qed

section \<open>What is reported\<close>

text \<open>
  What the calls that make a Ruby object do: the new object is typed data, memory is given at
  an address, and what was written through the object's pointer is found there.
\<close>

definition status_laws :: "'s process_ops \<Rightarrow> ('s \<Rightarrow> Value \<Rightarrow> RbProcessStatus option) \<Rightarrow> bool" where
  "status_laws os report \<longleftrightarrow>
     (\<forall>k s v t. status_new_instance os k s = (Ok v, t) \<longrightarrow> (\<exists>r. status_typed_data os v t = Some r)) \<and>
     (\<forall>ptr st r s. report (set_data os r ptr (write_status os ptr st s)) (VRef r) = Some st)"

lemma new_status_reports:
  assumes "status_laws os report" and "new_status os pid status err s = (Ok v, t)"
  shows "report t v = Some \<lparr>rb_pid = pid, rb_status = status, rb_error = err\<rparr>"
  using assms unfolding status_laws_def
  by (auto simp: new_status_def allocate_def build_struct_data_def effect_defs unwrap_option_def
      split: prod.splits outcome.splits option.splits)

lemma match_result_OkE:
  assumes "match_result m k h s = (Ok y, u)"
  obtains x t where "m s = (Ok x, t)" "k x t = (Ok y, u)" | e t where "m s = (Err e, t)" "h e t = (Ok y, u)"
  using assms by (auto simp: match_result_def split: prod.splits outcome.splits)

lemma try_wait_status:
  assumes "try_wait os w s = (Ok (Some v), t)"
  shows "\<exists>target u t'. (\<exists>raw. os_waitpid os target (pw_flags w) u = (Ok (Some raw), t') \<and>
            new_status os (pw_pid w) raw 0 t' = (Ok v, t)) \<or>
          (\<exists>errno. os_waitpid os target (pw_flags w) u = (Err errno, t') \<and>
            new_status os (- 1) 0 errno t' = (Ok v, t))"
proof -
  have some: "m t' = (Ok v, t)" if "try_then m (\<lambda>v. ret (Some v)) t' = (Ok (Some v), t)" for m :: "('a, Value, error) action" and t'
    using that by (auto simp: effect_defs split: prod.splits outcome.splits)
  from assms have "wait_flags os (pw_flags w) = Some (pw_flags w)"
    by (auto simp: try_wait_def wait_flags_def fail_def split: if_splits)
  with assms obtain target u where
    "match_result (os_waitpid os target (pw_flags w))
       (\<lambda>status. case status of None \<Rightarrow> ret None
          | Some s \<Rightarrow> try_then (new_status os (pw_pid w) s 0) (\<lambda>v. ret (Some v)))
       (\<lambda>errno. try_then (new_status os (- 1) 0 errno) (\<lambda>v. ret (Some v))) u = (Ok (Some v), t)"
    by (auto simp: try_wait_def elim: try_then_OkE)
  then show ?thesis
  proof (cases rule: match_result_OkE)
    case (1 status t')
    then obtain raw where "status = Some raw" by (cases status) (auto simp: ret_def)
    with 1 some [of "new_status os (pw_pid w) raw 0" t'] show ?thesis by auto
  next
    case (2 errno t')
    with some [of "new_status os (- 1) 0 errno" t'] show ?thesis by blast
  qed
qed

text \<open>
  C27. The status that a ready waiter reports: for a child that ended, its raw status under the
  number that was asked for, which is 0 or -1 when any child was asked for and not the number
  of the child; when \<open>waitpid\<close> fails, the number -1 with the error.
\<close>

theorem reported_status:
  assumes laws: "status_laws os report"
    and ready: "poll_pid_waiter os w cx = Some (Ready (Ok v), w', cx')"
  shows "\<exists>target u t. (\<exists>raw. os_waitpid os target (pw_flags w) u = (Ok (Some raw), t) \<and>
            report (outside cx') v = Some \<lparr>rb_pid = pw_pid w, rb_status = raw, rb_error = 0\<rparr>) \<or>
          (\<exists>errno. os_waitpid os target (pw_flags w) u = (Err errno, t) \<and>
            report (outside cx') v = Some \<lparr>rb_pid = - 1, rb_status = 0, rb_error = errno\<rparr>)"
proof -
  define Q where "Q = (\<lambda>(r :: (Value, error) outcome poll) (cx :: 'a task_context). \<forall>v. r = Ready (Ok v) \<longrightarrow>
    (\<exists>target u t. (\<exists>raw. os_waitpid os target (pw_flags w) u = (Ok (Some raw), t) \<and>
            report (outside cx) v = Some \<lparr>rb_pid = pw_pid w, rb_status = raw, rb_error = 0\<rparr>) \<or>
          (\<exists>errno. os_waitpid os target (pw_flags w) u = (Err errno, t) \<and>
            report (outside cx) v = Some \<lparr>rb_pid = - 1, rb_status = 0, rb_error = errno\<rparr>)))"
  have "Q (Ready (Ok v)) cx'"
  proof (rule poll_pid_waiter_inductive [where Q = Q, OF _ _ _ ready, THEN conjunct2])
    fix cx cx1 :: "'a task_context" and b v t
    assume "try_wait os w (outside cx1) = (Ok (Some v), t)"
    from try_wait_status [OF this] show "Q (Ready (Ok v)) (cx1\<lparr>outside := t\<rparr>)"
      using new_status_reports [OF laws] by (auto simp: Q_def) blast+
  qed (auto simp: Q_def)
  then show ?thesis by (simp add: Q_def)
qed

section \<open>A sample child\<close>

text \<open>
  A child that \<open>waitpid\<close> answers \<open>answer\<close> for, and no signal ever; the state is the status
  object, once it is made.
\<close>

definition sample_process :: "32 word option \<Rightarrow> RbProcessStatus option process_ops" where
  "sample_process answer = \<lparr>
     sig_new = ret 0, sig_poll_recv = (\<lambda>n cx. (True, cx)), wait_options = 3, pid_from_raw = Some,
     os_waitpid = (\<lambda>target options. ret answer),
     status_interns = sample_interns (\<lambda>s. Map.empty) (\<lambda>c s. s),
     status_new_instance = (\<lambda>k. ret (VRef 8)), status_typed_data = (\<lambda>v s. Some 8),
     ruby_xmalloc = (\<lambda>n. ret 64), write_status = (\<lambda>ptr st s. Some st), set_data = (\<lambda>r ptr s. s)\<rparr>"

abbreviation sample_context :: "RbProcessStatus option task_context" where
  "sample_context \<equiv> \<lparr>woken = False, outside = None\<rparr>"

lemma sample_pid_law: "pid_law (sample_process a)"
  by (simp add: pid_law_def sample_process_def)

lemma sample_status_class: "\<exists>k. process_status_class (sample_interns (\<lambda>s. Map.empty) (\<lambda>c s. s)) s = (Ok k, s)"
  by (simp add: process_status_class_def registered_def unwrap_ok_def expect_ok_def sample_interns_def effect_defs)

lemma sample_allocate [simp]: "allocate (sample_process a) s = (Ok (VRef 8), s)"
  using sample_status_class [of s] by (auto simp: allocate_def sample_process_def try_then_Ok ret_def)

lemma sample_try_wait:
  "try_wait (sample_process None) \<lparr>pw_pid = 7, pw_flags = 1, pw_signal = 0\<rparr> s = (Ok None, s)"
  "try_wait (sample_process (Some 256)) \<lparr>pw_pid = - 1, pw_flags = 1, pw_signal = 0\<rparr> s =
     (Ok (Some (VRef 8)), Some \<lparr>rb_pid = - 1, rb_status = 256, rb_error = 0\<rparr>)"
  "try_wait (sample_process a) \<lparr>pw_pid = - 2, pw_flags = 1, pw_signal = 0\<rparr> s =
     (Err (new_base_error ''Invalid PID for process: -2''), s)"
  by (simp_all add: try_wait_def wait_flags_def wait_target_def sample_process_def unwrap_option_def
      effect_defs new_status_def sample_allocate [unfolded sample_process_def] build_struct_data_def show_int_def show_digits.simps
      digit_char_def char_of_def)

theorem pid_waiter_registers_first_witness:
  "\<exists>cx1 r t. try_wait (sample_process None) \<lparr>pw_pid = 7, pw_flags = 1, pw_signal = 0\<rparr> (outside cx1) = (r, t) \<and>
     (r = Ok None \<or> (\<exists>e. r = Err e)) \<and> sample_context = cx1\<lparr>outside := t\<rparr>"
proof -
  have "sig_poll_recv (sample_process None) 0 cx = (True, cx)" for cx by (simp add: sample_process_def)
  then have "poll_times (poll_pid_waiter (sample_process None)) 0 \<lparr>pw_pid = 7, pw_flags = 1, pw_signal = 0\<rparr> sample_context =
      Some (Pending, \<lparr>pw_pid = 7, pw_flags = 1, pw_signal = 0\<rparr>, sample_context)"
    by (simp add: poll_pid_waiter.simps sample_try_wait)
  from pid_waiter_registers_first [OF this] show ?thesis by blast
qed

theorem pid_waiter_poll_returns_witness:
  "\<exists>r cx'. poll_pid_waiter (sample_process None) \<lparr>pw_pid = 7, pw_flags = 1, pw_signal = 0\<rparr> sample_context =
     Some (r, \<lparr>pw_pid = 7, pw_flags = 1, pw_signal = 0\<rparr>, cx')"
  by (rule pid_waiter_poll_returns [where left = "\<lambda>cx. 0"])
    (simp add: finite_signals_def sample_process_def)

theorem wait_request_witness:
  "try_wait (sample_process None) \<lparr>pw_pid = 0x80000000, pw_flags = 1, pw_signal = 0\<rparr> None =
     (Err (Error SchedulerError (''Invalid PID for process: '' @ show_int (- 2147483648))), None)"
  using wait_request [OF sample_pid_law, of None "\<lparr>pw_pid = 0x80000000, pw_flags = 1, pw_signal = 0\<rparr>"]
  by (simp add: sample_process_def)

theorem refused_wait_never_ready_witness:
  "\<exists>w' cx'. poll_pid_waiter (sample_process (Some 256)) \<lparr>pw_pid = - 2, pw_flags = 1, pw_signal = 0\<rparr> sample_context =
     Some (Pending, w', cx')"
proof -
  let ?w = "\<lparr>pw_pid = - 2, pw_flags = 1, pw_signal = 0\<rparr>"
  have "sig_poll_recv (sample_process (Some 256)) 0 cx = (True, cx)" for cx by (simp add: sample_process_def)
  then obtain r w' cx' where "poll_pid_waiter (sample_process (Some 256)) ?w sample_context = Some (r, w', cx')"
    by (simp add: poll_pid_waiter.simps sample_try_wait)
  moreover from this have "r = Pending"
    using refused_wait_never_ready [OF sample_pid_law, of ?w _ 0] by simp
  ultimately show ?thesis by blast
qed

theorem reported_status_witness:
  "\<exists>target u t. os_waitpid (sample_process (Some 256)) target 1 u = (Ok (Some 256), t)"
proof -
  have laws: "status_laws (sample_process (Some 256)) (\<lambda>s v. s)"
    by (simp add: status_laws_def sample_process_def)
  have "sig_poll_recv (sample_process (Some 256)) 0 cx = (True, cx)" for cx by (simp add: sample_process_def)
  then have "poll_pid_waiter (sample_process (Some 256)) \<lparr>pw_pid = - 1, pw_flags = 1, pw_signal = 0\<rparr> sample_context =
      Some (Ready (Ok (VRef 8)), \<lparr>pw_pid = - 1, pw_flags = 1, pw_signal = 0\<rparr>,
        \<lparr>woken = False, outside = Some \<lparr>rb_pid = - 1, rb_status = 256, rb_error = 0\<rparr>\<rparr>)"
    by (simp add: poll_pid_waiter.simps sample_try_wait)
  from reported_status [OF laws this] show ?thesis by (auto simp: sample_process_def ret_def)
qed

end
