(* ===== verification/AddressResolve.thy ===== *)
theory AddressResolve
  imports Timeouts
begin

text \<open>
  \<open>address_resolve.rs\<close>: which part of a host name is looked up. The look-up itself and the
  growing of the Ruby array are the fields of \<open>net_ops\<close>; a socket address is the text of its IP
  and its port.
\<close>

section \<open>Splitting a host name\<close>

text \<open>\<open>str::split\<close> and \<open>str::splitn(2, _)\<close> with a character.\<close>

fun split_on :: "char \<Rightarrow> string \<Rightarrow> string list" where
  "split_on c [] = [[]]"
| "split_on c (x # xs) =
     (if x = c then [] # split_on c xs
      else (case split_on c xs of [] \<Rightarrow> [[x]] | p # ps \<Rightarrow> (x # p) # ps))"

fun splitn_2 :: "char \<Rightarrow> string \<Rightarrow> string list" where
  "splitn_2 c [] = [[]]"
| "splitn_2 c (x # xs) =
     (if x = c then [[], xs]
      else (case splitn_2 c xs of [] \<Rightarrow> [[x]] | p # ps \<Rightarrow> (x # p) # ps))"

lemma split_on_first: "\<exists>ps. split_on c s = takeWhile (\<lambda>x. x \<noteq> c) s # ps"
  by (induction s) (auto split: list.splits)

lemma splitn_2_parts:
  "splitn_2 c s = (if c \<in> set s
     then [takeWhile (\<lambda>x. x \<noteq> c) s, tl (dropWhile (\<lambda>x. x \<noteq> c) s)] else [s])"
  by (induction s) auto

section \<open>The hook\<close>

record 's net_ops =
  lookup_host :: "string \<Rightarrow> nat \<Rightarrow> ('s, (string \<times> nat) list, string) action"
  ary_push :: "Value list \<Rightarrow> Value \<Rightarrow> ('s, Value list, error) action"

text \<open>\<open>to_text\<close> is \<open>RString::to_string\<close>, which refuses a string that is not valid text.\<close>

definition address_resolve ::
  "('j, 'w) platform \<Rightarrow> (Value \<Rightarrow> (string, error) outcome) \<Rightarrow> Value \<Rightarrow> (('j, 'w) TokioScheduler, Value, error) action" where
  "address_resolve P to_text hostname =
     try_then (lift_outcome (to_text hostname)) (\<lambda>hostname. spawn_and_transfer P (AddressFuture hostname))"

fun push_addresses :: "'s net_ops \<Rightarrow> Value list \<Rightarrow> (string \<times> nat) list \<Rightarrow> ('s, Value list, error) action" where
  "push_addresses N addresses [] = ret addresses"
| "push_addresses N addresses ((ip, port) # rest) =
     try_then (ary_push N addresses (VStr ip)) (\<lambda>addresses. push_addresses N addresses rest)"

definition resolve_error :: "string \<Rightarrow> error" where
  "resolve_error e = new_base_error (''Could not resolve hostname: '' @ e)"

definition address_future :: "'s net_ops \<Rightarrow> string \<Rightarrow> ('s, Value, error) action" where
  "address_future N hostname =
     (let hostname = (case split_on (CHR ''%'') hostname of h # hs \<Rightarrow> h | [] \<Rightarrow> hostname) in
      case splitn_2 (CHR '':'') hostname of
        [] \<Rightarrow> ret (VArr [])
      | [host] \<Rightarrow>
          try_then (map_err resolve_error (lookup_host N host 80)) (\<lambda>host_lookup.
          try_then (push_addresses N [] host_lookup) (\<lambda>addresses. ret (VArr addresses)))
      | host # port # rest \<Rightarrow> ret (VArr []))"

section \<open>What is looked up\<close>

definition pushes :: "'s net_ops \<Rightarrow> bool" where
  "pushes N \<longleftrightarrow> (\<forall>vs v s. ary_push N vs v s = (Ok (vs @ [v]), s))"

lemma push_addresses_all:
  "pushes N \<Longrightarrow> push_addresses N vs addrs s = (Ok (vs @ map (\<lambda>a. VStr (fst a)) addrs), s)"
  by (induction addrs arbitrary: vs) (auto simp: pushes_def try_then_Ok ret_def)

text \<open>
  C38. A host name is cut at its first \<open>%\<close>. When what is left holds a colon, as every IPv6 address
  does, the answer is the empty array and nothing is looked up; otherwise exactly that part is
  looked up, and the answer lists the IPs found, in order, or an error: never \<open>nil\<close>.
\<close>

theorem address_lookup_exact:
  assumes "pushes N"
  shows "address_future N hostname s =
    (let host = takeWhile (\<lambda>c. c \<noteq> CHR ''%'') hostname in
     if CHR '':'' \<in> set host then (Ok (VArr []), s)
     else (case lookup_host N host 80 s of
         (Ok found, t) \<Rightarrow> (Ok (VArr (map (\<lambda>a. VStr (fst a)) found)), t)
       | (Err e, t) \<Rightarrow> (Err (Error SchedulerError (''Could not resolve hostname: '' @ e)), t)
       | (Panic p, t) \<Rightarrow> (Panic p, t)))"
proof -
  obtain ps where "split_on (CHR ''%'') hostname = takeWhile (\<lambda>c. c \<noteq> CHR ''%'') hostname # ps"
    using split_on_first by blast
  then show ?thesis
    by (auto simp: address_future_def splitn_2_parts Let_def try_then_def map_err_def resolve_error_def
        error_defs push_addresses_all [OF assms] ret_def split: prod.splits outcome.splits)
qed

definition sample_net :: "'s net_ops" where
  "sample_net = \<lparr>
     lookup_host = (\<lambda>host port. ret [(''10.0.0.1'', port), (''10.0.0.2'', port)]),
     ary_push = (\<lambda>vs v. ret (vs @ [v]))\<rparr>"

theorem address_lookup_exact_witness:
  "fst (address_future sample_net ''db%eth0'' ()) = Ok (VArr [VStr ''10.0.0.1'', VStr ''10.0.0.2'']) \<and>
   address_future sample_net ''fe80::1%eth0'' () = (Ok (VArr []), ())"
proof -
  have "pushes sample_net" by (simp add: pushes_def sample_net_def ret_def)
  from address_lookup_exact [OF this, of "''db%eth0''" "()"] address_lookup_exact [OF this, of "''fe80::1%eth0''" "()"]
  show ?thesis by (simp add: sample_net_def ret_def Let_def)
qed

end
