(* ===== verification/FiberSpawn.thy ===== *)
theory FiberSpawn
  imports Timeouts
begin

text \<open>
  \<open>fiber_spawn.rs\<close>: running a block in a new fiber. From the root fiber the block is given to the
  new fiber as it is; from any other fiber it is wrapped in a closure (\<open>ReturningProc\<close>), whose
  body is \<open>returning_body\<close> and which gives control back to the fiber that spawned it.
\<close>

section \<open>Spawning\<close>

definition is_current_fiber_root :: "('j, 'w) platform \<Rightarrow> ('j, 'w) TokioScheduler \<Rightarrow> bool" where
  "is_current_fiber_root P s \<longleftrightarrow> fiber_eq (root_fiber s) (as_unknown (current (vm P) s))"

definition transfer_back :: "'s ruby_vm \<Rightarrow> Unknown Fiber \<Rightarrow> (Value, error) outcome \<Rightarrow> ('s, Value, error) action" where
  "transfer_back R transfer_back_to result = match_result (lift_outcome result)
       (\<lambda>v. try_then (check_suspended R transfer_back_to) (\<lambda>f. transfer R f [v]))
       (\<lambda>e. try_then (check_suspended R transfer_back_to) (\<lambda>f. raise_error R f e))"

definition returning_body :: "'s ruby_vm \<Rightarrow> proc \<Rightarrow> Unknown Fiber \<Rightarrow> Value list \<Rightarrow> ('s, Value, error) action" where
  "returning_body R block transfer_back_to args s =
     (case rb_proc_call R block args s of (result, t) \<Rightarrow> transfer_back R transfer_back_to result t)"

definition fiber_impl :: "('j, 'w) platform \<Rightarrow> proc \<Rightarrow> (('j, 'w) TokioScheduler, Value, error) action" where
  "fiber_impl P block s =
     (let transfer_back_to = as_unknown (current (vm P) s);
          fiber_block = (if is_current_fiber_root P s then block else ReturningProc block transfer_back_to) in
      try_then (new_nonblocking (vm P) fiber_block) (\<lambda>fiber.
      try_then (transfer (vm P) fiber []) (\<lambda>v.
      ret (into_value fiber))) s)"

text \<open>\<open>scan\<close> is \<open>scan_args\<close> of \<open>magnus\<close>, which takes a block and no arguments.\<close>

definition spawn_fiber ::
  "('j, 'w) platform \<Rightarrow> (Value list \<Rightarrow> (proc, error) outcome) \<Rightarrow> Value list \<Rightarrow>
   (('j, 'w) TokioScheduler, Value, error) action" where
  "spawn_fiber P scan vargs = try_then (lift_outcome (scan vargs)) (fiber_impl P)"

section \<open>Where control goes\<close>

lemma root_test: "is_current_fiber_root P s \<longleftrightarrow> as_raw (root_fiber s) = rb_fiber_current (vm P) s"
  by (cases "root_fiber s") (simp add: is_current_fiber_root_def current_def as_unknown_def)

lemma new_nonblocking_Ok [effect_simps]:
  "rb_hash_aset R [] ''blocking'' (VBool False) s = (Ok kw, t) \<Longrightarrow> rb_fiber_new R kw b t = (Ok raw, u) \<Longrightarrow>
   new_nonblocking R b s = (Ok (Fiber raw), u)"
  by (simp add: new_nonblocking_def effect_defs)

text \<open>
  C15. A block spawned from the root fiber is run as it is. From any other fiber the new fiber
  is given the closure that returns to the caller. In both cases the caller switches to the new
  fiber at once, and when control is back it gets the new fiber itself, not what came back; an
  exception that comes back is the caller's.
\<close>

theorem fiber_spawn_outcomes:
  assumes hash: "rb_hash_aset (vm P) [] ''blocking'' (VBool False) s = (Ok kw, t)"
    and new: "\<And>b. rb_fiber_new (vm P) kw b t = (Ok raw, made b)"
  shows "fiber_impl P block s =
    (let b = (if as_raw (root_fiber s) = rb_fiber_current (vm P) s then block
              else ReturningProc block (Fiber (rb_fiber_current (vm P) s))) in
     case rb_fiber_transfer (vm P) raw [] (made b) of
       (Ok v, u) \<Rightarrow> (Ok (VRef raw), u) | (Err e, u) \<Rightarrow> (Err e, u) | (Panic p, u) \<Rightarrow> (Panic p, u))"
proof -
  let ?b = "if as_raw (root_fiber s) = rb_fiber_current (vm P) s then block
            else ReturningProc block (Fiber (rb_fiber_current (vm P) s))"
  have "new_nonblocking (vm P) ?b s = (Ok (Fiber raw), made ?b)"
    by (rule new_nonblocking_Ok [OF hash new])
  then have "fiber_impl P block s =
      try_then (transfer (vm P) (Fiber raw) []) (\<lambda>v. ret (VRef raw)) (made ?b)"
    by (simp add: fiber_impl_def Let_def root_test current_def as_unknown_def into_value_def try_then_Ok)
  then show ?thesis
    by (cases "rb_fiber_transfer (vm P) raw [] (made ?b)")
      (simp add: try_then_def transfer_def ret_def Let_def split: outcome.split)
qed

theorem fiber_spawn_outcomes_witness:
  "fiber_impl sample_platform (RubyProc 7) sample_start =
     (Ok (VRef 48), on_world (\<lambda>w. w\<lparr>sw_log := [(48, [])]\<rparr>) sample_start)"
proof -
  have hash: "rb_hash_aset (vm sample_platform) [] ''blocking'' (VBool False) sample_start =
      (Ok [(''blocking'', VBool False)], sample_start)"
    by (simp add: sample_vm_def ret_def)
  have new: "rb_fiber_new (vm sample_platform) [(''blocking'', VBool False)] b sample_start = (Ok 48, sample_start)" for b
    by (simp add: sample_vm_def ret_def)
  show ?thesis
    using fiber_spawn_outcomes [OF hash new, of "RubyProc 7"]
    by (simp add: sample_switch_def on_world_def) (simp add: sample_start_def)
qed

text \<open>
  When the block of the closure ends, the caller is switched to exactly once, with the
  block's value as its argument or the block's error raised in it, if it is alive and not the
  running fiber. If it is not, the new fiber gets that as its own error and the block's value or
  error is lost.
\<close>

theorem returning_body_outcomes:
  assumes call: "rb_proc_call R block args s = (r, t)" and spawner: "as_raw f = back"
  shows "returning_body R block f args s =
    (case r of
       Panic p \<Rightarrow> (Panic p, t)
     | _ \<Rightarrow>
       if \<not> rb_fiber_alive_p R back t then (Err (Error RuntimeError ''fiber not alive''), t)
       else if rb_fiber_current R t = back then (Err (Error RuntimeError ''fiber active''), t)
       else (case r of
           Ok v \<Rightarrow> rb_fiber_transfer R back [v] t
         | Err (Error c m) \<Rightarrow> rb_fiber_raise R back [rb_class_value R c, VStr m] t
         | Err (Exception x) \<Rightarrow> rb_fiber_raise R back [x] t
         | Err (Jump j) \<Rightarrow> (Err (Jump j), t)
         | Panic p \<Rightarrow> (Panic p, t)))"
proof (cases r)
  case (Err e)
  with call show ?thesis
    by (cases e) (auto simp: returning_body_def transfer_back_def effect_defs check_suspended_def fiber_defs spawner
        split: prod.splits outcome.splits)
qed (use call in \<open>auto simp: returning_body_def transfer_back_def effect_defs check_suspended_def fiber_defs spawner
        split: prod.splits outcome.splits\<close>)

theorem returning_body_outcomes_witness:
  "returning_body sample_vm (RubyProc 7) (Fiber 16) [] sample_start =
     (Ok VNil, on_world (\<lambda>w. w\<lparr>sw_log := [(16, [VInt 1])]\<rparr>) sample_start)"
proof -
  have "rb_proc_call sample_vm (RubyProc 7) [] sample_start = (Ok (VInt 1), sample_start)"
    by (simp add: sample_vm_def ret_def)
  from returning_body_outcomes [OF this refl, of "Fiber 16"] show ?thesis
    by (simp add: sample_switch_def on_world_def) (simp add: sample_start_def)
qed

end
