(* ===== verification/Hooks.thy ===== *)
theory Hooks
  imports RunLoop BlockUnblock IoWait IoSelect IoReadWrite ProcessWait AddressResolve FiberSpawn
begin

text \<open>
  The scheduler as a whole: the methods of \<open>method_table\<close> that make their fiber wait (\<open>hook\<close>),
  the operation each of them is (\<open>call_hook\<close>), and the future each task of the set runs
  (\<open>run_future\<close>). \<open>services\<close> gathers what the components are given.
\<close>

section \<open>Hooks and futures\<close>

record ('j, 'w) services =
  sv_platform :: "('j, 'w) platform"
  sv_files :: "('j, 'w) TokioScheduler fcntl_ops"
  sv_events :: event_masks
  sv_interns :: "('j, 'w) TokioScheduler intern_ops"
  sv_selects :: "('j, 'w) TokioScheduler select_ops"
  sv_buffers :: "('j, 'w) TokioScheduler buffer_ops"
  sv_async :: "('j, 'w) TokioScheduler async_io"
  sv_net :: "('j, 'w) TokioScheduler net_ops"
  sv_await_process :: "process_state \<Rightarrow> (('j, 'w) TokioScheduler, Value, error) action"
  sv_scan_select :: "Value list \<Rightarrow> (io_select_args, error) outcome"
  sv_to_text :: "Value \<Rightarrow> (string, error) outcome"

datatype hook =
    KernelSleep TimeoutDuration
  | Block Value "TimeoutDuration option"
  | IoWait Value RubyIoEvent "TimeoutDuration option"
  | IoSelect "Value list"
  | IoRead Value RubyIoBuffer "64 word" TimeoutDuration
  | IoWrite Value Value "64 word" TimeoutDuration
  | ProcessWait "32 word" "32 word"
  | AddressResolve Value

fun call_hook :: "('j, 'w) services \<Rightarrow> hook \<Rightarrow> (('j, 'w) TokioScheduler, Value, error) action" where
  "call_hook V (KernelSleep duration) = kernel_sleep (sv_platform V) duration"
| "call_hook V (Block blocker timeout) = block (sv_platform V) blocker timeout"
| "call_hook V (IoWait io event timeout) = io_wait (sv_platform V) (sv_events V) io event timeout"
| "call_hook V (IoSelect args) = io_select (sv_platform V) (sv_scan_select V) args"
| "call_hook V (IoRead io buffer min_len timeout) = io_read (sv_platform V) io buffer min_len timeout"
| "call_hook V (IoWrite io buffer min_len timeout) =
     io_write (sv_platform V) (sv_buffers V) io buffer min_len timeout"
| "call_hook V (ProcessWait pid flags) = process_wait (sv_platform V) pid flags"
| "call_hook V (AddressResolve hostname) = address_resolve (sv_platform V) (sv_to_text V) hostname"

text \<open>\<open>sv_await_process\<close> is the runtime polling the future of \<open>process_wait\<close> until it is ready.\<close>

primrec run_future :: "('j, 'w) services \<Rightarrow> future \<Rightarrow> (('j, 'w) TokioScheduler, Value, error) action" where
  "run_future V (ReadyFuture v) = ret v"
| "run_future V (SleepFuture i d) = sleep_future (clock (sv_platform V)) i d"
| "run_future V (TimeoutFuture i c m f) =
     timeout_future (vm (sv_platform V)) (clock (sv_platform V)) i c m f"
| "run_future V (BlockFuture ch t) = block_future (sv_platform V) ch t"
| "run_future V (AddressFuture h) = address_future (sv_net V) h"
| "run_future V (ProcessFuture p f) = sv_await_process V (NotStarted p f)"
| "run_future V (IoWaitFuture io i) = io_wait_future (io_driver (sv_platform V)) (sv_files V) (sv_events V) io i"
| "run_future V (IoSelectFuture ts) =
     io_select_future (vm (sv_platform V)) (io_driver (sv_platform V)) (sv_interns V) (sv_selects V) ts"
| "run_future V (IoReadFuture io b n) =
     io_read_future (sv_async V) (io_driver (sv_platform V)) (sv_files V) (sv_buffers V) io b n"
| "run_future V (IoWriteFuture io b n) =
     io_write_future (sv_async V) (io_driver (sv_platform V)) (sv_files V) (sv_buffers V) io b n"
| "run_future V (WithTimeout desc t f) = with_timeout (clock (sv_platform V)) desc t (run_future V f)"
| "run_future V (WithTimeoutNoRaise t f) = with_timeout_no_raise (clock (sv_platform V)) t (run_future V f)"

section \<open>Every hook ends in a spawn or fails before it\<close>

text \<open>
  The calls that prepare a future (making the backing object, a channel, the conversions) do
  not touch the task set. \<open>keeps view\<close> says it of any part of the state, seen through \<open>view\<close>.
\<close>

definition keeps :: "('s \<Rightarrow> 'v) \<Rightarrow> ('s, 'a, 'e) action \<Rightarrow> bool" where
  "keeps view m \<longleftrightarrow> (\<forall>s. view (snd (m s)) = view s)"

definition quiet_calls :: "(('j, 'w) TokioScheduler \<Rightarrow> 'v) \<Rightarrow> ('j, 'w) platform \<Rightarrow> bool" where
  "quiet_calls view P \<longleftrightarrow>
     (\<forall>v. keeps view (rb_io_try_convert (vm P) v) \<and> keeps view (rb_io_fileno (vm P) v)) \<and>
     (\<forall>fd. keeps view (unix_from_std (io_driver P) fd) \<and> keeps view (udp_from_std (io_driver P) fd) \<and>
        keeps view (tcp_from_std (io_driver P) fd)) \<and>
     (\<forall>s. view (snd (os_channel (channels P) s)) = view s) \<and>
     (\<forall>ch v. keeps view (os_send (channels P) ch v)) \<and>
     (\<forall>ch s. view (os_drop_tx (channels P) ch s) = view s \<and> view (os_drop_rx (channels P) ch s) = view s) \<and>
     (\<forall>ts s. view (rt_drop_set P ts s) = view s)"

definition ignores_blockers :: "(('j, 'w) TokioScheduler \<Rightarrow> 'v) \<Rightarrow> bool" where
  "ignores_blockers view \<longleftrightarrow> (\<forall>s c. view (s\<lparr>blockers := c\<rparr>) = view s)"

lemma ignores_blockers_tasks [simp]: "ignores_blockers futures_to_run"
  by (simp add: ignores_blockers_def)

lemma keeps_simps [simp]:
  "keeps view (ret x)" "keeps view (fail e)" "keeps view (panic p)" "keeps view (lift_outcome r)"
  by (simp_all add: keeps_def effect_defs)

lemma keeps_try_then [intro]:
  "keeps view m \<Longrightarrow> (\<And>x. keeps view (k x)) \<Longrightarrow> keeps view (try_then m k)"
  by (auto simp: keeps_def effect_defs split: prod.splits outcome.splits) (metis snd_conv)+

lemma keeps_map_err [intro]: "keeps view m \<Longrightarrow> keeps view (map_err f m)"
  by (auto simp: keeps_def effect_defs split: prod.splits outcome.splits) (metis snd_conv)+

lemma from_value_keeps:
  fixes view :: "('j, 'w) TokioScheduler \<Rightarrow> 'v"
  assumes "quiet_calls view P"
  shows "keeps view (from_value_and_raw_fd (vm P) (io_driver P) v fd)"
proof -
  have step: "view (snd (try_then (map_err e m) (\<lambda>u. ret b) s)) = view s" if "keeps view m"
    for e :: "io_error \<Rightarrow> error" and m :: "(('j, 'w) TokioScheduler, unit, io_error) action" and b :: BackingIo and s
    using keeps_try_then [OF keeps_map_err [OF that], of "\<lambda>u. ret b" e]
    by (simp add: keeps_def [of _ "try_then _ _"])
  show ?thesis
    using assms unfolding quiet_calls_def
    by (auto simp: keeps_def [of _ "from_value_and_raw_fd _ _ _ _"] from_value_and_raw_fd_def Let_def
        intro: step)
qed

lemma new_with_interest_keeps:
  assumes "quiet_calls view P"
  shows "keeps view (new_with_interest (vm P) (io_driver P) v i)"
  using from_value_keeps [OF assms] assms
  unfolding new_with_interest_def quiet_calls_def by (intro keeps_try_then) simp_all

lemma on_blockers_keeps: "ignores_blockers view \<Longrightarrow> keeps view (on_blockers m)"
  by (simp add: keeps_def ignores_blockers_def on_blockers_def on_part_def split: prod.splits)

lemma try_convert_buffer_keeps: "keeps view (try_convert_buffer R B v)"
  by (simp add: keeps_def try_convert_buffer_def split: Value.splits)

lemma drop_future_keeps:
  "quiet_calls view P \<Longrightarrow> view (drop_future (channels P) (rt_drop_set P) f s) = view s"
  by (induction f) (auto simp: quiet_calls_def)

text \<open>The future each hook puts on the task set.\<close>

fun hook_future :: "hook \<Rightarrow> future \<Rightarrow> bool" where
  "hook_future (KernelSleep d) F \<longleftrightarrow> (if is_zero d then F = ReadyFuture (VInt 0) else \<exists>i. F = SleepFuture i d)"
| "hook_future (Block b t) F \<longleftrightarrow> (\<exists>ch. F = BlockFuture ch t)"
| "hook_future (IoWait v e t) F \<longleftrightarrow> (\<exists>io i. F = WithTimeoutNoRaise t (IoWaitFuture io i))"
| "hook_future (IoSelect args) F \<longleftrightarrow>
     (\<exists>t rs ws es. F = WithTimeoutNoRaise t (IoSelectFuture (select_futures (build_io_set rs ws es))))"
| "hook_future (IoRead v b n t) F \<longleftrightarrow> (\<exists>io. F = WithTimeout ''io_read'' (given_timeout t) (IoReadFuture io b n))"
| "hook_future (IoWrite v b n t) F \<longleftrightarrow>
     (\<exists>io b. F = WithTimeout ''io_write'' (given_timeout t) (IoWriteFuture io b n))"
| "hook_future (ProcessWait p f) F \<longleftrightarrow> F = ProcessFuture p f"
| "hook_future (AddressResolve v) F \<longleftrightarrow> (\<exists>h. F = AddressFuture h)"

definition ends_in_spawn :: "(('j, 'w) TokioScheduler \<Rightarrow> 'v) \<Rightarrow> (future \<Rightarrow> bool) \<Rightarrow> ('j, 'w) platform \<Rightarrow>
    (('j, 'w) TokioScheduler, Value, error) action \<Rightarrow> bool" where
  "ends_in_spawn view Q P m \<longleftrightarrow> (\<forall>s. \<exists>t. view t = view s \<and>
     ((\<exists>future. Q future \<and> m s = spawn_and_transfer P future t) \<or> (\<exists>r. m s = (r, t) \<and> (\<forall>v. r \<noteq> Ok v))))"

lemma ends_in_spawn_now [simp]: "Q future \<Longrightarrow> ends_in_spawn view Q P (spawn_and_transfer P future)"
  by (auto simp: ends_in_spawn_def)

lemma ends_in_spawn_then [intro]:
  assumes m: "keeps view m" and k: "\<And>x. ends_in_spawn view Q P (k x)"
  shows "ends_in_spawn view Q P (try_then m k)"
  unfolding ends_in_spawn_def
proof
  fix s
  obtain r t where r: "m s = (r, t)" by fastforce
  then have t: "view t = view s" using m unfolding keeps_def by (metis snd_conv)
  show "\<exists>t. view t = view s \<and> ((\<exists>future. Q future \<and> try_then m k s = spawn_and_transfer P future t) \<or>
      (\<exists>r. try_then m k s = (r, t) \<and> (\<forall>v. r \<noteq> Ok v)))"
  proof (cases r)
    case (Ok x)
    with r have "try_then m k s = k x t" by (simp add: try_then_Ok)
    with k [of x] t show ?thesis unfolding ends_in_spawn_def by (metis (no_types))
  qed (use r t in \<open>auto simp: try_then_def\<close>)
qed

lemma block_ends_in_spawn:
  assumes "quiet_calls view P" and "ignores_blockers view"
    and "\<And>ch. Q (BlockFuture ch t)"
  shows "ends_in_spawn view Q P (block P b t)"
  unfolding ends_in_spawn_def
proof
  fix s
  obtain ch s1 where ch: "os_channel (channels P) s = (ch, s1)" by fastforce
  have s1: "view s1 = view s"
    using assms(1) ch unfolding quiet_calls_def by (metis snd_conv)
  obtain r s2 where r: "on_blockers (blockers_insert (as_suspended (current (vm P) s1)) ch) s1 = (r, s2)"
    by fastforce
  have s2: "view s2 = view s"
    using on_blockers_keeps [OF assms(2)] r s1 unfolding keeps_def by (metis snd_conv)
  have dropped: "view (drop_sender P old s2) = view s" for old
    using assms(1) s2 by (cases old) (simp_all add: drop_sender_def quiet_calls_def)
  show "\<exists>u. view u = view s \<and> ((\<exists>future. Q future \<and> block P b t s = spawn_and_transfer P future u) \<or>
      (\<exists>r. block P b t s = (r, u) \<and> (\<forall>v. r \<noteq> Ok v)))"
  proof (cases r)
    case (Ok old)
    with ch r have "block P b t s = spawn_and_transfer P (BlockFuture ch t) (drop_sender P old s2)"
      by (simp add: block_def Let_def)
    with dropped assms(3) show ?thesis by blast
  next
    case (Err e)
    with ch r have "block P b t s = (Err e, os_drop_tx (channels P) ch (os_drop_rx (channels P) ch s2))"
      by (simp add: block_def Let_def)
    moreover have "view (os_drop_tx (channels P) ch (os_drop_rx (channels P) ch s2)) = view s"
      using assms(1) s2 unfolding quiet_calls_def by simp
    ultimately show ?thesis by blast
  next
    case (Panic p)
    with ch r have "block P b t s = (Panic p, s2)" by (simp add: block_def Let_def)
    with s2 show ?thesis by blast
  qed
qed

lemma kernel_sleep_ends_in_spawn: "ends_in_spawn view (hook_future (KernelSleep d)) P (kernel_sleep P d)"
  by (auto simp: ends_in_spawn_def kernel_sleep_def split: outcome.splits)

lemma call_hook_ends_in_spawn:
  assumes "quiet_calls view (sv_platform V)" and "ignores_blockers view"
  shows "ends_in_spawn view (hook_future h) (sv_platform V) (call_hook V h)"
proof (cases h)
  case (KernelSleep d)
  then show ?thesis by (simp add: kernel_sleep_ends_in_spawn)
next
  case (Block b t)
  then show ?thesis using block_ends_in_spawn [OF assms, of "hook_future h"] by simp
next
  case (IoWait io e t)
  then show ?thesis
    using new_with_interest_keeps [OF assms(1)] by (simp add: io_wait_def) (intro ends_in_spawn_then; simp)
next
  case (IoSelect args)
  have "hook_future (IoSelect args) (WithTimeoutNoRaise t (IoSelectFuture (select_futures (build_io_set rs ws es))))"
    for t rs ws es by auto
  then have "ends_in_spawn view (hook_future (IoSelect args)) (sv_platform V)
      (case x of (rs, ws, es, t) \<Rightarrow> spawn_and_transfer (sv_platform V)
         (WithTimeoutNoRaise t (IoSelectFuture (select_futures (build_io_set rs ws es)))))" for x
    by (cases x) simp
  then show ?thesis by (simp add: IoSelect io_select_def) (intro ends_in_spawn_then; simp)
next
  case (IoRead io b n t)
  then show ?thesis
    using new_with_interest_keeps [OF assms(1)] by (simp add: io_read_def) (intro ends_in_spawn_then; simp)
next
  case (IoWrite io b n t)
  then show ?thesis
    using new_with_interest_keeps [OF assms(1)] try_convert_buffer_keeps
    by (simp add: io_write_def) (intro ends_in_spawn_then; simp)
next
  case (ProcessWait p f)
  then show ?thesis by (simp add: process_wait_def)
next
  case (AddressResolve v)
  then show ?thesis by (simp add: address_resolve_def) (intro ends_in_spawn_then; simp)
qed

text \<open>
  What \<open>spawn_and_transfer\<close> reads of the state: the task set, the root fiber and which fiber runs.
  The calls that prepare a future change none of them.
\<close>

definition spawn_view :: "('j, 'w) platform \<Rightarrow> ('j, 'w) TokioScheduler \<Rightarrow> 'j GcCell \<times> Unknown Fiber \<times> 64 word" where
  "spawn_view P s = (futures_to_run s, root_fiber s, rb_fiber_current (vm P) s)"

text \<open>
  C5. Every hook, with the task set free, either fails with the set as it was, or adds exactly one
  task, which is for the running fiber and runs the future of that hook, and then asks the VM to
  switch to the root fiber and answers what comes back from there. If the root fiber has ended
  or is the one that called, it does not switch but fails, and the task stays in the set. With the
  set borrowed, as it is while the loop awaits, every hook fails and the set stays as it was.
\<close>

theorem hook_outcomes:
  fixes V :: "('j, 'w) services" and s :: "('j, 'w) TokioScheduler"
  defines "P \<equiv> sv_platform V" and "main_fiber \<equiv> as_raw (root_fiber s)"
  assumes quiet: "quiet_calls (spawn_view P) P" "ignores_blockers (spawn_view P)"
  shows "(idle (futures_to_run s) \<longrightarrow>
      (\<exists>t. spawn_view P t = spawn_view P s \<and>
         ((\<exists>future u. hook_future h future \<and>
            u = t\<lparr>futures_to_run := (futures_to_run s)\<lparr>cell_value := snd (js_spawn (tasks P)
                  \<lparr>ff_future = future, ff_fiber = Fiber (rb_fiber_current (vm P) s)\<rparr> (cell_value (futures_to_run s)))\<rparr>\<rparr> \<and>
            call_hook V h s =
              (if \<not> rb_fiber_alive_p (vm P) main_fiber u then (Err (Error RuntimeError ''fiber not alive''), u)
               else if rb_fiber_current (vm P) u = main_fiber then (Err (Error RuntimeError ''fiber active''), u)
               else rb_fiber_transfer (vm P) main_fiber [] u)) \<or>
          (\<exists>r. call_hook V h s = (r, t) \<and> (\<forall>v. r \<noteq> Ok v))))) \<and>
    (borrowed (futures_to_run s) \<longrightarrow>
       futures_to_run (snd (call_hook V h s)) = futures_to_run s \<and> (\<forall>v. fst (call_hook V h s) \<noteq> Ok v))"
proof -
  obtain t where t: "spawn_view P t = spawn_view P s"
    and out: "(\<exists>future. hook_future h future \<and> call_hook V h s = spawn_and_transfer P future t) \<or>
      (\<exists>r. call_hook V h s = (r, t) \<and> (\<forall>v. r \<noteq> Ok v))"
    using call_hook_ends_in_spawn [OF quiet [unfolded P_def]] unfolding ends_in_spawn_def P_def by blast
  have same: "futures_to_run t = futures_to_run s" "root_fiber t = root_fiber s"
    "rb_fiber_current (vm P) t = rb_fiber_current (vm P) s"
    using t by (simp_all add: spawn_view_def)
  have spawned: "spawn_and_transfer P future t =
      (let u = with_task P future t in
       if \<not> rb_fiber_alive_p (vm P) main_fiber u then (Err (Error RuntimeError ''fiber not alive''), u)
       else if rb_fiber_current (vm P) u = main_fiber then (Err (Error RuntimeError ''fiber active''), u)
       else rb_fiber_transfer (vm P) main_fiber [] u)" if "idle (futures_to_run s)" for future
    using that same
    by (auto simp: spawn_and_transfer_idle transfer_to_root_def try_then_def check_suspended_def fiber_defs
        Let_def main_fiber_def)
  have added: "with_task P future t = t\<lparr>futures_to_run := (futures_to_run s)\<lparr>cell_value := snd (js_spawn (tasks P)
      \<lparr>ff_future = future, ff_fiber = Fiber (rb_fiber_current (vm P) s)\<rparr> (cell_value (futures_to_run s)))\<rparr>\<rparr>" for future
    by (simp add: with_task_def same)
  show ?thesis
  proof (intro conjI impI)
    assume idle: "idle (futures_to_run s)"
    let ?outcome = "\<lambda>u. if \<not> rb_fiber_alive_p (vm P) main_fiber u then (Err (Error RuntimeError ''fiber not alive''), u)
       else if rb_fiber_current (vm P) u = main_fiber then (Err (Error RuntimeError ''fiber active''), u)
       else rb_fiber_transfer (vm P) main_fiber [] u"
    have "(\<exists>future u. hook_future h future \<and> u = with_task P future t \<and> call_hook V h s = ?outcome u) \<or>
        (\<exists>r. call_hook V h s = (r, t) \<and> (\<forall>v. r \<noteq> Ok v))"
      using out spawned [OF idle] unfolding Let_def by metis
    with t show "\<exists>t. spawn_view P t = spawn_view P s \<and>
         ((\<exists>future u. hook_future h future \<and>
            u = t\<lparr>futures_to_run := (futures_to_run s)\<lparr>cell_value := snd (js_spawn (tasks P)
                  \<lparr>ff_future = future, ff_fiber = Fiber (rb_fiber_current (vm P) s)\<rparr> (cell_value (futures_to_run s)))\<rparr>\<rparr> \<and>
            call_hook V h s =
              (if \<not> rb_fiber_alive_p (vm P) main_fiber u then (Err (Error RuntimeError ''fiber not alive''), u)
               else if rb_fiber_current (vm P) u = main_fiber then (Err (Error RuntimeError ''fiber active''), u)
               else rb_fiber_transfer (vm P) main_fiber [] u)) \<or>
          (\<exists>r. call_hook V h s = (r, t) \<and> (\<forall>v. r \<noteq> Ok v)))"
      unfolding added by blast
  next
    assume "borrowed (futures_to_run s)"
    with same have spawn: "spawn_and_transfer P future t =
        (Err (new_error ''already borrowed''), drop_future (channels P) (rt_drop_set P) future t)" for future
      by (simp add: spawn_and_transfer_borrowed)
    have "futures_to_run (drop_future (channels P) (rt_drop_set P) future t) = futures_to_run s" for future
      using drop_future_keeps [OF quiet(1), of future t] same by (simp add: spawn_view_def)
    then show "futures_to_run (snd (call_hook V h s)) = futures_to_run s"
      using out same spawn by auto
    show "\<forall>v. fst (call_hook V h s) \<noteq> Ok v" using out spawn by auto
  qed
qed

section \<open>Exceptions raised while the loop awaits\<close>

lemma hook_refused:
  assumes "quiet_calls futures_to_run (sv_platform V)" and "borrowed (futures_to_run s)"
  shows "futures_to_run (snd (call_hook V h s)) = futures_to_run s \<and> (\<forall>v. fst (call_hook V h s) \<noteq> Ok v)"
proof -
  obtain t where t: "futures_to_run t = futures_to_run s"
    and out: "(\<exists>future. hook_future h future \<and> call_hook V h s = spawn_and_transfer (sv_platform V) future t) \<or>
      (\<exists>r. call_hook V h s = (r, t) \<and> (\<forall>v. r \<noteq> Ok v))"
    using call_hook_ends_in_spawn [OF assms(1) ignores_blockers_tasks] unfolding ends_in_spawn_def by blast
  with assms show ?thesis
    by (auto simp: spawn_and_transfer_borrowed drop_future_keeps)
qed

text \<open>
  C17. The exception of \<open>timeout_after\<close> is raised from inside the task's own poll, while the loop
  holds the task set. So control reaches the fiber in a state in which every hook fails: until
  it gives control back, the fiber can rescue its exception but can wait for nothing.
\<close>

theorem timeout_raise_refuses_hooks:
  assumes quiet: "quiet_calls futures_to_run (sv_platform V)"
    and polled: "write_count (futures_to_run u) = write_count (futures_to_run (awaiting s))"
    and err: "rb_new_exception (vm (sv_platform V)) c m (tk_sleep_until (clock (sv_platform V)) i u) = (Ok x, u1)"
    and exc: "rb_new_exception (vm (sv_platform V)) c m u1 = (Ok y, u2)"
    and kept: "futures_to_run u2 = futures_to_run u"
    and fiber: "switchable (vm (sv_platform V)) (as_raw f) u2"
  shows "run_future V (TimeoutFuture i c m f) u = rb_fiber_raise (vm (sv_platform V)) (as_raw f) [y] u2 \<and>
    futures_to_run (snd (call_hook V h u2)) = futures_to_run u2 \<and> (\<forall>v. fst (call_hook V h u2) \<noteq> Ok v)"
proof -
  have "borrowed (futures_to_run u2)"
    using polled kept by (simp add: borrowed_def awaiting_def)
  from hook_refused [OF quiet this] show ?thesis
    using timeout_future_switchable [OF err exc, of f] fiber by (auto simp: switchable_def)
qed

section \<open>From a hook to its answer\<close>

text \<open>
  What the runtime promises of its tasks: a task that finished without a panic was in the set,
  and its result is what its future gave.
\<close>

definition select_runs_tasks :: "('j, 'w) services \<Rightarrow> ('j \<Rightarrow> task set) \<Rightarrow> bool" where
  "select_runs_tasks V members \<longleftrightarrow>
     (\<forall>ci s rf t. rt_select (sv_platform V) ci s = (Joined (Some (Inr rf)), t) \<longrightarrow>
        (\<exists>task \<in> members (cell_value (futures_to_run s)). \<exists>u w. rf_fiber rf = ff_fiber task \<and>
           run_future V (ff_future task) u =
             (case rf_value rf of Inr v \<Rightarrow> Ok v | Inl e \<Rightarrow> Err e, w)))"

text \<open>
  A fiber that sleeps is resumed with the whole seconds it was to sleep: when the loop joins a
  task of that fiber, whose only task is the one \<open>kernel_sleep\<close> added, it switches to the fiber
  with that number and goes on with the next turn.
\<close>

theorem sleeper_resumed:
  assumes laws: "select_runs_tasks V members" and "idle (futures_to_run s)"
    and only: "\<And>task. task \<in> members (cell_value (futures_to_run s)) \<Longrightarrow> ff_fiber task = f \<Longrightarrow>
       ff_future task = SleepFuture i d"
    and joined: "rt_select (sv_platform V)
       (check_interrupts (vm (sv_platform V)) (clock (sv_platform V))) (awaiting s) = (Joined (Some (Inr rf)), s2)"
    and f: "rf_fiber rf = f" and fiber: "switchable (vm (sv_platform V)) (as_raw f) (release_futures GcRefMut s2)"
    and switch: "rb_fiber_transfer (vm (sv_platform V)) (as_raw f) [VInt (uint (dur_secs (into_std d)))]
       (release_futures GcRefMut s2) = (Ok v, t)"
  shows "run_iteration (sv_platform V) s = (Continue, t)"
proof -
  from laws joined obtain task u w where task: "task \<in> members (cell_value (futures_to_run (awaiting s)))"
    and tf: "rf_fiber rf = ff_fiber task"
    and run: "run_future V (ff_future task) u = (case rf_value rf of Inr v \<Rightarrow> Ok v | Inl e \<Rightarrow> Err e, w)"
    unfolding select_runs_tasks_def by blast
  from task have "ff_future task = SleepFuture i d" using only tf f by simp
  with run have "rf_value rf = Inr (VInt (uint (dur_secs (into_std d))))"
    by (auto simp: sleep_future_def split: sum.splits)
  with switch fiber f show ?thesis
    by (simp add: run_iteration_task [OF assms(2) joined] resume_value)
qed

section \<open>A sample of the whole\<close>

text \<open>The sample platform with a runtime whose tasks are sleeps: any other task panics.\<close>

definition sleep_select ::
  "(sample_state \<Rightarrow> ((Value, error) outcome \<times> sample_state) option) \<Rightarrow> sample_state \<Rightarrow> selected \<times> sample_state" where
  "sleep_select ci s = (case cell_value (futures_to_run s) of
     [] \<Rightarrow> (Joined None, s)
   | t # ts \<Rightarrow>
       ((case ff_future t of
           SleepFuture i d \<Rightarrow>
             Joined (Some (Inr \<lparr>rf_fiber = ff_fiber t, rf_value = Inr (VInt (uint (dur_secs (into_std d))))\<rparr>))
         | _ \<Rightarrow> Joined (Some (Inl ''panic''))),
        s\<lparr>futures_to_run := (futures_to_run s)\<lparr>cell_value := ts\<rparr>\<rparr>))"

definition sample_services :: "(task list, sample_world) services" where
  "sample_services = \<lparr>
     sv_platform = sample_platform\<lparr>rt_select := sleep_select\<rparr>, sv_files = sample_fcntl,
     sv_events = \<lparr>RUBY_IO_READABLE = 1, RUBY_IO_WRITABLE = 4, RUBY_IO_PRIORITY = 2\<rparr>,
     sv_interns = sample_cells, sv_selects = sample_select_ops, sv_buffers = sample_buffers, sv_async = sample_async, sv_net = sample_net,
     sv_await_process = (\<lambda>st. ret VNil), sv_scan_select = (\<lambda>args. Ok (None, None, None, None)),
     sv_to_text = (\<lambda>v. Ok [])\<rparr>"

lemma sample_quiet: "quiet_calls futures_to_run (sv_platform sample_services)"
  by (simp add: quiet_calls_def keeps_def sample_services_def sample_vm_def sample_io_def sample_channels_def
      set_channel_def on_world_def ret_def split: channel_state.split)

lemma sample_spawn_view:
  "quiet_calls (spawn_view (sv_platform sample_services)) (sv_platform sample_services)"
  "ignores_blockers (spawn_view (sv_platform sample_services))"
  by (simp_all add: quiet_calls_def keeps_def sample_services_def sample_vm_def sample_io_def sample_channels_def
      set_channel_def on_world_def ret_def spawn_view_def ignores_blockers_def split: channel_state.split)

theorem hook_outcomes_witness:
  "\<exists>u. cell_value (futures_to_run u) = [\<lparr>ff_future = ProcessFuture 7 0, ff_fiber = Fiber 32\<rparr>] \<and>
     call_hook sample_services (ProcessWait 7 0) sample_start = sample_switch 16 [] u"
proof -
  have "process_wait (sv_platform sample_services) 7 0 sample_start =
      sample_switch 16 [] (with_task (sv_platform sample_services) (ProcessFuture 7 0) sample_start)"
    by (simp add: process_wait_def spawn_and_transfer_idle transfer_to_root_def try_then_def
        check_suspended_def fiber_defs sample_services_def)
  then have ok: "fst (call_hook sample_services (ProcessWait 7 0) sample_start) = Ok VNil"
    by (simp add: sample_switch_def)
  let ?P = "sv_platform sample_services"
  have parts: "idle (futures_to_run sample_start)" "rb_fiber_current (vm ?P) sample_start = 32"
    "cell_value (futures_to_run sample_start) = []" "as_raw (root_fiber sample_start) = 16"
    by (simp_all add: sample_services_def)
  have failed: False if "call_hook sample_services (ProcessWait 7 0) sample_start = (r, t)" "\<forall>v. r \<noteq> Ok v" for r t
    using that ok by (simp del: call_hook.simps)
  have "\<exists>t future u. hook_future (ProcessWait 7 0) future \<and>
      u = t\<lparr>futures_to_run := (futures_to_run sample_start)\<lparr>cell_value := snd (js_spawn (tasks ?P)
        \<lparr>ff_future = future, ff_fiber = Fiber 32\<rparr> [])\<rparr>\<rparr> \<and>
      call_hook sample_services (ProcessWait 7 0) sample_start =
      (if \<not> rb_fiber_alive_p (vm ?P) 16 u then (Err (Error RuntimeError ''fiber not alive''), u)
       else if rb_fiber_current (vm ?P) u = 16 then (Err (Error RuntimeError ''fiber active''), u)
       else rb_fiber_transfer (vm ?P) 16 [] u)"
    using hook_outcomes [OF sample_spawn_view, of sample_start "ProcessWait 7 0", THEN conjunct1, THEN mp, OF parts(1)]
      failed unfolding parts by blast
  then obtain t future u where future: "future = ProcessFuture 7 0"
    and u: "u = t\<lparr>futures_to_run := (futures_to_run sample_start)\<lparr>cell_value := snd (js_spawn (tasks ?P)
        \<lparr>ff_future = future, ff_fiber = Fiber 32\<rparr> [])\<rparr>\<rparr>"
    and out: "call_hook sample_services (ProcessWait 7 0) sample_start =
      (if \<not> rb_fiber_alive_p (vm ?P) 16 u then (Err (Error RuntimeError ''fiber not alive''), u)
       else if rb_fiber_current (vm ?P) u = 16 then (Err (Error RuntimeError ''fiber active''), u)
       else rb_fiber_transfer (vm ?P) 16 [] u)"
    unfolding hook_future.simps by blast
  have "call_hook sample_services (ProcessWait 7 0) sample_start = sample_switch 16 [] u"
    using out ok by (simp add: sample_services_def del: call_hook.simps split: if_splits)
  moreover have "cell_value (futures_to_run u) = [\<lparr>ff_future = ProcessFuture 7 0, ff_fiber = Fiber 32\<rparr>]"
    by (simp add: u future sample_services_def sample_tasks_def)
  ultimately show ?thesis by blast
qed

theorem timeout_raise_refuses_hooks_witness:
  "\<forall>v. fst (call_hook sample_services (KernelSleep (TimeoutDuration (from_secs 2))) (awaiting sample_start)) \<noteq> Ok v"
proof -
  have exc: "rb_new_exception (vm (sv_platform sample_services)) c m u = (Ok (VRef 80), u)" for c m u
    by (simp add: sample_services_def sample_vm_def ret_def)
  have sleep: "tk_sleep_until (clock (sv_platform sample_services)) i u = u" for i u
    by (simp add: sample_services_def sample_time_def)
  have err: "rb_new_exception (vm (sv_platform sample_services)) TimeoutError VNil
      (tk_sleep_until (clock (sv_platform sample_services)) \<lparr>tv_sec = 7, tv_nsec = 7\<rparr> (awaiting sample_start)) =
      (Ok (VRef 80), awaiting sample_start)"
    unfolding sleep by (rule exc)
  have fiber: "switchable (vm (sv_platform sample_services)) (as_raw (Fiber 48)) (awaiting sample_start)"
    by (simp add: switchable_def sample_services_def awaiting_def)
  show ?thesis
    by (rule timeout_raise_refuses_hooks [OF sample_quiet refl err exc refl fiber, THEN conjunct2, THEN conjunct2])
qed

text \<open>Fiber 32 sleeps and the root fiber runs.\<close>

definition sample_sleeping :: sample_state where
  "sample_sleeping = on_world (\<lambda>w. w\<lparr>sw_current := 16\<rparr>) (sample_start\<lparr>futures_to_run := new_cell
     [\<lparr>ff_future = SleepFuture \<lparr>tv_sec = 7, tv_nsec = 7\<rparr> (TimeoutDuration (from_secs 2)), ff_fiber = Fiber 32\<rparr>]\<rparr>)"

theorem sleeper_resumed_witness:
  "\<exists>t. run_iteration (sv_platform sample_services) sample_sleeping = (Continue, t) \<and>
       sw_log (world t) = [(32, [VInt 2])]"
proof -
  let ?rf = "\<lparr>rf_fiber = Fiber 32, rf_value = Inr (VInt 2)\<rparr>"
  have idle: "idle (futures_to_run sample_sleeping)"
    by (simp add: sample_sleeping_def on_world_def)
  have laws: "select_runs_tasks sample_services set"
    by (auto simp: select_runs_tasks_def sample_services_def sleep_select_def sleep_future_def sample_time_def
        split: list.splits future.splits)
  obtain s2 where sel: "rt_select (sv_platform sample_services) ci (awaiting sample_sleeping) = (Joined (Some (Inr ?rf)), s2)"
    and s2: "world s2 = world sample_sleeping" for ci
    by (simp add: sample_services_def sleep_select_def sample_sleeping_def on_world_def awaiting_def new_cell_def
        from_secs_def put_futures_def)
  have world: "world (release_futures GcRefMut s2) = world sample_sleeping"
    using s2 by (simp add: release_futures_def)
  have switch: "rb_fiber_transfer (vm (sv_platform sample_services)) 32 args s =
      (Ok VNil, on_world (\<lambda>w. w\<lparr>sw_log := (32, args) # sw_log w\<rparr>) s)" for args s
    by (simp add: sample_services_def sample_switch_def)
  have "run_iteration (sv_platform sample_services) sample_sleeping =
      (Continue, on_world (\<lambda>w. w\<lparr>sw_log := (32, [VInt 2]) # sw_log w\<rparr>) (release_futures GcRefMut s2))"
  proof (rule sleeper_resumed [OF laws idle _ sel, where f = "Fiber 32"
        and i = "\<lparr>tv_sec = 7, tv_nsec = 7\<rparr>" and d = "TimeoutDuration (from_secs 2)"])
    show "switchable (vm (sv_platform sample_services)) (as_raw (Fiber 32)) (release_futures GcRefMut s2)"
      using world by (simp add: switchable_def sample_services_def sample_sleeping_def on_world_def)
        (simp add: sample_start_def)?
  qed (auto simp: switch from_secs_def sample_sleeping_def on_world_def new_cell_def)
  then show ?thesis
    using world by (simp add: on_world_def sample_sleeping_def) (simp add: sample_start_def)
qed

end
