(* ===== verification/Accounts.thy ===== *)
theory Accounts
  imports RubyTypes "HOL-Library.Multiset"
begin

text \<open>
  What the scheduler promises of its fibers, without any of its code: who runs, who waits for an
  answer of the event loop, who waits for a fiber it spawned. It models no code of the crate:
  \<open>System\<close> shows that the crate's operations take only these steps.
\<close>

section \<open>The abstract machine\<close>

text \<open>
  A fiber is its number. \<open>waits\<close> holds one entry for every answer that is still to come, under the
  fiber it will resume; \<open>parent\<close> is the fiber that waits for the end of another one, \<open>over\<close> are the
  fibers that gave control back to their parent for good. \<open>lost\<close> are those whose answer will
  never come. \<open>birth_of\<close> orders fibers by age.
\<close>

record accounts =
  running :: "64 word"
  main :: "64 word"
  alive :: "64 word set"
  waits :: "64 word multiset"
  parent :: "64 word \<rightharpoonup> 64 word"
  over :: "64 word set"
  lost :: "64 word set"
  birth_of :: "64 word \<Rightarrow> nat"
  births_so_far :: nat

inductive account_step :: "accounts \<Rightarrow> accounts \<Rightarrow> bool" where
  stay: "account_step a a"
| wait: "running a \<noteq> main a \<Longrightarrow>
     account_step a (a\<lparr>waits := add_mset (running a) (waits a), running := main a\<rparr>)"
| answer: "running a = main a \<Longrightarrow> waits a = add_mset f w \<Longrightarrow> f \<in> alive a \<Longrightarrow> f \<noteq> main a \<Longrightarrow>
     account_step a (a\<lparr>waits := w, running := f\<rparr>)"
| skip: "running a = main a \<Longrightarrow> waits a = add_mset f w \<Longrightarrow> f \<notin> alive a \<Longrightarrow>
     account_step a (a\<lparr>waits := w\<rparr>)"
| lose: "running a = main a \<Longrightarrow> waits a = add_mset f w \<Longrightarrow> f \<in> alive a \<Longrightarrow>
     account_step a (a\<lparr>waits := w, lost := insert f (lost a)\<rparr>)"
| start: "c \<notin> alive a \<Longrightarrow>
     account_step a (a\<lparr>running := c, alive := insert c (alive a),
       parent := (parent a)(c := if running a = main a then None else Some (running a)),
       birth_of := (birth_of a)(c := births_so_far a), births_so_far := Suc (births_so_far a)\<rparr>)"
| give_back: "parent a (running a) = Some p \<Longrightarrow> p \<in> alive a \<Longrightarrow>
     account_step a (a\<lparr>over := insert (running a) (over a), running := p\<rparr>)"
| finish: "running a \<noteq> main a \<Longrightarrow> parent a (running a) = None \<Longrightarrow>
     account_step a (a\<lparr>alive := alive a - {running a}, running := main a\<rparr>)"

inductive_cases account_stepE: "account_step a b"

section \<open>Its invariant\<close>

text \<open>The fibers at work: alive and not over. \<open>awaited\<close>: one of them has \<open>p\<close> as its parent.\<close>

definition at_work :: "accounts \<Rightarrow> 64 word set" where
  "at_work a = alive a - over a"

definition awaits_child :: "accounts \<Rightarrow> 64 word \<Rightarrow> 64 word \<Rightarrow> bool" where
  "awaits_child a p c \<longleftrightarrow> c \<in> at_work a \<and> parent a c = Some p"

text \<open>
  At any time a fiber at work is in exactly one place: it is the running one or the root fiber,
  it waits for one answer, it waits for one child, or it is lost.
\<close>

definition sound_basis :: "accounts \<Rightarrow> bool" where
  "sound_basis a \<longleftrightarrow> finite (alive a) \<and> over a \<subseteq> alive a \<and> main a \<in> at_work a \<and> running a \<in> at_work a \<and>
     parent a (main a) = None \<and> (\<forall>f \<in> alive a. birth_of a f < births_so_far a)"

definition sound_waits :: "accounts \<Rightarrow> bool" where
  "sound_waits a \<longleftrightarrow> (\<forall>f \<in># waits a. f \<in> at_work a \<and> f \<noteq> main a \<and> f \<noteq> running a) \<and>
     (\<forall>f. count (waits a) f \<le> 1)"

definition sound_children :: "accounts \<Rightarrow> bool" where
  "sound_children a \<longleftrightarrow> (\<forall>p c. awaits_child a p c \<longrightarrow>
     p \<in> at_work a \<and> p \<noteq> main a \<and> p \<noteq> running a \<and> p \<notin># waits a \<and> birth_of a p < birth_of a c \<and>
     (\<forall>d. awaits_child a p d \<longrightarrow> d = c))"

definition sound_lost :: "accounts \<Rightarrow> bool" where
  "sound_lost a \<longleftrightarrow> (\<forall>f \<in> lost a. f \<in> at_work a \<and> f \<noteq> main a \<and> f \<noteq> running a \<and> f \<notin># waits a \<and>
     (\<forall>c. \<not> awaits_child a f c))"

definition everyone_placed :: "accounts \<Rightarrow> bool" where
  "everyone_placed a \<longleftrightarrow> (\<forall>f \<in> at_work a.
     f = main a \<or> f = running a \<or> f \<in># waits a \<or> f \<in> lost a \<or> (\<exists>c. awaits_child a f c))"

definition accounted :: "accounts \<Rightarrow> bool" where
  "accounted a \<longleftrightarrow> sound_basis a \<and> sound_waits a \<and> sound_children a \<and> sound_lost a \<and> everyone_placed a"

lemma sound_waitsD:
  assumes "sound_waits a"
  shows "f \<in># waits a \<Longrightarrow> f \<in> at_work a" "running a \<notin># waits a" "main a \<notin># waits a" "count (waits a) f \<le> 1"
  using assms by (auto simp: sound_waits_def)

lemma sound_childrenD:
  assumes "sound_children a" and "awaits_child a p c"
  shows "p \<in> at_work a" "p \<noteq> main a" "p \<noteq> running a" "p \<notin># waits a" "birth_of a p < birth_of a c"
    "awaits_child a p d \<Longrightarrow> d = c"
  using assms unfolding sound_children_def by blast+

lemma at_work_simps [simp]:
  "at_work (a\<lparr>waits := w, running := f\<rparr>) = at_work a" "at_work (a\<lparr>waits := w\<rparr>) = at_work a"
  "at_work (a\<lparr>waits := w, lost := l\<rparr>) = at_work a" "awaits_child (a\<lparr>waits := w, lost := l\<rparr>) = awaits_child a"
  "awaits_child (a\<lparr>waits := w, running := f\<rparr>) = awaits_child a"
  "awaits_child (a\<lparr>waits := w\<rparr>) = awaits_child a"
  by (simp_all add: at_work_def awaits_child_def fun_eq_iff)

lemma accounted_wait:
  assumes "accounted a" and "running a \<noteq> main a"
  shows "accounted (a\<lparr>waits := add_mset (running a) (waits a), running := main a\<rparr>)"
  using assms unfolding accounted_def
proof (elim conjE, intro conjI)
  assume b: "sound_basis a" and w: "sound_waits a" and c: "sound_children a" and l: "sound_lost a"
    and e: "everyone_placed a"
  have run: "count (waits a) (running a) = 0"
    by (rule not_in_iff [THEN iffD1, OF sound_waitsD(2) [OF w]])
  show "sound_basis (a\<lparr>waits := add_mset (running a) (waits a), running := main a\<rparr>)"
    using b by (simp add: sound_basis_def at_work_def)
  show "sound_waits (a\<lparr>waits := add_mset (running a) (waits a), running := main a\<rparr>)"
    using b w assms(2) run unfolding sound_waits_def sound_basis_def at_work_def by (simp add: count_add_mset)
  show "sound_children (a\<lparr>waits := add_mset (running a) (waits a), running := main a\<rparr>)"
    using b c sound_childrenD [OF c] unfolding sound_children_def sound_basis_def by simp
  show "sound_lost (a\<lparr>waits := add_mset (running a) (waits a), running := main a\<rparr>)"
    using l unfolding sound_lost_def by simp
  show "everyone_placed (a\<lparr>waits := add_mset (running a) (waits a), running := main a\<rparr>)"
    using e unfolding everyone_placed_def by auto
qed

lemma accounted_answer:
  assumes "accounted a" and "running a = main a" and "waits a = add_mset f w"
  shows "accounted (a\<lparr>waits := w, running := f\<rparr>)"
  using assms unfolding accounted_def
proof (elim conjE, intro conjI)
  assume b: "sound_basis a" and w: "sound_waits a" and c: "sound_children a" and l: "sound_lost a"
    and e: "everyone_placed a"
  have count: "count (add_mset f w) g \<le> 1" for g
    using sound_waitsD(4) [OF w, of g] by (simp add: assms(3))
  have one: "count w g \<le> 1" "f \<notin># w" for g
    using count [of g] count [of f] by (auto simp: count_add_mset not_in_iff split: if_splits)
  have f: "f \<in> at_work a" "f \<noteq> main a" using w assms(3) unfolding sound_waits_def by auto
  show "sound_basis (a\<lparr>waits := w, running := f\<rparr>)"
    using b f(1) by (simp add: sound_basis_def at_work_def)
  show "sound_waits (a\<lparr>waits := w, running := f\<rparr>)"
    using w one assms(3) unfolding sound_waits_def at_work_def by auto
  show "sound_children (a\<lparr>waits := w, running := f\<rparr>)"
  proof -
    have "p \<noteq> f \<and> p \<notin># w" if "awaits_child a p d" for p d
      using sound_childrenD(4) [OF c that] by (simp add: assms(3))
    with c show ?thesis unfolding sound_children_def by simp
  qed
  show "sound_lost (a\<lparr>waits := w, running := f\<rparr>)"
    using l assms(3) unfolding sound_lost_def by auto
  show "everyone_placed (a\<lparr>waits := w, running := f\<rparr>)"
    using e assms(2,3) unfolding everyone_placed_def by auto
qed

lemma accounted_start:
  assumes "accounted a" and "c \<notin> alive a"
  shows "accounted (a\<lparr>running := c, alive := insert c (alive a),
       parent := (parent a)(c := if running a = main a then None else Some (running a)),
       birth_of := (birth_of a)(c := births_so_far a), births_so_far := Suc (births_so_far a)\<rparr>)"
    (is "accounted ?b")
  using assms unfolding accounted_def
proof (elim conjE, intro conjI)
  assume b: "sound_basis a" and w: "sound_waits a" and c: "sound_children a" and l: "sound_lost a"
    and e: "everyone_placed a"
  note basis = b [unfolded sound_basis_def at_work_def]
  have new: "c \<notin># waits a" "c \<noteq> running a" "c \<noteq> main a" "c \<notin> over a"
    using basis w assms(2) unfolding sound_waits_def at_work_def by auto
  have run: "running a \<notin># waits a" using w unfolding sound_waits_def by blast
  have work: "at_work ?b = insert c (at_work a)" using new(4) by (auto simp: at_work_def)
  have child: "awaits_child ?b p d \<longleftrightarrow>
      (if d = c then running a \<noteq> main a \<and> p = running a else awaits_child a p d)" for p d
    using work by (auto simp: awaits_child_def)
  have parents: "p \<noteq> running a \<and> d \<noteq> c" if "awaits_child a p d" for p d
    using that c assms(2) unfolding sound_children_def awaits_child_def at_work_def by blast
  show "sound_basis ?b"
    using basis assms(2) new by (auto simp: sound_basis_def work less_Suc_eq at_work_def)
  show "sound_waits ?b"
    using w new(1) work unfolding sound_waits_def by auto
  show "sound_children ?b"
    using c basis run new parents assms(2) unfolding sound_children_def child work
    by (auto simp: at_work_def)
  show "sound_lost ?b"
    using l new assms(2) unfolding sound_lost_def child work by (auto simp: at_work_def)
  show "everyone_placed ?b"
    using e new parents unfolding everyone_placed_def work child by auto
qed

lemma accounted_give_back:
  assumes "accounted a" and "parent a (running a) = Some p"
  shows "accounted (a\<lparr>over := insert (running a) (over a), running := p\<rparr>)" (is "accounted ?b")
  using assms unfolding accounted_def
proof (elim conjE, intro conjI)
  assume b: "sound_basis a" and w: "sound_waits a" and c: "sound_children a" and l: "sound_lost a"
    and e: "everyone_placed a"
  note basis = b [unfolded sound_basis_def]
  have own: "awaits_child a p (running a)" using basis assms(2) by (simp add: awaits_child_def)
  have p: "p \<in> at_work a" "p \<noteq> main a" "p \<noteq> running a" "p \<notin># waits a" and only: "\<And>d. awaits_child a p d \<Longrightarrow> d = running a"
    using c own unfolding sound_children_def by blast+
  have main: "main a \<noteq> running a" using basis assms(2) by auto
  have work: "at_work ?b = at_work a - {running a}" by (auto simp: at_work_def)
  have child: "awaits_child ?b q d \<longleftrightarrow> awaits_child a q d \<and> d \<noteq> running a" for q d
    using work by (auto simp: awaits_child_def)
  show "sound_basis ?b" using basis p main by (auto simp: sound_basis_def work at_work_def)
  show "sound_waits ?b" using w p(4) unfolding sound_waits_def work by auto
  show "sound_children ?b"
    using c only unfolding sound_children_def child work by (auto dest: only)
  show "sound_lost ?b" using l own p unfolding sound_lost_def child work by auto
  show "everyone_placed ?b"
  proof -
    have "f = main a \<or> f = p \<or> f \<in># waits a \<or> f \<in> lost a \<or> (\<exists>d. awaits_child a f d \<and> d \<noteq> running a)"
      if f: "f \<in> at_work a" "f \<noteq> running a" for f
    proof -
      have "d = running a \<Longrightarrow> awaits_child a f d \<Longrightarrow> f = p" for d
        using assms(2) by (simp add: awaits_child_def)
      with e f show ?thesis unfolding everyone_placed_def by blast
    qed
    then show ?thesis unfolding everyone_placed_def child work by simp
  qed
qed

lemma accounted_finish:
  assumes "accounted a" and "running a \<noteq> main a" and "parent a (running a) = None"
  shows "accounted (a\<lparr>alive := alive a - {running a}, running := main a\<rparr>)" (is "accounted ?b")
  using assms unfolding accounted_def
proof (elim conjE, intro conjI)
  assume b: "sound_basis a" and w: "sound_waits a" and c: "sound_children a" and l: "sound_lost a"
    and e: "everyone_placed a"
  note basis = b [unfolded sound_basis_def]
  have work: "at_work ?b = at_work a - {running a}" by (auto simp: at_work_def)
  have child: "awaits_child ?b q d \<longleftrightarrow> awaits_child a q d" for q d
    by (cases "d = running a") (simp_all add: awaits_child_def work assms(3))
  show "sound_basis ?b" using basis assms(2) by (auto simp: sound_basis_def work at_work_def)
  show "sound_waits ?b" using w unfolding sound_waits_def work by auto
  show "sound_children ?b" using c unfolding sound_children_def child work by auto
  show "sound_lost ?b" using l unfolding sound_lost_def child work by auto
  show "everyone_placed ?b" using e unfolding everyone_placed_def child work by auto
qed

lemma accounted_lose:
  assumes "accounted a" and "waits a = add_mset f w"
  shows "accounted (a\<lparr>waits := w, lost := insert f (lost a)\<rparr>)" (is "accounted ?b")
  using assms(1) unfolding accounted_def
proof (elim conjE, intro conjI)
  assume b: "sound_basis a" and w: "sound_waits a" and c: "sound_children a" and l: "sound_lost a"
    and e: "everyone_placed a"
  have f: "f \<in> at_work a" "f \<noteq> main a" "f \<noteq> running a" using w assms(2) unfolding sound_waits_def by auto
  have count: "count (add_mset f w) g \<le> 1" for g
    using sound_waitsD(4) [OF w, of g] by (simp add: assms(2))
  have one: "count w g \<le> 1" "f \<notin># w" for g
    using count [of g] count [of f] by (auto simp: count_add_mset not_in_iff split: if_splits)
  have child: "\<not> awaits_child a f d" for d using sound_childrenD(4) [OF c, of f d] assms(2) by auto
  show "sound_basis ?b" using b by (simp add: sound_basis_def)
  show "sound_waits ?b" using w one assms(2) unfolding sound_waits_def by auto
  show "sound_children ?b" using c assms(2) unfolding sound_children_def by auto
  show "sound_lost ?b" using l f one(2) child assms(2) unfolding sound_lost_def by auto
  show "everyone_placed ?b" using e assms(2) unfolding everyone_placed_def by auto
qed

lemma accounted_skip:
  "accounted a \<Longrightarrow> waits a = add_mset f w \<Longrightarrow> f \<notin> alive a \<Longrightarrow> accounted (a\<lparr>waits := w\<rparr>)"
  by (simp add: accounted_def sound_waits_def at_work_def)

lemma account_step_preserves:
  assumes "account_step a b" and "accounted a"
  shows "accounted b"
  using assms
proof cases
  case wait
  then show ?thesis using accounted_wait [OF assms(2)] by simp
next
  case (answer f w)
  then show ?thesis using accounted_answer [OF assms(2)] by simp
next
  case (skip f w)
  then show ?thesis using accounted_skip [OF assms(2)] by simp
next
  case (lose f w)
  then show ?thesis using accounted_lose [OF assms(2)] by simp
next
  case (start c)
  then show ?thesis using accounted_start [OF assms(2)] by simp
next
  case (give_back p)
  then show ?thesis using accounted_give_back [OF assms(2)] by simp
next
  case finish
  then show ?thesis using accounted_finish [OF assms(2)] by simp
qed (use assms(2) in simp)

section \<open>Nobody is left behind\<close>

text \<open>
  If the root fiber runs, nobody waits for an answer and nobody is lost, then every other fiber is
  over: a chain of fibers that wait for their children would end in one that waits for nothing.
\<close>

lemma nobody_left:
  assumes inv: "accounted a" and idle: "running a = main a" "waits a = {#}" "lost a = {}"
  shows "at_work a = {main a}"
proof (rule ccontr)
  have basis: "sound_basis a" and children: "sound_children a" and placed: "everyone_placed a"
    using inv unfolding accounted_def by auto
  let ?rest = "at_work a - {main a}"
  assume "at_work a \<noteq> {main a}"
  with basis have "?rest \<noteq> {}" "finite ?rest" unfolding sound_basis_def at_work_def by auto
  then have "Max (birth_of a ` ?rest) \<in> birth_of a ` ?rest" by (intro Max_in) simp_all
  then obtain f where f: "f \<in> ?rest" and "birth_of a f = Max (birth_of a ` ?rest)"
    by (rule imageE) (rule that, simp_all)
  with \<open>finite ?rest\<close> have youngest: "birth_of a g \<le> birth_of a f" if "g \<in> ?rest" for g
    using that by simp
  from f placed idle obtain c where c: "awaits_child a f c" unfolding everyone_placed_def by auto
  with basis have "c \<in> ?rest" unfolding awaits_child_def sound_basis_def by auto
  with youngest [of c] c children show False unfolding sound_children_def by (meson not_le)
qed

end
