(* ===== verification/System.thy ===== *)
theory System
  imports Hooks Accounts
begin

text \<open>
  All fibers together. A machine whose steps are the crate's own operations, as they are
  defined in the theories of the components: a hook or \<open>unblock\<close> called by the running fiber, a
  turn of the event loop on the root fiber, the spawning of a fiber and the end of one. A
  switch is the end of a step: the VM makes another fiber the running one, and what that one
  does is the next step.

  So nothing has to be assumed here of what a fiber does while it has control, which the
  theories of the components do with laws on a switch that comes back.
\<close>

section \<open>The virtual machine between two steps\<close>

text \<open>
  \<open>cur\<close> and \<open>live\<close> tell the running fiber and the fibers that have not ended, each with the block it
  was made with. A transfer or a raise makes its fiber the running one and changes nothing else; a
  new fiber is one that was not there, with the block it is given; the other calls of the crate
  keep both.
\<close>

definition core :: "('w \<Rightarrow> 64 word) \<Rightarrow> ('w \<Rightarrow> 64 word \<rightharpoonup> proc) \<Rightarrow> ('j, 'w) TokioScheduler \<Rightarrow>
    Unknown Fiber \<times> 'j GcCell \<times> 64 word \<times> (64 word \<rightharpoonup> proc)" where
  "core cur live s = (root_fiber s, futures_to_run s, cur (world s), live (world s))"

definition switched :: "('w \<Rightarrow> 64 word) \<Rightarrow> ('w \<Rightarrow> 64 word \<rightharpoonup> proc) \<Rightarrow> 64 word \<Rightarrow>
    ('j, 'w) TokioScheduler \<Rightarrow> ('j, 'w) TokioScheduler \<Rightarrow> bool" where
  "switched cur live f s t \<longleftrightarrow> root_fiber t = root_fiber s \<and> futures_to_run t = futures_to_run s \<and>
     cur (world t) = f \<and> live (world t) = live (world s)"

definition switching_vm :: "('j, 'w) TokioScheduler ruby_vm \<Rightarrow> ('w \<Rightarrow> 64 word) \<Rightarrow> ('w \<Rightarrow> 64 word \<rightharpoonup> proc) \<Rightarrow> bool" where
  "switching_vm R cur live \<longleftrightarrow>
     (\<forall>s. rb_fiber_current R s = cur (world s)) \<and>
     (\<forall>f s. rb_fiber_alive_p R f s \<longleftrightarrow> f \<in> dom (live (world s))) \<and>
     (\<forall>f args s. f \<in> dom (live (world s)) \<longrightarrow>
        (\<exists>v t. rb_fiber_transfer R f args s = (Ok v, t) \<and> switched cur live f s t) \<and>
        (\<exists>v t. rb_fiber_raise R f args s = (Ok v, t) \<and> switched cur live f s t)) \<and>
     (\<forall>h k v. keeps (core cur live) (rb_hash_aset R h k v)) \<and>
     (\<forall>kw b s. case rb_fiber_new R kw b s of
        (Ok f, t) \<Rightarrow> f \<notin> dom (live (world s)) \<and> root_fiber t = root_fiber s \<and> futures_to_run t = futures_to_run s \<and>
          cur (world t) = cur (world s) \<and> live (world t) = (live (world s))(f \<mapsto> b)
      | (r, t) \<Rightarrow> core cur live t = core cur live s)"

text \<open>
  What Tokio documents of a \<open>JoinSet\<close>, over the tasks \<open>members\<close> in it: \<open>spawn\<close> adds one; \<open>join_next\<close>
  answers \<open>None\<close> on an empty set, and otherwise takes one out, whose result it gives, or the
  error that it panicked or was aborted; it takes none out when the other branch of the \<open>select\<close>
  ends first; \<open>abort_all\<close> leaves the tasks in the set. What the tasks do when they are polled (see
  \<open>run_future\<close>) switches to no fiber: there is no task of \<open>timeout_after\<close> among them.
\<close>

definition task_set_laws :: "('j, 'w) platform \<Rightarrow> ('w \<Rightarrow> 64 word) \<Rightarrow> ('w \<Rightarrow> 64 word \<rightharpoonup> proc) \<Rightarrow> ('j \<Rightarrow> task multiset) \<Rightarrow> bool" where
  "task_set_laws P cur live members \<longleftrightarrow>
     (\<forall>t j. members (snd (js_spawn (tasks P) t j)) = add_mset t (members j)) \<and>
     (\<forall>j. members (js_abort_all (tasks P) j) = members j) \<and>
     (\<forall>ci s sel t. rt_select P ci s = (sel, t) \<longrightarrow>
        root_fiber t = root_fiber s \<and> cur (world t) = cur (world s) \<and> live (world t) = live (world s) \<and>
        read_count (futures_to_run t) = read_count (futures_to_run s) \<and>
        write_count (futures_to_run t) = write_count (futures_to_run s) \<and>
        (case sel of
           Joined None \<Rightarrow> members (cell_value (futures_to_run s)) = {#} \<and> members (cell_value (futures_to_run t)) = {#}
         | Joined (Some (Inr rf)) \<Rightarrow> \<exists>task. rf_fiber rf = ff_fiber task \<and>
             members (cell_value (futures_to_run s)) = add_mset task (members (cell_value (futures_to_run t)))
         | Joined (Some (Inl e)) \<Rightarrow> \<exists>task.
             members (cell_value (futures_to_run s)) = add_mset task (members (cell_value (futures_to_run t)))
         | _ \<Rightarrow> members (cell_value (futures_to_run t)) = members (cell_value (futures_to_run s))))"

definition machine_laws :: "('j, 'w) services \<Rightarrow> ('w \<Rightarrow> 64 word) \<Rightarrow> ('w \<Rightarrow> 64 word \<rightharpoonup> proc) \<Rightarrow> ('j \<Rightarrow> task multiset) \<Rightarrow> bool" where
  "machine_laws V cur live members \<longleftrightarrow>
     switching_vm (vm (sv_platform V)) cur live \<and>
     quiet_calls (core cur live) (sv_platform V) \<and>
     task_set_laws (sv_platform V) cur live members"

section \<open>The machine\<close>

text \<open>
  \<open>spawner\<close> is the variable \<open>transfer_back_to\<close> in the closure of a fiber, if the block that it was
  made with is such a closure. A block that Ruby gives is a \<open>RubyProc\<close>. \<open>ended\<close> are the fibers whose closure has given control back. They are suspended in that last
  transfer for good, which the VM does not know. \<open>stranded\<close> are the fibers whose task was taken
  out of the set by a turn of the loop that did not switch to them. \<open>birth\<close> numbers the fibers.
\<close>

record ('j, 'w) machine =
  sched :: "('j, 'w) TokioScheduler"
  ended :: "64 word set"
  stranded :: "64 word set"
  birth :: "64 word \<Rightarrow> nat"
  births :: nat

definition spawner :: "(64 word \<rightharpoonup> proc) \<Rightarrow> 64 word \<rightharpoonup> 64 word" where
  "spawner blocks c = (case blocks c of Some (ReturningProc b p) \<Rightarrow> Some (as_raw p) | _ \<Rightarrow> None)"

abbreviation root_of :: "('j, 'w) TokioScheduler \<Rightarrow> 64 word" where
  "root_of s \<equiv> as_raw (root_fiber s)"

definition tasks_in :: "('j \<Rightarrow> task multiset) \<Rightarrow> ('j, 'w) TokioScheduler \<Rightarrow> task multiset" where
  "tasks_in members s = members (cell_value (futures_to_run s))"

definition task_fibers :: "('j \<Rightarrow> task multiset) \<Rightarrow> ('j, 'w) TokioScheduler \<Rightarrow> 64 word multiset" where
  "task_fibers members s = image_mset (\<lambda>t. as_raw (ff_fiber t)) (tasks_in members s)"

definition passed_over :: "('w \<Rightarrow> 64 word) \<Rightarrow> ('w \<Rightarrow> 64 word \<rightharpoonup> proc) \<Rightarrow> ('j \<Rightarrow> task multiset) \<Rightarrow>
    ('j, 'w) TokioScheduler \<Rightarrow> ('j, 'w) TokioScheduler \<Rightarrow> 64 word set" where
  "passed_over cur live members s t =
     {f \<in> set_mset (task_fibers members s - task_fibers members t). f \<in> dom (live (world t)) \<and> f \<noteq> cur (world t)}"

inductive machine_step ::
  "('j, 'w) services \<Rightarrow> ('w \<Rightarrow> 64 word) \<Rightarrow> ('w \<Rightarrow> 64 word \<rightharpoonup> proc) \<Rightarrow> ('j \<Rightarrow> task multiset) \<Rightarrow>
   ('j, 'w) machine \<Rightarrow> ('j, 'w) machine \<Rightarrow> bool"
  for V cur live members where
  hook: "cur (world (sched m)) \<noteq> root_of (sched m) \<Longrightarrow> call_hook V h (sched m) = (r, s) \<Longrightarrow>
     machine_step V cur live members m (m\<lparr>sched := s\<rparr>)"
| unblock: "unblock (sv_platform V) b f (sched m) = (r, s) \<Longrightarrow>
     machine_step V cur live members m (m\<lparr>sched := s\<rparr>)"
| turn: "cur (world (sched m)) = root_of (sched m) \<Longrightarrow>
     run_iteration (sv_platform V) (sched m) = (ctl, s) \<Longrightarrow>
     machine_step V cur live members m
       (m\<lparr>sched := s, stranded := stranded m \<union> passed_over cur live members (sched m) s\<rparr>)"
| fiber: "fiber_impl (sv_platform V) (RubyProc blk) (sched m) = (Ok (VRef c), s) \<Longrightarrow>
     machine_step V cur live members m
       (m\<lparr>sched := s, birth := (birth m)(c := births m), births := Suc (births m)\<rparr>)"
| fiber_refused: "fiber_impl (sv_platform V) (RubyProc blk) (sched m) = (r, s) \<Longrightarrow> (\<And>v. r \<noteq> Ok v) \<Longrightarrow>
     machine_step V cur live members m (m\<lparr>sched := s\<rparr>)"
| end_closure: "cur (world (sched m)) = c \<Longrightarrow> live (world (sched m)) c = Some (ReturningProc blk p) \<Longrightarrow>
     transfer_back (vm (sv_platform V)) p result (sched m) = (Ok v, s) \<Longrightarrow>
     machine_step V cur live members m (m\<lparr>sched := s, ended := insert c (ended m)\<rparr>)"
| end_fiber: "cur (world (sched m)) = c \<Longrightarrow> c \<noteq> root_of (sched m) \<Longrightarrow>
     live (world (sched m)) c = Some (RubyProc blk) \<Longrightarrow>
     root_fiber s = root_fiber (sched m) \<Longrightarrow> futures_to_run s = futures_to_run (sched m) \<Longrightarrow>
     cur (world s) = root_of s \<Longrightarrow> live (world s) = (live (world (sched m)))(c := None) \<Longrightarrow>
     machine_step V cur live members m (m\<lparr>sched := s\<rparr>)"

text \<open>
  The machine starts with the root fiber alone, running, on a new scheduler.
\<close>

definition machine_start :: "('w \<Rightarrow> 64 word) \<Rightarrow> ('w \<Rightarrow> 64 word \<rightharpoonup> proc) \<Rightarrow> ('j \<Rightarrow> task multiset) \<Rightarrow> ('j, 'w) machine \<Rightarrow> bool" where
  "machine_start cur live members m \<longleftrightarrow> (\<exists>b.
     idle (futures_to_run (sched m)) \<and> members (cell_value (futures_to_run (sched m))) = {#} \<and>
     cur (world (sched m)) = root_of (sched m) \<and> live (world (sched m)) = [root_of (sched m) \<mapsto> RubyProc b] \<and>
     ended m = {} \<and> stranded m = {} \<and> birth m (root_of (sched m)) < births m)"

inductive machine_reaches ::
  "('j, 'w) services \<Rightarrow> ('w \<Rightarrow> 64 word) \<Rightarrow> ('w \<Rightarrow> 64 word \<rightharpoonup> proc) \<Rightarrow> ('j \<Rightarrow> task multiset) \<Rightarrow>
   ('j, 'w) machine \<Rightarrow> ('j, 'w) machine \<Rightarrow> bool"
  for V cur live members m0 where
  here: "machine_reaches V cur live members m0 m0"
| there: "machine_reaches V cur live members m0 m \<Longrightarrow> machine_step V cur live members m m' \<Longrightarrow>
     machine_reaches V cur live members m0 m'"

inductive_cases machine_stepE: "machine_step V cur live members m m'"

section \<open>The promise the machine keeps\<close>

definition accounts_of :: "('w \<Rightarrow> 64 word) \<Rightarrow> ('w \<Rightarrow> 64 word \<rightharpoonup> proc) \<Rightarrow> ('j \<Rightarrow> task multiset) \<Rightarrow> ('j, 'w) machine \<Rightarrow> accounts" where
  "accounts_of cur live members m =
     \<lparr>running = cur (world (sched m)), main = root_of (sched m), alive = dom (live (world (sched m))),
      waits = task_fibers members (sched m), parent = spawner (live (world (sched m))), over = ended m, lost = stranded m, birth_of = birth m,
      births_so_far = births m\<rparr>"

lemma spawner_upd:
  "spawner (blocks(c \<mapsto> b)) =
   (spawner blocks)(c := case b of ReturningProc b' p \<Rightarrow> Some (as_raw p) | _ \<Rightarrow> None)"
  by (auto simp: spawner_def split: proc.splits)

lemma switching_vmD:
  assumes "switching_vm R cur live"
  shows "rb_fiber_current R s = cur (world s)" "rb_fiber_alive_p R f s \<longleftrightarrow> f \<in> dom (live (world s))"
    "keeps (core cur live) (rb_hash_aset R h k v)"
  using assms by (simp_all add: switching_vm_def)

lemma switch_done:
  assumes "switching_vm R cur live" and "f \<in> dom (live (world s))"
  obtains v t where "rb_fiber_transfer R f args s = (Ok v, t)" and "switched cur live f s t"
  using assms unfolding switching_vm_def by blast

lemma raise_done:
  assumes "switching_vm R cur live" and "f \<in> dom (live (world s))"
  obtains v t where "rb_fiber_raise R f args s = (Ok v, t)" and "switched cur live f s t"
  using assms unfolding switching_vm_def by blast

lemma core_eqD:
  "core cur live t = core cur live s \<Longrightarrow> root_fiber t = root_fiber s \<and> futures_to_run t = futures_to_run s \<and>
     cur (world t) = cur (world s) \<and> live (world t) = live (world s)"
  by (simp add: core_def)

lemma core_ignores_blockers [simp]: "ignores_blockers (core cur live)"
  by (simp add: ignores_blockers_def core_def)

lemma accounts_of_core:
  "core cur live s = core cur live (sched m) \<Longrightarrow>
   accounts_of cur live members (m\<lparr>sched := s\<rparr>) = accounts_of cur live members m"
  by (simp add: core_def accounts_of_def task_fibers_def tasks_in_def)

lemma task_fibers_with_task:
  assumes "\<And>t j. members (snd (js_spawn (tasks P) t j)) = add_mset t (members j)"
  shows "task_fibers members (with_task P future s) = add_mset (rb_fiber_current (vm P) s) (task_fibers members s)"
  by (simp add: task_fibers_def tasks_in_def with_task_def assms)

lemma unblock_keeps:
  assumes "quiet_calls (core cur live) P"
  shows "keeps (core cur live) (unblock P b v)"
proof -
  have from_value: "keeps (core cur live) (from_value R v)" for R :: "('a, 'b) TokioScheduler ruby_vm"
    by (simp add: keeps_def from_value_def split: Value.split)
  have check: "keeps (core cur live) (check_suspended R f)" for R :: "('a, 'b) TokioScheduler ruby_vm" and f
    by (simp add: keeps_def check_suspended_def)
  have send: "keeps (core cur live) (case r of Some tx \<Rightarrow> map_err send_error (os_send (channels P) tx (VBool True))
      | None \<Rightarrow> ret ())" for r
    using assms by (auto simp: quiet_calls_def split: option.split)
  show ?thesis unfolding unblock_def
    by (intro keeps_try_then from_value check send on_blockers_keeps) simp
qed

lemma hook_step:
  assumes laws: "machine_laws V cur live members" and idle: "idle (futures_to_run s)"
    and root: "root_of s \<in> dom (live (world s))" "cur (world s) \<noteq> root_of s"
    and call: "call_hook V h s = (r, u)"
  shows "core cur live u = core cur live s \<or>
    (\<exists>t future. core cur live t = core cur live s \<and>
       switched cur live (root_of s) (with_task (sv_platform V) future t) u)"
proof -
  let ?P = "sv_platform V"
  have vm: "switching_vm (vm ?P) cur live" and quiet: "quiet_calls (core cur live) ?P"
    using laws by (auto simp: machine_laws_def)
  obtain t where t: "core cur live t = core cur live s"
    and out: "(\<exists>future. hook_future h future \<and> call_hook V h s = spawn_and_transfer ?P future t) \<or>
      (\<exists>r. call_hook V h s = (r, t) \<and> (\<forall>v. r \<noteq> Ok v))"
    using call_hook_ends_in_spawn [OF quiet core_ignores_blockers] unfolding ends_in_spawn_def by blast
  note same = core_eqD [OF t]
  from out show ?thesis
  proof
    assume "\<exists>future. hook_future h future \<and> call_hook V h s = spawn_and_transfer ?P future t"
    then obtain future where "call_hook V h s = transfer_to_root ?P (with_task ?P future t)"
      using idle same by (metis spawn_and_transfer_idle)
    moreover obtain v w where "rb_fiber_transfer (vm ?P) (root_of s) [] (with_task ?P future t) = (Ok v, w)"
      and w: "switched cur live (root_of s) (with_task ?P future t) w"
      using switch_done [OF vm, of "root_of s" "with_task ?P future t" "[]"] root same by auto
    ultimately have "u = w"
      using call root same
      by (simp add: transfer_to_root_def try_then_Ok check_suspended_Ok transfer_def switching_vmD [OF vm])
    with t w show ?thesis by blast
  qed (use call t in auto)
qed

lemma resumed_step:
  assumes vm: "switching_vm R cur live" and run: "resume_if_alive R rf s = (r, u)"
  defines "f \<equiv> as_raw (rf_fiber rf)"
  obtains (dead) "f \<notin> dom (live (world s))" "u = s" "r = Ok None"
    | (active) "f = cur (world s)"
    | (resumed) v where "f \<in> dom (live (world s))" "f \<noteq> cur (world s)" "switched cur live f s u" "r = Ok (Some v)"
    | (thrown) j where "f \<in> dom (live (world s))" "f \<noteq> cur (world s)" "u = s" "r = Err (Jump j)"
proof (cases "f \<in> dom (live (world s))")
  case False
  then have "resume_if_alive R rf s = (Ok None, s)" by (simp add: resume_dead switching_vmD [OF vm] f_def)
  with run False show thesis by (intro dead) simp_all
next
  case True
  show thesis
  proof (cases "f = cur (world s)")
    case False
    with True have sw: "switchable R (as_raw (rf_fiber rf)) s"
      by (simp add: switchable_def switching_vmD [OF vm] f_def)
    show thesis
    proof (cases "rf_value rf")
      case (Inr x)
      obtain w t where "rb_fiber_transfer R f [x] s = (Ok w, t)" "switched cur live f s t"
        by (rule switch_done [OF vm True])
      with run have "r = Ok (Some w)" "switched cur live f s u" by (simp_all add: resume_value [OF sw Inr] f_def)
      with True False show thesis by (intro resumed)
    next
      case (Inl e)
      show thesis
      proof (cases e)
        case (Error c msg)
        obtain w t where "rb_fiber_raise R f [rb_class_value R c, VStr msg] s = (Ok w, t)" "switched cur live f s t"
          by (rule raise_done [OF vm True])
        with run Error have "r = Ok (Some w)" "switched cur live f s u" by (simp_all add: resume_error [OF sw Inl] f_def)
        with True False show thesis by (intro resumed)
      next
        case (Exception x)
        obtain w t where "rb_fiber_raise R f [x] s = (Ok w, t)" "switched cur live f s t"
          by (rule raise_done [OF vm True])
        with run Exception have "r = Ok (Some w)" "switched cur live f s u" by (simp_all add: resume_error [OF sw Inl] f_def)
        with True False show thesis by (intro resumed)
      next
        case (Jump j)
        with run have "r = Err (Jump j)" "u = s" by (simp_all add: resume_error [OF sw Inl] fail_def)
        with True False show thesis by (intro thrown)
      qed
    qed
  qed (use active in blast)
qed

text \<open>
  A turn that takes a task out: of a fiber that is dead, or the running one, or that is switched
  to, or that is passed over.
\<close>

definition turn_took ::
  "('j, 'w) platform \<Rightarrow> ('w \<Rightarrow> 64 word) \<Rightarrow> ('w \<Rightarrow> 64 word \<rightharpoonup> proc) \<Rightarrow> 64 word \<Rightarrow> ('j, 'w) TokioScheduler \<Rightarrow>
   ('j, 'w) TokioScheduler \<Rightarrow> control \<Rightarrow> ('j, 'w) TokioScheduler \<Rightarrow> bool" where
  "turn_took P cur live f s t ctl u \<longleftrightarrow>
     f \<notin> dom (live (world s)) \<and> u = t \<or> f = cur (world s) \<or>
     f \<in> dom (live (world s)) \<and> f \<noteq> cur (world s) \<and> switched cur live f t u \<and> ctl = Continue \<or>
     u = t \<and> (\<exists>j. ctl = Return (Err (Jump j))) \<or>
     u = t \<and> ctl = Continue \<and>
       (\<exists>e. fst (rt_select P (check_interrupts (vm P) (clock P)) (awaiting s)) = Joined (Some (Inl e)))"

lemma turn_step:
  assumes laws: "machine_laws V cur live members" and idle: "idle (futures_to_run s)"
    and turn: "run_iteration (sv_platform V) s = (ctl, u)"
  obtains (no_task) "task_fibers members u = task_fibers members s" and "root_fiber u = root_fiber s"
      and "cur (world u) = cur (world s)" and "live (world u) = live (world s)" and "idle (futures_to_run u)"
      and "ctl = Return (Ok ()) \<and> tasks_in members s = {#} \<or> (\<exists>e. ctl = Return (Err e)) \<or> (\<exists>p. ctl = Return (Panic p))"
    | (took) f t where "task_fibers members s = add_mset f (task_fibers members t)"
      and "root_fiber t = root_fiber s" and "cur (world t) = cur (world s)" and "live (world t) = live (world s)"
      and "idle (futures_to_run t)" and "turn_took (sv_platform V) cur live f s t ctl u"
proof -
  let ?P = "sv_platform V"
  have vm: "switching_vm (vm ?P) cur live" and tasks: "task_set_laws ?P cur live members"
    using laws by (auto simp: machine_laws_def)
  have abort: "members (js_abort_all (Scheduler.tasks ?P) j) = members j" for j
    using tasks by (simp add: task_set_laws_def)
  obtain sel s2 where sel: "rt_select ?P (check_interrupts (vm ?P) (clock ?P)) (awaiting s) = (sel, s2)"
    by fastforce
  note after = tasks [unfolded task_set_laws_def, THEN conjunct2, THEN conjunct2, rule_format, OF sel]
  let ?t = "release_futures GcRefMut s2"
  have world: "world ?t = world s2" "root_fiber ?t = root_fiber s2"
    "cell_value (futures_to_run ?t) = cell_value (futures_to_run s2)"
    by (simp_all add: release_futures_def drop_ref_mut_def)
  have same: "world (awaiting s) = world s" "root_fiber (awaiting s) = root_fiber s"
      "cell_value (futures_to_run (awaiting s)) = cell_value (futures_to_run s)"
    by (simp_all add: awaiting_def)
  have free: "idle (futures_to_run ?t)"
    using after idle by (simp add: release_futures_def drop_ref_mut_def idle_def awaiting_def)
  note kept = after [THEN conjunct1] after [THEN conjunct2, THEN conjunct1]
    after [THEN conjunct2, THEN conjunct2, THEN conjunct1]
  show thesis
  proof (cases sel)
    case (Interrupted e)
    let ?u = "release_futures GcRefMut (abort_all ?P s2)"
    have u: "ctl = Return (Err e)" "u = ?u"
      using turn by (simp_all add: run_iteration_idle [OF idle] sel Interrupted)
    have "idle (futures_to_run ?u)" "world ?u = world s2" "root_fiber ?u = root_fiber s2"
      "members (cell_value (futures_to_run ?u)) = members (cell_value (futures_to_run s2))"
      using free abort by (simp_all add: release_futures_def abort_all_def drop_ref_mut_def idle_def)
    with after no_task show thesis
      by (simp add: u Interrupted task_fibers_def tasks_in_def world same)
  next
    case (Unwound p)
    have "ctl = Return (Panic p)" "u = ?t"
      using turn by (simp_all add: run_iteration_idle [OF idle] sel Unwound)
    with after free no_task show thesis
      by (simp add: Unwound task_fibers_def tasks_in_def world same)
  next
    case (Joined task)
    have handled: "handle_task ?P task ?t = (ctl, u)"
      using turn by (simp add: run_iteration_idle [OF idle] sel Joined)
    show thesis
    proof (cases task)
      case None
      from handled have u: "ctl = Return (Ok ())" "u = ?t" by (simp_all add: None handle_task_def)
      from after free no_task show thesis
        by (simp add: u None Joined task_fibers_def tasks_in_def world same)
    next
      case (Some joined)
      show thesis
      proof (cases joined)
        case (Inl e)
        with after obtain tk where "members (cell_value (futures_to_run s)) = add_mset tk (members (cell_value (futures_to_run ?t)))"
          by (auto simp: Joined Some world same)
        then have fibers: "task_fibers members s = add_mset (as_raw (ff_fiber tk)) (task_fibers members ?t)"
          by (simp add: task_fibers_def tasks_in_def)
        have "turn_took ?P cur live (as_raw (ff_fiber tk)) s ?t ctl u"
          using handled sel by (auto simp: turn_took_def handle_task_def Joined Some Inl)
        with fibers kept free took show thesis by (simp add: world same)
      next
        case (Inr rf)
        have fibers: "task_fibers members s = add_mset (as_raw (rf_fiber rf)) (task_fibers members ?t)"
          using after by (auto simp: Joined Some Inr task_fibers_def tasks_in_def world same)
        obtain r w where resumed: "resume_if_alive (vm ?P) rf ?t = (r, w)" by fastforce
        have "turn_took ?P cur live (as_raw (rf_fiber rf)) s ?t ctl u"
          by (rule resumed_step [OF vm resumed])
            (use handled kept in \<open>auto simp: turn_took_def handle_task_def Some Inr resumed world same\<close>)
        with fibers kept free took show thesis by (simp add: world same)
      qed
    qed
  qed
qed

lemma new_fiber_step:
  assumes vm: "switching_vm R cur live" and new: "new_nonblocking R blk s = (r, t)"
  shows "case r of
      Ok f \<Rightarrow> as_raw f \<notin> dom (live (world s)) \<and> root_fiber t = root_fiber s \<and> futures_to_run t = futures_to_run s \<and>
        cur (world t) = cur (world s) \<and> live (world t) = (live (world s))(as_raw f \<mapsto> blk)
    | _ \<Rightarrow> core cur live t = core cur live s"
proof -
  obtain h s1 where h: "rb_hash_aset R [] ''blocking'' (VBool False) s = (h, s1)" by fastforce
  with switching_vmD(3) [OF vm] have s1: "core cur live s1 = core cur live s"
    unfolding keeps_def by (metis snd_conv)
  note made = vm [unfolded switching_vm_def, THEN conjunct2, THEN conjunct2, THEN conjunct2, THEN conjunct2,
      rule_format, where s = s1]
  show ?thesis
  proof (cases h)
    case (Ok kw)
    with h new made [where kw = kw and b = blk] s1 core_eqD [OF s1] show ?thesis
      by (cases "rb_fiber_new R kw blk s1"; cases "fst (rb_fiber_new R kw blk s1)")
        (auto simp: new_nonblocking_def try_then_def ret_def core_def split: outcome.splits)
  qed (use h new s1 in \<open>auto simp: new_nonblocking_def try_then_def\<close>)
qed

lemma spawned_step:
  assumes vm: "switching_vm (vm P) cur live" and run: "fiber_impl P blk s = (r, u)"
  shows "case r of
      Ok v \<Rightarrow> \<exists>c t. v = VRef c \<and> c \<notin> dom (live (world s)) \<and> root_fiber t = root_fiber s \<and>
        futures_to_run t = futures_to_run s \<and> live (world t) = (live (world s))(c \<mapsto> if is_current_fiber_root P s then blk
          else ReturningProc blk (Fiber (cur (world s)))) \<and> switched cur live c t u
    | _ \<Rightarrow> core cur live u = core cur live s"
proof -
  define b where "b = (if is_current_fiber_root P s then blk else ReturningProc blk (as_unknown (current (vm P) s)))"
  obtain n t where n: "new_nonblocking (vm P) b s = (n, t)" by fastforce
  note made = new_fiber_step [OF vm n]
  show ?thesis
  proof (cases n)
    case (Ok f)
    with made have "as_raw f \<in> dom (live (world t))" by simp
    then obtain v w where "rb_fiber_transfer (vm P) (as_raw f) [] t = (Ok v, w)" and w: "switched cur live (as_raw f) t w"
      by (rule switch_done [OF vm])
    with n Ok run have "r = Ok (VRef (as_raw f))" "u = w"
      by (simp_all add: fiber_impl_def Let_def b_def [symmetric] try_then_Ok transfer_def ret_def into_value_def)
    moreover have "b = (if is_current_fiber_root P s then blk else ReturningProc blk (Fiber (cur (world s))))"
      by (simp add: b_def current_def as_unknown_def switching_vmD [OF vm])
    ultimately show ?thesis using made Ok w by auto
  qed (use n run made in \<open>auto simp: fiber_impl_def Let_def b_def [symmetric] try_then_def\<close>)
qed

lemma gave_back_step:
  assumes vm: "switching_vm R cur live" and run: "transfer_back R (Fiber p) result s = (Ok v, u)"
  shows "p \<in> dom (live (world s)) \<and> switched cur live p s u"
proof -
  have check: "check_suspended R (Fiber p) s = (Ok f, t) \<Longrightarrow> p \<in> dom (live (world s)) \<and> f = Fiber p \<and> t = s" for f t
    by (auto simp: check_suspended_def fiber_defs switching_vmD [OF vm] split: if_splits)
  show ?thesis
  proof (cases result)
    case (Ok x)
    with run have "try_then (check_suspended R (Fiber p)) (\<lambda>f. transfer R f [x]) s = (Ok v, u)"
      by (simp add: transfer_back_def match_result_def ret_def)
    then obtain f t where f: "check_suspended R (Fiber p) s = (Ok f, t)" "transfer R f [x] t = (Ok v, u)"
      by (rule try_then_OkE)
    with check switch_done [OF vm, of p s "[x]"] show ?thesis by (auto simp: transfer_def)
  next
    case (Err e)
    with run have "try_then (check_suspended R (Fiber p)) (\<lambda>f. raise_error R f e) s = (Ok v, u)"
      by (simp add: transfer_back_def match_result_def fail_def)
    then obtain f t where f: "check_suspended R (Fiber p) s = (Ok f, t)" "raise_error R f e t = (Ok v, u)"
      by (rule try_then_OkE)
    have p: "p \<in> dom (live (world s))" "f = Fiber p" "t = s" using check [OF f(1)] by auto
    show ?thesis
    proof (cases e)
      case (Error c msg)
      obtain w u' where "rb_fiber_raise R p [rb_class_value R c, VStr msg] s = (Ok w, u')" "switched cur live p s u'"
        using p by (auto intro: raise_done [OF vm])
      with f(2) p Error show ?thesis by simp
    next
      case (Exception x)
      obtain w u' where "rb_fiber_raise R p [x] s = (Ok w, u')" "switched cur live p s u'"
        using p by (auto intro: raise_done [OF vm])
      with f(2) p Exception show ?thesis by simp
    next
      case (Jump j)
      with f(2) show ?thesis by (simp add: fail_def)
    qed
  next
    case (Panic q)
    with run show ?thesis by (simp add: transfer_back_def match_result_def panic_def)
  qed
qed

section \<open>The code keeps the promise\<close>

text \<open>
  The set of tasks is free between any two steps, and the accounts add up.
\<close>

definition in_order :: "('w \<Rightarrow> 64 word) \<Rightarrow> ('w \<Rightarrow> 64 word \<rightharpoonup> proc) \<Rightarrow> ('j \<Rightarrow> task multiset) \<Rightarrow> ('j, 'w) machine \<Rightarrow> bool" where
  "in_order cur live members m \<longleftrightarrow> idle (futures_to_run (sched m)) \<and> accounted (accounts_of cur live members m)"

lemma in_order_accounts:
  assumes "in_order cur live members m"
  shows "sound_waits (accounts_of cur live members m)" "sound_children (accounts_of cur live members m)"
    "sound_lost (accounts_of cur live members m)" "everyone_placed (accounts_of cur live members m)"
    "accounted (accounts_of cur live members m)"
  using assms by (auto simp: in_order_def accounted_def)

lemma task_fiber_waits:
  assumes "in_order cur live members m" and "f \<in># task_fibers members (sched m)"
  shows "f \<in> dom (live (world (sched m)))" "f \<notin> ended m" "f \<noteq> root_of (sched m)" "f \<noteq> cur (world (sched m))"
  using in_order_accounts(1) [OF assms(1)] assms(2)
  by (auto simp: accounts_of_def sound_waits_def at_work_def)

lemma in_orderD:
  assumes "in_order cur live members m"
  shows "idle (futures_to_run (sched m))" "root_of (sched m) \<in> dom (live (world (sched m)))"
    "cur (world (sched m)) \<in> dom (live (world (sched m)))"
  using assms by (auto simp: in_order_def accounted_def sound_basis_def at_work_def accounts_of_def)

lemma task_fibers_cong: "futures_to_run t = futures_to_run s \<Longrightarrow> task_fibers members t = task_fibers members s"
  by (simp add: task_fibers_def tasks_in_def)

lemma step_simulates:
  assumes laws: "machine_laws V cur live members" and inv: "in_order cur live members m"
    and step: "machine_step V cur live members m m'"
  shows "account_step (accounts_of cur live members m) (accounts_of cur live members m') \<and>
    idle (futures_to_run (sched m'))"
  using step
proof cases
  note idle = in_orderD(1) [OF inv] and root = in_orderD(2) [OF inv]
  have vm: "switching_vm (vm (sv_platform V)) cur live" and quiet: "quiet_calls (core cur live) (sv_platform V)"
    and spawns: "\<And>t j. members (snd (js_spawn (tasks (sv_platform V)) t j)) = add_mset t (members j)"
    using laws by (auto simp: machine_laws_def task_set_laws_def)
  have stay: "account_step (accounts_of cur live members m) (accounts_of cur live members (m\<lparr>sched := s\<rparr>)) \<and>
      idle (futures_to_run s)" if "core cur live s = core cur live (sched m)" for s
    using accounts_of_core [OF that] core_eqD [OF that] idle by (simp add: account_step.stay)
  {
    case (hook h r s)
    from hook_step [OF laws idle root hook(2,3)] show ?thesis
    proof (elim disjE exE conjE)
      fix t future
      assume t: "core cur live t = core cur live (sched m)"
        and s: "switched cur live (root_of (sched m)) (with_task (sv_platform V) future t) s"
      have "idle (futures_to_run s)"
        using s idle core_eqD [OF t] by (simp add: switched_def idle_def)
      moreover have "accounts_of cur live members m' = (accounts_of cur live members m)
          \<lparr>waits := add_mset (cur (world (sched m))) (task_fibers members (sched m)), running := root_of (sched m)\<rparr>"
        using s core_eqD [OF t] task_fibers_with_task [where members = members, OF spawns, of future t] hook(1)
          task_fibers_cong [of s "with_task (sv_platform V) future t" members]
          task_fibers_cong [of t "sched m" members]
        by (simp add: accounts_of_def switched_def switching_vmD [OF vm])
      ultimately show ?thesis
        using account_step.wait [of "accounts_of cur live members m"] hook by (simp add: accounts_of_def)
    qed (use stay hook in simp)
  next
    case (unblock b f r s)
    with unblock_keeps [OF quiet, of b f] have "core cur live s = core cur live (sched m)"
      unfolding keeps_def by (metis snd_conv)
    with stay unblock show ?thesis by simp
  next
    case (turn ctl s)
    let ?a = "accounts_of cur live members m"
    have new: "accounts_of cur live members m' = ?a\<lparr>running := cur (world s), main := root_of s, alive := dom (live (world s)),
        parent := spawner (live (world s)), waits := task_fibers members s, lost := stranded m \<union> passed_over cur live members (sched m) s\<rparr>"
      using turn(1) by (simp add: accounts_of_def)
    show ?thesis
    proof (rule turn_step [OF laws idle turn(3)])
      assume same: "task_fibers members s = task_fibers members (sched m)" "root_fiber s = root_fiber (sched m)"
        "cur (world s) = cur (world (sched m))" "live (world s) = live (world (sched m))" "idle (futures_to_run s)"
      then have "accounts_of cur live members m' = ?a"
        unfolding new by (simp add: passed_over_def accounts_of_def)
      with account_step.stay same(5) turn(1) show ?thesis by simp
    next
      fix f t
      assume fibers: "task_fibers members (sched m) = add_mset f (task_fibers members t)"
        and same: "root_fiber t = root_fiber (sched m)" "cur (world t) = cur (world (sched m))"
          "live (world t) = live (world (sched m))" and free: "idle (futures_to_run t)"
        and took: "turn_took (sv_platform V) cur live f (sched m) t ctl s"
      have f: "f \<in> dom (live (world (sched m)))" "f \<noteq> cur (world (sched m))"
        by (rule task_fiber_waits [OF inv]; simp add: fibers)+
      from took f consider
          (switch) "switched cur live f t s"
        | (pass) "s = t"
        by (auto simp: turn_took_def)
      then show ?thesis
      proof cases
        case switch
        then have "passed_over cur live members (sched m) s = {}"
          using fibers task_fibers_cong [of s t members] by (auto simp: passed_over_def switched_def)
        with account_step.answer [of ?a f "task_fibers members t"] turn(1,2) fibers same free switch f
          task_fibers_cong [of s t members] task_fiber_waits(3) [OF inv, of f]
        show ?thesis by (simp add: new) (simp add: accounts_of_def switched_def)
      next
        case pass
        then have "passed_over cur live members (sched m) s = {f}"
          using fibers same f by (auto simp: passed_over_def)
        with account_step.lose [of ?a f "task_fibers members t"] turn(1,2) fibers same free pass f
        show ?thesis by (simp add: new) (simp add: accounts_of_def)
      qed
    qed
  next
    case (fiber blk c s)
    let ?a = "accounts_of cur live members m" and ?s = "sched m"
    let ?b = "if is_current_fiber_root (sv_platform V) ?s then RubyProc blk
      else ReturningProc (RubyProc blk) (Fiber (cur (world ?s)))"
    from spawned_step [OF vm fiber(2)] obtain t where t: "c \<notin> dom (live (world ?s))" "root_fiber t = root_fiber ?s"
        "futures_to_run t = futures_to_run ?s" "live (world t) = (live (world ?s))(c \<mapsto> ?b)" "switched cur live c t s"
      by auto
    have parent: "spawner (live (world t)) = (spawner (live (world ?s)))
        (c := if cur (world ?s) = root_of ?s then None else Some (cur (world ?s)))"
      by (simp add: t(4) spawner_upd root_test switching_vmD [OF vm] eq_commute)
    have "accounts_of cur live members m' = ?a\<lparr>running := c, alive := insert c (alive ?a),
        parent := (parent ?a)(c := if running ?a = main ?a then None else Some (running ?a)),
        birth_of := (birth_of ?a)(c := births_so_far ?a), births_so_far := Suc (births_so_far ?a)\<rparr>"
      using t parent task_fibers_cong [of s ?s members] fiber(1) by (simp add: accounts_of_def switched_def)
    with account_step.start [of c ?a] t fiber(1) idle show ?thesis by (simp add: accounts_of_def switched_def)
  next
    case (fiber_refused blk r s)
    with spawned_step [OF vm fiber_refused(2)] have "core cur live s = core cur live (sched m)"
      by (auto split: outcome.splits)
    with stay fiber_refused show ?thesis by simp
  next
    case (end_closure c blk p result v s)
    obtain f where p: "p = Fiber f" by (cases p)
    from gave_back_step [OF vm end_closure(4) [unfolded p]] have "f \<in> dom (live (world (sched m)))"
      "switched cur live f (sched m) s" by auto
    with account_step.give_back [of "accounts_of cur live members m" f] end_closure idle
      task_fibers_cong [of s "sched m" members]
    show ?thesis by (simp add: accounts_of_def switched_def spawner_def p)
  next
    case (end_fiber c blk s)
    have "spawner (live (world s)) = spawner (live (world (sched m)))"
      using end_fiber by (auto simp: spawner_def)
    with account_step.finish [of "accounts_of cur live members m"] end_fiber idle
      task_fibers_cong [of s "sched m" members]
    show ?thesis by (simp add: accounts_of_def) (simp add: spawner_def)
  }
qed

lemma in_order_start:
  assumes "machine_start cur live members m"
  shows "in_order cur live members m"
proof -
  have "spawner (live (world (sched m))) = Map.empty"
    using assms by (auto simp: machine_start_def spawner_def fun_eq_iff)
  with assms show ?thesis
    by (auto simp: machine_start_def in_order_def accounted_def accounts_of_def sound_basis_def sound_waits_def
      sound_children_def sound_lost_def everyone_placed_def at_work_def awaits_child_def task_fibers_def
      tasks_in_def split: if_splits)
qed

lemma in_order_reached:
  assumes laws: "machine_laws V cur live members" and start: "machine_start cur live members m0"
    and reach: "machine_reaches V cur live members m0 m"
  shows "in_order cur live members m"
  using reach
proof induction
  case here
  show ?case by (rule in_order_start [OF start])
next
  case (there m m')
  from step_simulates [OF laws there(3,2)] account_step_preserves there(3) show ?case
    unfolding in_order_def by blast
qed

text \<open>
  C3. The crate's operations, called in any order by any number of fibers, refine the abstract
  machine of \<open>Accounts\<close>: a hook is "the running fiber waits for one answer, the root runs", a turn
  of the loop is "one waiting fiber gets its answer and runs" or "its answer is lost", and nothing
  else happens to the fibers.
\<close>

theorem machine_refines_accounts:
  assumes "machine_laws V cur live members" and "machine_start cur live members m0"
    and "machine_reaches V cur live members m0 m" and "machine_step V cur live members m m'"
  shows "account_step (accounts_of cur live members m) (accounts_of cur live members m')"
  using step_simulates [OF assms(1) in_order_reached [OF assms(1-3)] assms(4)] by blast

text \<open>
  C1. In every state that is reached the task set is free; its tasks are for fibers that are alive,
  suspended and at work, one task each; and every fiber at work is accounted for: it is the root
  fiber, or runs, or has its one task, or waits for a fiber it spawned that is still at work, or
  is one that the loop passed over. Those stay suspended and have no task. So no wait is answered
  twice, and none is lost in any other way.
\<close>

theorem fibers_accounted:
  assumes "machine_laws V cur live members" and "machine_start cur live members m0"
    and "machine_reaches V cur live members m0 m"
  defines "s \<equiv> sched m" and "busy \<equiv> dom (live (world (sched m))) - ended m"
  shows "idle (futures_to_run s) \<and>
    (\<forall>f \<in># task_fibers members s. f \<in> busy \<and> f \<noteq> root_of s \<and> f \<noteq> cur (world s)) \<and>
    (\<forall>f. count (task_fibers members s) f \<le> 1) \<and>
    (\<forall>f \<in> busy. f = root_of s \<or> f = cur (world s) \<or> f \<in># task_fibers members s \<or> f \<in> stranded m \<or>
       (\<exists>c \<in> busy. spawner (live (world s)) c = Some f)) \<and>
    (\<forall>f \<in> stranded m. f \<in> busy \<and> f \<noteq> root_of s \<and> f \<noteq> cur (world s) \<and> f \<notin># task_fibers members s)"
proof -
  have inv: "in_order cur live members m" by (rule in_order_reached [OF assms(1-3)])
  obtain D where D: "dom (live (world (sched m))) = D" by blast
  from in_order_accounts(1,3,4) [OF inv] in_orderD(1) [OF inv] show ?thesis
    unfolding s_def busy_def sound_waits_def sound_lost_def everyone_placed_def at_work_def awaits_child_def
    by (auto simp: accounts_of_def D)
qed

text \<open>
  C4. A turn of the loop, on every branch. Either it takes no task, switches to nobody and the
  loop returns. Or it takes the only task of one fiber that is alive and at work, and switches to
  that fiber, so the answer is for the wait the fiber is suspended in. Or it passes that fiber
  over: the task panicked or was aborted, or its error is a jump out of a block (\<open>throw\<close>, \<open>break\<close>),
  which cannot be raised in a fiber.
\<close>

theorem turn_resumes_waiting:
  assumes laws: "machine_laws V cur live members" and start: "machine_start cur live members m0"
    and reach: "machine_reaches V cur live members m0 m"
    and turn: "run_iteration (sv_platform V) (sched m) = (ctl, s)"
  defines "joined \<equiv> fst (rt_select (sv_platform V)
      (check_interrupts (vm (sv_platform V)) (clock (sv_platform V))) (awaiting (sched m)))"
  shows "task_fibers members s = task_fibers members (sched m) \<and> cur (world s) = cur (world (sched m)) \<and>
      (\<exists>r. ctl = Return r) \<or>
    (\<exists>f. task_fibers members (sched m) = add_mset f (task_fibers members s) \<and> f \<notin># task_fibers members s \<and>
       f \<in> dom (live (world s)) - ended m \<and> f \<noteq> root_of s \<and>
       (cur (world s) = f \<and> ctl = Continue \<or>
        cur (world s) = cur (world (sched m)) \<and>
          (ctl = Continue \<and> (\<exists>e. joined = Joined (Some (Inl e))) \<or> (\<exists>j. ctl = Return (Err (Jump j))))))"
proof -
  have inv: "in_order cur live members m" by (rule in_order_reached [OF laws start reach])
  show ?thesis
  proof (rule turn_step [OF laws in_orderD(1) [OF inv] turn])
    fix f t
    assume fibers: "task_fibers members (sched m) = add_mset f (task_fibers members t)"
      and same: "root_fiber t = root_fiber (sched m)" "cur (world t) = cur (world (sched m))"
        "live (world t) = live (world (sched m))"
      and took: "turn_took (sv_platform V) cur live f (sched m) t ctl s"
    note f = task_fiber_waits [OF inv, of f, unfolded fibers, simplified]
    have once: "f \<notin># task_fibers members t"
      using sound_waitsD(4) [OF in_order_accounts(1) [OF inv], of f] fibers by (simp add: accounts_of_def not_in_iff)
    have s: "root_fiber s = root_fiber t" "live (world s) = live (world t)" "task_fibers members s = task_fibers members t"
      using took f task_fibers_cong [of s t members] by (auto simp: turn_took_def switched_def)
    have "cur (world s) = f \<and> ctl = Continue \<or> cur (world s) = cur (world (sched m)) \<and>
        (ctl = Continue \<and> (\<exists>e. joined = Joined (Some (Inl e))) \<or> (\<exists>j. ctl = Return (Err (Jump j))))"
      using took f same by (auto simp: turn_took_def switched_def joined_def)
    with fibers same once f s show ?thesis by auto
  qed auto
qed

text \<open>
  C2. When the loop returns success, no task is left; and unless it passed a fiber over, every
  fiber has run to its end: except for the root fiber, those the VM still counts as alive have
  given control back to the fiber that spawned them, in the last statement of their closure. And
  as long as some other fiber is at work, and none was passed over, the loop has a task to wait
  for.
\<close>

theorem run_completes_fibers:
  assumes laws: "machine_laws V cur live members" and start: "machine_start cur live members m0"
    and reach: "machine_reaches V cur live members m0 m" and root: "cur (world (sched m)) = root_of (sched m)"
  shows "(run_iteration (sv_platform V) (sched m) = (Return (Ok ()), s) \<longrightarrow>
      tasks_in members s = {#} \<and> (stranded m = {} \<longrightarrow> dom (live (world s)) - ended m = {root_of s})) \<and>
    (stranded m = {} \<longrightarrow>
      (tasks_in members (sched m) = {#} \<longleftrightarrow> dom (live (world (sched m))) - ended m = {root_of (sched m)}))"
proof -
  let ?s = "sched m"
  have inv: "in_order cur live members m" by (rule in_order_reached [OF laws start reach])
  have empty: "tasks_in members ?s = {#} \<longleftrightarrow> dom (live (world ?s)) - ended m = {root_of ?s}" if all: "stranded m = {}"
  proof
    assume "tasks_in members ?s = {#}"
    with nobody_left [OF in_order_accounts(5) [OF inv]] root all
    show "dom (live (world ?s)) - ended m = {root_of ?s}"
      by (simp add: accounts_of_def at_work_def task_fibers_def)
  next
    assume alone: "dom (live (world ?s)) - ended m = {root_of ?s}"
    have "f \<notin># task_fibers members ?s" for f
      using task_fiber_waits [OF inv, of f] alone by auto
    then have "set_mset (task_fibers members ?s) = {}" by blast
    then show "tasks_in members ?s = {#}" by (simp add: task_fibers_def)
  qed
  moreover have "tasks_in members s = {#} \<and> tasks_in members ?s = {#} \<and> live (world s) = live (world ?s) \<and>
      root_fiber s = root_fiber ?s"
    if ret: "run_iteration (sv_platform V) ?s = (Return (Ok ()), s)"
  proof (rule turn_step [OF laws in_orderD(1) [OF inv] ret])
    fix f t
    assume "task_fibers members ?s = add_mset f (task_fibers members t)"
      and took: "turn_took (sv_platform V) cur live f ?s t (Return (Ok ())) s"
    then have "f \<in> dom (live (world ?s))" "f \<noteq> cur (world ?s)"
      using task_fiber_waits [OF inv, of f] by simp_all
    with took show ?thesis by (auto simp: turn_took_def)
  qed (simp add: task_fibers_def)
  ultimately show ?thesis by auto
qed

end
