(* ===== verification/SystemSamples.thy ===== *)
theory SystemSamples
  imports System
begin

text \<open>
  A small virtual machine on which the laws of \<open>System\<close> hold together: it keeps the running fiber,
  the fibers that are alive and the number of the next one. Its task set is a list. The witnesses
  of the properties of \<open>System\<close> run on it: the root fiber spawns a fiber, which waits for a
  process, is resumed by the loop and ends. The task that waits for process 9 panics. It models no
  code of the crate.
\<close>

section \<open>The virtual machine\<close>

record fiber_world =
  fw_current :: "64 word"
  fw_live :: "(64 word \<times> proc) list"
  fw_next :: "64 word"

type_synonym fiber_state = "(task list, fiber_world) TokioScheduler"

abbreviation fw_cur :: "fiber_world \<Rightarrow> 64 word" where
  "fw_cur \<equiv> fw_current"

abbreviation fw_set :: "fiber_world \<Rightarrow> 64 word \<rightharpoonup> proc" where
  "fw_set w \<equiv> map_of (fw_live w)"

definition fw_switch :: "64 word \<Rightarrow> Value list \<Rightarrow> (fiber_state, Value, error) action" where
  "fw_switch f args s = (Ok VNil, s\<lparr>world := (world s)\<lparr>fw_current := f\<rparr>\<rparr>)"

definition fw_new :: "kwargs \<Rightarrow> proc \<Rightarrow> (fiber_state, 64 word, error) action" where
  "fw_new kw b s = (let w = world s; f = fw_next w in
     if f \<in> fst ` set (fw_live w) then (Err (Error StandardError ''no fiber''), s)
     else (Ok f, s\<lparr>world := w\<lparr>fw_live := (f, b) # fw_live w, fw_next := f + 16\<rparr>\<rparr>))"

definition fw_vm :: "fiber_state ruby_vm" where
  "fw_vm = \<lparr>
     rb_fiber_current = (\<lambda>s. fw_current (world s)),
     rb_fiber_alive_p = (\<lambda>f s. f \<in> fst ` set (fw_live (world s))),
     rb_obj_is_fiber = (\<lambda>f s. True), rb_classname = (\<lambda>v s. ''IO''), rb_class_value = (\<lambda>c. VNil),
     rb_fiber_yield = (\<lambda>args. ret 0),
     rb_fiber_resume = fw_switch, rb_fiber_transfer = fw_switch, rb_fiber_raise = fw_switch,
     rb_hash_aset = (\<lambda>h k v. ret ((k, v) # h)), rb_fiber_new = fw_new,
     rb_proc_call = (\<lambda>b args. ret (VInt 1)), rb_block_given = (\<lambda>s. True), rb_block_proc = ret (RubyProc 96),
     rb_new_exception = (\<lambda>c m. ret (VRef 80)), rb_io_try_convert = ret, rb_io_fileno = (\<lambda>v. ret 3),
     rb_during_gc = (\<lambda>s. 0), rb_thread_check_ints = fail (Error RuntimeError ''interrupted'')\<rparr>"

definition fw_select ::
  "(fiber_state \<Rightarrow> ((Value, error) outcome \<times> fiber_state) option) \<Rightarrow> fiber_state \<Rightarrow> selected \<times> fiber_state" where
  "fw_select ci s = (case cell_value (futures_to_run s) of
     [] \<Rightarrow> (Joined None, s)
   | t # ts \<Rightarrow> (Joined (Some (if ff_future t = ProcessFuture 9 0 then Inl ''panic''
                              else Inr \<lparr>rf_fiber = ff_fiber t, rf_value = Inr VNil\<rparr>)),
                s\<lparr>futures_to_run := (futures_to_run s)\<lparr>cell_value := ts\<rparr>\<rparr>))"

definition fw_platform :: "(task list, fiber_world) platform" where
  "fw_platform = \<lparr>
     vm = fw_vm, tasks = sample_tasks\<lparr>js_abort_all := (\<lambda>ts. ts)\<rparr>,
     channels = \<lparr>os_channel = (\<lambda>s. (0, s)), os_send = (\<lambda>ch v. ret ()), os_recv = (\<lambda>ch. ret VNil),
       os_drop_tx = (\<lambda>ch s. s), os_drop_rx = (\<lambda>ch s. s)\<rparr>,
     clock = \<lparr>tk_now = (\<lambda>s. \<lparr>tv_sec = 5, tv_nsec = 7\<rparr>), tk_sleep_until = (\<lambda>i s. s), tk_tick = (\<lambda>s. s),
       tk_timeout_at = (\<lambda>i f s. case f s of (r, t) \<Rightarrow> (Some r, t))\<rparr>,
     io_driver = sample_io, rt_select = fw_select, rt_drop_set = (\<lambda>ts s. s),
     rt_driving = (\<lambda>s. False), rt_shutdown = (\<lambda>rt d s. s)\<rparr>"

definition fw_services :: "(task list, fiber_world) services" where
  "fw_services = \<lparr>
     sv_platform = fw_platform,
     sv_files = \<lparr>f_getfl = (\<lambda>fd. ret 0), f_setfl = (\<lambda>fd f. ret ()), oflag_all = 4095, O_NONBLOCK = 2048\<rparr>,
     sv_events = \<lparr>RUBY_IO_READABLE = 1, RUBY_IO_WRITABLE = 4, RUBY_IO_PRIORITY = 2\<rparr>,
     sv_interns = sample_interns (\<lambda>s. Map.empty) (\<lambda>c s. s), sv_selects = sample_select_ops,
     sv_buffers = sample_buffers, sv_async = sample_async, sv_net = sample_net,
     sv_await_process = (\<lambda>st. ret VNil), sv_scan_select = (\<lambda>args. Ok (None, None, None, None)),
     sv_to_text = (\<lambda>v. Ok [])\<rparr>"

lemma fw_services_simps [simp]:
  "sv_platform fw_services = fw_platform" "vm fw_platform = fw_vm" "tasks fw_platform = sample_tasks\<lparr>js_abort_all := (\<lambda>ts. ts)\<rparr>"
  "io_driver fw_platform = sample_io" "rt_select fw_platform = fw_select"
  by (simp_all add: fw_services_def fw_platform_def)

lemma fw_vm_simps [simp]:
  "rb_fiber_current fw_vm s = fw_current (world s)"
  "rb_fiber_alive_p fw_vm f s \<longleftrightarrow> f \<in> fst ` set (fw_live (world s))"
  "rb_fiber_transfer fw_vm = fw_switch" "rb_fiber_raise fw_vm = fw_switch"
  "rb_fiber_new fw_vm = fw_new" "rb_hash_aset fw_vm h k v = ret ((k, v) # h)"
  by (simp_all add: fw_vm_def)

lemma fw_switching: "switching_vm fw_vm fw_cur fw_set"
  by (simp add: switching_vm_def switched_def fw_switch_def fw_new_def Let_def keeps_def core_def ret_def
      dom_map_of_conv_image_fst)

lemma fw_quiet: "quiet_calls (core fw_cur fw_set) fw_platform"
  by (simp add: quiet_calls_def keeps_def fw_platform_def fw_vm_def sample_io_def ret_def)

lemma fw_tasks: "task_set_laws fw_platform fw_cur fw_set mset"
  by (auto simp: task_set_laws_def sample_tasks_def fw_select_def split: list.splits)

lemma fw_laws: "machine_laws fw_services fw_cur fw_set mset"
  by (simp add: machine_laws_def fw_switching fw_quiet fw_tasks)

section \<open>A run of the machine\<close>

text \<open>
  Root fiber 16 alone; fiber 48 spawned and running; 48 waiting for a process with the root
  running; 48 resumed; 48 ended.
\<close>

definition fw_machine :: "task list \<Rightarrow> 64 word \<Rightarrow> 64 word list \<Rightarrow> nat \<Rightarrow> (task list, fiber_world) machine" where
  "fw_machine ts c fs n = \<lparr>
     sched = \<lparr>root_fiber = Fiber 16, futures_to_run = new_cell ts, runtime = Some (Suc 0), blockers = new_cell Map.empty,
       world = \<lparr>fw_current = c, fw_live = map (\<lambda>f. (f, RubyProc 7)) fs, fw_next = 48 + 16 * of_nat n\<rparr>\<rparr>,
     ended = {}, stranded = {}, birth = (\<lambda>f. 0)(48 := n), births = Suc n\<rparr>"

definition fw_wait :: task where
  "fw_wait = \<lparr>ff_future = ProcessFuture 7 0, ff_fiber = Fiber 48\<rparr>"

abbreviation fw_start :: "(task list, fiber_world) machine" where
  "fw_start \<equiv> (fw_machine [] 16 [16] 0)"

abbreviation fw_step :: "(task list, fiber_world) machine \<Rightarrow> (task list, fiber_world) machine \<Rightarrow> bool" where
  "fw_step \<equiv> machine_step fw_services fw_cur fw_set mset"

abbreviation fw_reaches :: "(task list, fiber_world) machine \<Rightarrow> bool" where
  "fw_reaches \<equiv> machine_reaches fw_services fw_cur fw_set mset fw_start"

lemma fw_machine_simps [simp]:
  "world (sched (fw_machine ts c fs n)) = \<lparr>fw_current = c, fw_live = map (\<lambda>f. (f, RubyProc 7)) fs, fw_next = 48 + 16 * of_nat n\<rparr>"
  "root_fiber (sched (fw_machine ts c fs n)) = Fiber 16"
  "cell_value (futures_to_run (sched (fw_machine ts c fs n))) = ts"
  "idle (futures_to_run (sched (fw_machine ts c fs n)))"
  "ended (fw_machine ts c fs n) = {}" "stranded (fw_machine ts c fs n) = {}"
  by (simp_all add: fw_machine_def) (simp_all add: new_cell_def)

lemma fw_started: "machine_start fw_cur fw_set mset fw_start"
  by (simp add: machine_start_def) (auto simp: fw_machine_def)

lemma fw_spawn: "fw_step fw_start (fw_machine [] 48 [48, 16] (Suc 0))"
proof -
  have run: "fiber_impl (sv_platform fw_services) (RubyProc 7) (sched fw_start) =
      (Ok (VRef 48), sched (fw_machine [] 48 [48, 16] (Suc 0)))"
    by (simp add: fiber_impl_def Let_def root_test new_nonblocking_def try_then_def ret_def transfer_def fw_new_def
        fw_switch_def into_value_def) (simp add: fw_machine_def)
  have "fw_machine [] 48 [48, 16] (Suc 0) = fw_start\<lparr>sched := sched (fw_machine [] 48 [48, 16] (Suc 0)),
      birth := (birth fw_start)(48 := births fw_start), births := Suc (births fw_start)\<rparr>"
    by (simp add: fw_machine_def fun_eq_iff)
  with machine_step.fiber [OF run, of fw_cur fw_set mset] show ?thesis by simp
qed

lemma fw_hook: "fw_step (fw_machine [] 48 [48, 16] (Suc 0)) (fw_machine [fw_wait] 16 [48, 16] (Suc 0))"
proof -
  let ?m = "fw_machine [] 48 [48, 16] (Suc 0)"
  have call: "call_hook fw_services (ProcessWait 7 0) (sched ?m) = (Ok VNil, sched (fw_machine [fw_wait] 16 [48, 16] (Suc 0)))"
    by (simp add: process_wait_def spawn_and_transfer_idle transfer_to_root_def try_then_def check_suspended_def
        fiber_defs fw_switch_def) (simp add: fw_machine_def with_task_def sample_tasks_def fw_wait_def new_cell_def)
  have "?m\<lparr>sched := sched (fw_machine [fw_wait] 16 [48, 16] (Suc 0))\<rparr> = fw_machine [fw_wait] 16 [48, 16] (Suc 0)"
    by (simp add: fw_machine_def)
  with machine_step.hook [OF _ call, of fw_cur fw_set mset] show ?thesis by simp
qed

text \<open>A wait for process 9, whose task panics: the loop goes on, and fiber 48 is stranded.\<close>

definition fw_doomed :: task where
  "fw_doomed = \<lparr>ff_future = ProcessFuture 9 0, ff_fiber = Fiber 48\<rparr>"

lemma fw_hook_doomed: "fw_step (fw_machine [] 48 [48, 16] (Suc 0)) (fw_machine [fw_doomed] 16 [48, 16] (Suc 0))"
proof -
  let ?m = "fw_machine [] 48 [48, 16] (Suc 0)"
  have call: "call_hook fw_services (ProcessWait 9 0) (sched ?m) = (Ok VNil, sched (fw_machine [fw_doomed] 16 [48, 16] (Suc 0)))"
    by (simp add: process_wait_def spawn_and_transfer_idle transfer_to_root_def try_then_def check_suspended_def
        fiber_defs fw_switch_def) (simp add: fw_machine_def with_task_def sample_tasks_def fw_doomed_def new_cell_def)
  have "?m\<lparr>sched := sched (fw_machine [fw_doomed] 16 [48, 16] (Suc 0))\<rparr> = fw_machine [fw_doomed] 16 [48, 16] (Suc 0)"
    by (simp add: fw_machine_def)
  with machine_step.hook [OF _ call, of fw_cur fw_set mset] show ?thesis by simp
qed

lemma fw_stranded:
  "fw_step (fw_machine [fw_doomed] 16 [48, 16] (Suc 0)) ((fw_machine [] 16 [48, 16] (Suc 0))\<lparr>stranded := {48}\<rparr>)"
proof -
  let ?m = "fw_machine [fw_doomed] 16 [48, 16] (Suc 0)" and ?n = "fw_machine [] 16 [48, 16] (Suc 0)"
  have sel: "fw_select ci (awaiting (sched ?m)) = (Joined (Some (Inl ''panic'')),
      put_futures \<lparr>cell_value = [], read_count = 0, write_count = 1\<rparr> (sched ?m))" for ci
    by (simp add: fw_select_def fw_doomed_def) (simp add: awaiting_def fw_machine_def new_cell_def put_futures_def)
  have "release_futures GcRefMut (put_futures \<lparr>cell_value = [], read_count = 0, write_count = 1\<rparr> (sched ?m)) = sched ?n"
    by (simp add: release_futures_def drop_ref_mut_def put_futures_def) (simp add: fw_machine_def new_cell_def)
  then have turn: "run_iteration (sv_platform fw_services) (sched ?m) = (Continue, sched ?n)"
    by (simp add: run_iteration_idle sel handle_task_def)
  have "passed_over fw_cur fw_set mset (sched ?m) (sched ?n) = {48}"
    by (auto simp: passed_over_def task_fibers_def tasks_in_def fw_doomed_def)
  moreover have "?m\<lparr>sched := sched ?n, stranded := {48}\<rparr> = ?n\<lparr>stranded := {48}\<rparr>"
    by (simp add: fw_machine_def)
  ultimately show ?thesis
    using machine_step.turn [OF _ turn, of fw_cur fw_set mset] by simp
qed

lemma fw_turn:
  "run_iteration fw_platform (sched (fw_machine [fw_wait] 16 [48, 16] (Suc 0))) = (Continue, sched (fw_machine [] 48 [48, 16] (Suc 0)))"
proof -
  let ?m = "fw_machine [fw_wait] 16 [48, 16] (Suc 0)"
  have sel: "fw_select ci (awaiting (sched ?m)) = (Joined (Some (Inr \<lparr>rf_fiber = Fiber 48, rf_value = Inr VNil\<rparr>)),
      put_futures \<lparr>cell_value = [], read_count = 0, write_count = 1\<rparr> (sched ?m))" for ci
    by (simp add: fw_select_def fw_wait_def) (simp add: awaiting_def fw_machine_def new_cell_def put_futures_def)
  have released: "release_futures GcRefMut (put_futures \<lparr>cell_value = [], read_count = 0, write_count = 1\<rparr> (sched ?m)) =
      sched (fw_machine [] 16 [48, 16] (Suc 0))"
    by (simp add: release_futures_def drop_ref_mut_def put_futures_def) (simp add: fw_machine_def new_cell_def)
  show ?thesis
    by (simp add: run_iteration_idle sel released handle_task_def resume_value switchable_def fw_switch_def)
      (simp add: fw_machine_def)
qed

lemma fw_end: "fw_step (fw_machine [] 48 [48, 16] (Suc 0)) (fw_machine [] 16 [16] (Suc 0))"
proof -
  let ?m = "fw_machine [] 48 [48, 16] (Suc 0)"
  have "?m\<lparr>sched := sched (fw_machine [] 16 [16] (Suc 0))\<rparr> = fw_machine [] 16 [16] (Suc 0)"
    by (simp add: fw_machine_def)
  moreover have "futures_to_run (sched (fw_machine [] 16 [16] (Suc 0))) = futures_to_run (sched ?m)"
    by (simp add: fw_machine_def)
  ultimately show ?thesis
    using machine_step.end_fiber [of fw_cur ?m 48 fw_set 7 "sched (fw_machine [] 16 [16] (Suc 0))" fw_services mset]
    by auto
qed

lemma fw_return:
  "run_iteration fw_platform (sched (fw_machine [] 16 [16] (Suc 0))) =
     (Return (Ok ()), sched (fw_machine [] 16 [16] (Suc 0)))"
  by (simp add: run_iteration_idle fw_select_def handle_task_def)

lemmas fw_reached = machine_reaches.here [of fw_services fw_cur fw_set mset fw_start]
  machine_reaches.there [OF machine_reaches.here fw_spawn]
  machine_reaches.there [OF machine_reaches.there [OF machine_reaches.here fw_spawn] fw_hook]
  machine_reaches.there [OF machine_reaches.there [OF machine_reaches.here fw_spawn] fw_end]
  machine_reaches.there [OF machine_reaches.there [OF machine_reaches.there [OF machine_reaches.here fw_spawn]
    fw_hook_doomed] fw_stranded]

section \<open>The properties on this run\<close>

theorem machine_refines_accounts_witness:
  "account_step (accounts_of fw_cur fw_set mset (fw_machine [] 48 [48, 16] (Suc 0)))
     (accounts_of fw_cur fw_set mset (fw_machine [fw_wait] 16 [48, 16] (Suc 0)))"
  by (rule machine_refines_accounts [OF fw_laws fw_started fw_reached(2) fw_hook])

theorem fibers_accounted_witness:
  "(\<forall>f. count (task_fibers mset (sched (fw_machine [fw_wait] 16 [48, 16] (Suc 0)))) f \<le> 1) \<and>
   48 \<notin># task_fibers mset (sched (fw_machine [] 16 [48, 16] (Suc 0)))"
  using fibers_accounted [OF fw_laws fw_started fw_reached(3)] fibers_accounted [OF fw_laws fw_started fw_reached(5)]
  by simp

theorem turn_resumes_waiting_witness:
  "\<exists>f. task_fibers mset (sched (fw_machine [fw_wait] 16 [48, 16] (Suc 0))) =
     add_mset f (task_fibers mset (sched (fw_machine [] 48 [48, 16] (Suc 0)))) \<and> f = 48"
  using turn_resumes_waiting [OF fw_laws fw_started fw_reached(3), of Continue "sched (fw_machine [] 48 [48, 16] (Suc 0))"] fw_turn
  by auto

theorem run_completes_fibers_witness:
  "tasks_in mset (sched (fw_machine [] 16 [16] (Suc 0))) = {#} \<and>
   dom (fw_set (world (sched (fw_machine [] 16 [16] (Suc 0))))) - ended (fw_machine [] 16 [16] (Suc 0)) = {16}"
proof -
  let ?m = "fw_machine [] 16 [16] (Suc 0)"
  have "cur = fw_cur \<Longrightarrow> cur (world (sched ?m)) = root_of (sched ?m)" for cur by simp
  from run_completes_fibers [OF fw_laws fw_started fw_reached(4), of "sched ?m"] this [OF refl] fw_return
  show ?thesis by simp
qed

end
