(* ===== verification/AnswerTypes.thy ===== *)
theory AnswerTypes
  imports Hooks
begin

text \<open>
  What kind of Ruby value each hook answers with. A hook's future has a type by the rules below,
  one per constructor; the value it ends with, when it ends with one, is of that type. So the
  fiber that called the hook is resumed with an integer from \<open>kernel_sleep\<close>, \<open>io_read\<close> and \<open>io_write\<close>,
  a boolean from \<open>block\<close>, an array of strings from \<open>address_resolve\<close>, and so on.
\<close>

section \<open>Types of values\<close>

text \<open>
  A type tells two kinds of objects apart: the interned empty array, and the instances of the class
  \<open>Process::Status\<close> that the crate looked up. Which objects these are is read off the cells of
  \<open>Intern\<close>; \<open>class_of\<close> gives the class of an object.
\<close>

record object_kinds =
  is_empty_ary :: "64 word \<Rightarrow> bool"
  is_status :: "64 word \<Rightarrow> bool"

definition kinds_in :: "('s \<Rightarrow> site \<Rightarrow> 64 word option) \<Rightarrow> (64 word \<Rightarrow> 64 word) \<Rightarrow> 's \<Rightarrow> object_kinds" where
  "kinds_in held class_of s = \<lparr>is_empty_ary = (\<lambda>r. held s EmptyArray = Some r),
     is_status = (\<lambda>r. held s ProcessStatusClass = Some (class_of r))\<rparr>"

datatype ruby_type =
    AnyT | NilT | BoolT | IntT | StrT | EmptyAryT | StatusT
  | ArrT ruby_type
  | TupleT "ruby_type list"
  | OrT ruby_type ruby_type

fun has_type :: "object_kinds \<Rightarrow> Value \<Rightarrow> ruby_type \<Rightarrow> bool" where
  "has_type K v AnyT = True"
| "has_type K v NilT = (v = VNil)"
| "has_type K v BoolT = (case v of VBool b \<Rightarrow> True | _ \<Rightarrow> False)"
| "has_type K v IntT = (case v of VInt i \<Rightarrow> True | _ \<Rightarrow> False)"
| "has_type K v StrT = (case v of VStr s \<Rightarrow> True | _ \<Rightarrow> False)"
| "has_type K v EmptyAryT = (case v of VRef r \<Rightarrow> is_empty_ary K r | _ \<Rightarrow> False)"
| "has_type K v StatusT = (case v of VRef r \<Rightarrow> is_status K r | _ \<Rightarrow> False)"
| "has_type K v (ArrT t) = (case v of VArr vs \<Rightarrow> list_all (\<lambda>x. has_type K x t) vs | _ \<Rightarrow> False)"
| "has_type K v (TupleT ts) = (case v of VArr vs \<Rightarrow> list_all2 (\<lambda>t x. has_type K x t) ts vs | _ \<Rightarrow> False)"
| "has_type K v (OrT s t) = (has_type K v s \<or> has_type K v t)"

section \<open>Types of futures\<close>

text \<open>
  What \<open>io_select\<close> answers: three slots, one of them an array of one descriptor and the two others
  the interned empty array.
\<close>

definition slots_type :: ruby_type where
  "slots_type = OrT (TupleT [TupleT [AnyT], EmptyAryT, EmptyAryT])
     (OrT (TupleT [EmptyAryT, TupleT [AnyT], EmptyAryT]) (TupleT [EmptyAryT, EmptyAryT, TupleT [AnyT]]))"

inductive future_typed :: "future \<Rightarrow> ruby_type \<Rightarrow> bool" where
  ready: "(\<And>K. has_type K v t) \<Longrightarrow> future_typed (ReadyFuture v) t"
| sleep: "future_typed (SleepFuture i d) IntT"
| block: "future_typed (BlockFuture ch timeout) BoolT"
| address: "future_typed (AddressFuture h) (ArrT StrT)"
| process: "future_typed (ProcessFuture p f) StatusT"
| io_wait: "future_typed (IoWaitFuture io i) IntT"
| io_select: "future_typed (IoSelectFuture ts) (OrT NilT slots_type)"
| io_read: "future_typed (IoReadFuture io b n) IntT"
| io_write: "future_typed (IoWriteFuture io b n) IntT"
| with_timeout: "future_typed F t \<Longrightarrow> future_typed (WithTimeout desc timeout F) t"
| no_raise: "future_typed F (OrT NilT t) \<Longrightarrow> future_typed (WithTimeoutNoRaise timeout F) (OrT NilT t)"
| or_nil: "future_typed F t \<Longrightarrow> future_typed F (OrT NilT t)"

inductive_cases with_timeout_typedE: "future_typed (WithTimeout desc timeout F) t"

fun hook_type :: "hook \<Rightarrow> ruby_type" where
  "hook_type (KernelSleep d) = IntT"
| "hook_type (Block b t) = BoolT"
| "hook_type (IoWait v e t) = OrT NilT IntT"
| "hook_type (IoSelect args) = OrT NilT slots_type"
| "hook_type (IoRead v b n t) = IntT"
| "hook_type (IoWrite v b n t) = IntT"
| "hook_type (ProcessWait p f) = StatusT"
| "hook_type (AddressResolve v) = ArrT StrT"

lemma hook_future_typed: "hook_future h F \<Longrightarrow> future_typed F (hook_type h)"
  by (cases h) (auto intro: future_typed.intros split: if_splits)

section \<open>What is sent to a blocked fiber\<close>

text \<open>
  \<open>sent\<close> are the values that were sent on the channels. What Tokio documents of them: a value that is
  received was sent, a send adds no other value than its own, and dropping a sender adds none.
\<close>

definition sent_laws :: "('j, 'w) TokioScheduler oneshot \<Rightarrow> ('w \<Rightarrow> Value set) \<Rightarrow> bool" where
  "sent_laws C sent \<longleftrightarrow>
     (\<forall>ch s v t. os_recv C ch s = (Ok v, t) \<longrightarrow> v \<in> sent (world t)) \<and>
     (\<forall>ch v s. sent (world (snd (os_send C ch v s))) \<subseteq> insert v (sent (world s))) \<and>
     (\<forall>ch s. sent (world (os_drop_tx C ch s)) = sent (world s))"

definition sends_booleans :: "('w \<Rightarrow> Value set) \<Rightarrow> ('j, 'w) TokioScheduler \<Rightarrow> bool" where
  "sends_booleans sent s \<longleftrightarrow> (\<forall>v \<in> sent (world s). \<exists>b. v = VBool b)"

lemma on_blockers_world: "world (snd (on_blockers m s)) = world s"
  by (simp add: on_blockers_def on_part_def split: prod.splits)

lemma try_then_invariant:
  assumes m: "\<And>t. I t \<Longrightarrow> I (snd (m t))" and k: "\<And>x t. I t \<Longrightarrow> I (snd (k x t))"
  shows "I s \<Longrightarrow> I (snd (try_then m k s))"
  using m [of s] k by (auto simp: try_then_def split: prod.split outcome.split)

lemma unblock_sends_booleans:
  assumes laws: "sent_laws (channels P) sent" and s: "sends_booleans sent s"
  shows "sends_booleans sent (snd (unblock P b f s))"
proof -
  have send: "sends_booleans sent (snd (map_err send_error (os_send (channels P) ch (VBool True)) t))"
    if "sends_booleans sent t" for ch t
  proof -
    have "snd (map_err send_error (os_send (channels P) ch (VBool True)) t) = snd (os_send (channels P) ch (VBool True) t)"
      by (simp add: map_err_def split: prod.split outcome.split)
    moreover have "sent (world (snd (os_send (channels P) ch (VBool True) t))) \<subseteq> insert (VBool True) (sent (world t))"
      using laws unfolding sent_laws_def by blast
    ultimately show ?thesis using that by (auto simp: sends_booleans_def)
  qed
  have fiber: "snd (from_value R f u) = u" "snd (check_suspended R x u) = u"
    for R :: "('j, 'w) TokioScheduler ruby_vm" and u and x :: "Unknown Fiber"
    by (simp_all add: from_value_def not_fiber_error_def check_suspended_def fiber_defs effect_defs split: Value.split)
  have table: "sends_booleans sent (snd (on_blockers m t))" if "sends_booleans sent t"
    for t and m :: "(blocker_map, 'x, error) action"
    using that by (simp add: sends_booleans_def on_blockers_world)
  have woken: "sends_booleans sent (snd ((case removed of
      Some tx \<Rightarrow> map_err send_error (os_send (channels P) tx (VBool True)) | None \<Rightarrow> ret ()) t))"
    if "sends_booleans sent t" for removed t
    using that send by (simp add: ret_def split: option.split)
  show ?thesis
    unfolding unblock_def
    by (rule try_then_invariant [where I = "sends_booleans sent"], simp add: fiber,
        rule try_then_invariant [where I = "sends_booleans sent"], simp add: fiber,
        rule try_then_invariant [where I = "sends_booleans sent"], erule table, erule woken, assumption, assumption, rule s)
qed

section \<open>Soundness\<close>

text \<open>
  What is needed of the world: a future that ends before its deadline gives its own result; an
  array that is pushed to grows by what is pushed; awaiting the process future ends with the poll
  it was ready in; an object made by the class \<open>Process::Status\<close> is of that class, and its typed
  data is that object. \<open>memoize!\<close> keeps what it was given, and the calls that abort the other
  waits of \<open>io_select\<close> and fill in a status do not touch its cells.
\<close>

definition typed_services :: "('j, 'w) services \<Rightarrow> ('j, 'w) TokioScheduler process_ops \<Rightarrow>
    (('j, 'w) TokioScheduler \<Rightarrow> site \<Rightarrow> 64 word option) \<Rightarrow> (64 word \<Rightarrow> 64 word) \<Rightarrow> bool" where
  "typed_services V os held class_of \<longleftrightarrow>
     timeout_at_law (clock (sv_platform V)) \<and> pushes (sv_net V) \<and>
     memo_laws (sv_interns V) held \<and> quiet_interning (sv_interns V) held \<and> status_interns os = sv_interns V \<and>
     (\<forall>s. held (sel_abort_all (sv_selects V) s) = held s) \<and>
     (\<forall>k n. keeps_cells held (status_new_instance os k) \<and> keeps_cells held (ruby_xmalloc os n)) \<and>
     (\<forall>p q st s. held (write_status os p st s) = held s \<and> held (set_data os p q s) = held s) \<and>
     (\<forall>k s v t. status_new_instance os k s = (Ok v, t) \<longrightarrow> (\<exists>r. v = VRef r \<and> class_of r = k)) \<and>
     (\<forall>v s r. status_typed_data os v s = Some r \<longrightarrow> v = VRef r) \<and>
     (\<forall>st s v t. sv_await_process V st s = (Ok v, t) \<longrightarrow>
        (\<exists>st' cx st'' cx'. poll_process_future os st' cx = Some (Ready (Ok v), st'', cx') \<and> outside cx' = t))"

text \<open>What an action answers, when it does, by the shape of the action.\<close>

named_theorems answers_intros

definition answers :: "('a \<Rightarrow> 's \<Rightarrow> bool) \<Rightarrow> ('s, 'a, 'e) action \<Rightarrow> bool" where
  "answers Q m \<longleftrightarrow> (\<forall>s v t. m s = (Ok v, t) \<longrightarrow> Q v t)"

lemma answersD: "answers Q m \<Longrightarrow> m s = (Ok v, t) \<Longrightarrow> Q v t"
  unfolding answers_def by blast

lemma answers_ret [answers_intros]: "(\<And>s. Q x s) \<Longrightarrow> answers Q (ret x)"
  by (simp add: answers_def ret_def)

lemma answers_fail [answers_intros]: "answers Q (fail e)" "answers Q (panic p)"
  by (simp_all add: answers_def fail_def panic_def)

lemma answers_try_then [answers_intros]: "(\<And>x. answers Q (k x)) \<Longrightarrow> answers Q (try_then m k)"
  unfolding answers_def by (blast elim: try_then_OkE)

lemma answers_match [answers_intros]:
  "(\<And>x. answers Q (k x)) \<Longrightarrow> (\<And>e. answers Q (h e)) \<Longrightarrow> answers Q (match_result m k h)"
  unfolding answers_def by (blast elim: match_result_OkE)

lemma answers_map_err [answers_intros]:
  assumes "answers Q m"
  shows "answers Q (map_err f m)"
proof -
  have "Q v t" if "map_err f m s = (Ok v, t)" for s v t
    using that answersD [OF assms] by (simp add: map_err_def split: prod.splits outcome.splits)
  then show ?thesis by (simp add: answers_def)
qed

lemma answers_finally [answers_intros]:
  assumes "answers (\<lambda>v w. Q v) m"
  shows "answers (\<lambda>v w. Q v) (finally_do m d)"
proof -
  have "Q v" if "finally_do m d s = (Ok v, t)" for s v t
    using that answersD [OF assms] by (simp add: finally_do_def split: prod.splits)
  then show ?thesis by (simp add: answers_def)
qed

lemma answers_bracket [answers_intros]: "(\<And>g. answers (\<lambda>v w. Q v) (body g)) \<Longrightarrow> answers (\<lambda>v w. Q v) (bracket a r body)"
  unfolding bracket_def by (intro answers_intros)

lemma answers_if [answers_intros]: "(b \<Longrightarrow> answers Q m) \<Longrightarrow> (\<not> b \<Longrightarrow> answers Q n) \<Longrightarrow> answers Q (if b then m else n)"
  by simp

lemma with_timeout_answers:
  assumes "timeout_at_law T" and "answers Q f"
  shows "answers Q (with_timeout T desc timeout f)"
    and "(\<And>w. Q VNil w) \<Longrightarrow> answers Q (with_timeout_no_raise T timeout f)"
  using assms
  by (auto simp: answers_def with_timeout_def with_timeout_no_raise_def
      split: option.splits outcome.splits prod.splits dest: timeout_at_in_time)

lemma new_status_object:
  assumes laws: "typed_services V os held class_of" and made: "new_status os pid status err s = (Ok v, t)"
  shows "has_type (kinds_in held class_of t) v StatusT"
proof -
  from made obtain a s1 where alloc: "allocate os s = (Ok a, s1)"
    and rest: "try_then (gets (status_typed_data os a)) (\<lambda>typed.
      try_then (unwrap_option unwrap_err typed) (\<lambda>typed_data.
      try_then (build_struct_data os pid status err) (\<lambda>ptr.
      try_then (modify (set_data os typed_data ptr)) (\<lambda>u. ret (VRef typed_data))))) s1 = (Ok v, t)"
    unfolding new_status_def by (rule try_then_OkE)
  from alloc obtain k s0 where k: "interned (status_interns os) ProcessStatusClass s = (Ok k, s0)"
    and inst: "status_new_instance os k s0 = (Ok a, s1)"
    unfolding allocate_def interned.simps by (rule try_then_OkE)
  have "held s0 ProcessStatusClass = Some k"
    by (rule interned_made(2) [OF _ _ k]) (use laws in \<open>simp_all add: typed_services_def\<close>)
  moreover have "held s1 = held s0"
    using laws inst unfolding typed_services_def keeps_cells_def by (metis snd_conv)
  moreover have "\<exists>r. a = VRef r \<and> class_of r = k" using laws inst unfolding typed_services_def by blast
  moreover have "v = a \<and> held t = held s1"
  proof (cases "status_typed_data os a s1")
    case (Some td)
    obtain r u where built: "build_struct_data os pid status err s1 = (r, u)" by fastforce
    have "held u = held s1"
      using built laws unfolding build_struct_data_def typed_services_def keeps_cells_def
      by (auto simp: effect_defs split: prod.splits outcome.splits) (metis snd_conv)+
    moreover have "v = VRef td \<and> (\<exists>ptr. t = set_data os td ptr u)"
      using rest Some built by (cases r) (auto simp: effect_defs unwrap_option_def)
    moreover have "a = VRef td" using laws Some unfolding typed_services_def by blast
    ultimately show ?thesis using laws unfolding typed_services_def by auto
  qed (use rest in \<open>simp add: effect_defs unwrap_option_def\<close>)
  ultimately show ?thesis by (auto simp: kinds_in_def)
qed

lemma polled_status_object:
  assumes laws: "typed_services V os held class_of"
    and polled: "poll_process_future os st cx = Some (Ready (Ok v), st', cx')"
  shows "has_type (kinds_in held class_of (outside cx')) v StatusT"
proof -
  let ?typed = "\<lambda>v w. has_type (kinds_in held class_of w) v StatusT"
  have looked: "?typed v t" if "try_wait os w s = (Ok (Some v), t)" for w s v t
    using try_wait_status [OF that] new_status_object [OF laws] by blast
  have waiter: "?typed v (outside cx')" if "poll_pid_waiter os w cx = Some (Ready (Ok v), w', cx')" for w cx w' cx'
  proof -
    have "\<forall>v'. (Ready (Ok v) :: (Value, error) outcome poll) = Ready (Ok v') \<longrightarrow> ?typed v' (outside cx')"
      by (rule poll_pid_waiter_inductive [where Q = "\<lambda>r cx. \<forall>v'. r = Ready (Ok v') \<longrightarrow> ?typed v' (outside cx)",
            OF _ _ _ that, THEN conjunct2])
        (auto dest: looked simp del: has_type.simps)
    then show ?thesis by simp
  qed
  from polled show ?thesis
    by (cases st) (auto simp: poll_process_future_def poll_waiting_def simp del: has_type.simps
        split: prod.splits outcome.splits dest!: waiter)
qed

lemma address_answers:
  assumes "pushes N"
  shows "answers (\<lambda>v w. has_type (K w) v (ArrT StrT)) (address_future N h)"
proof -
  have pushed: "answers (\<lambda>vs w. list_all (\<lambda>x. has_type (K w) x StrT) vs) (push_addresses N [] addrs)" for addrs
    by (auto simp: answers_def push_addresses_all [OF assms] list_all_iff)
  have strings: "has_type (K t) (VArr vs) (ArrT StrT)" if "push_addresses N [] addrs s = (Ok vs, t)" for addrs s vs t
    using answersD [OF pushed that] by simp
  have "answers (\<lambda>v w. has_type (K w) v (ArrT StrT)) (try_then (push_addresses N [] addrs) (\<lambda>vs. ret (VArr vs)))" for addrs
    unfolding answers_def by (auto elim!: try_then_OkE dest: strings simp: ret_def simp del: has_type.simps)
  moreover have "answers (\<lambda>v w. has_type (K w) v (ArrT StrT)) (ret (VArr []))"
    by (rule answers_ret) simp
  ultimately have parts: "answers (\<lambda>v w. has_type (K w) v (ArrT StrT)) (case splitn_2 c g of
        [] \<Rightarrow> ret (VArr [])
      | [host] \<Rightarrow> try_then (map_err resolve_error (lookup_host N host 80)) (\<lambda>found.
          try_then (push_addresses N [] found) (\<lambda>addresses. ret (VArr addresses)))
      | host # port # rest \<Rightarrow> ret (VArr []))" for c g
    by (cases "splitn_2 c g" rule: remdups_adj.cases)
      (simp_all add: answers_try_then del: has_type.simps)
  show ?thesis unfolding address_future_def Let_def by (rule parts)
qed

lemma slots_answers:
  assumes "memo_laws N held" and "quiet_interning N held"
  shows "answers (\<lambda>v w. has_type (kinds_in held class_of w) v slots_type) (select_slots N io i)"
proof -
  have twice: "held t EmptyArray = Some a \<and> b = a"
    if "empty_array N s = (Ok a, u)" "empty_array N u = (Ok b, t)" for s a u b t
    using interned_made(2) [OF assms, of EmptyArray s a u] interned_held [OF assms, of u EmptyArray a] that by auto
  have slots: "answers (\<lambda>v w. has_type (kinds_in held class_of w) v slots_type)
      (try_then (empty_array N) (\<lambda>a. try_then (empty_array N) (\<lambda>b. ret (slots a b))))"
    if typed: "\<And>a w. held w EmptyArray = Some a \<Longrightarrow> has_type (kinds_in held class_of w) (slots a a) slots_type" for slots
  proof -
    have "has_type (kinds_in held class_of t) v slots_type"
      if run: "try_then (empty_array N) (\<lambda>a. try_then (empty_array N) (\<lambda>b. ret (slots a b))) s = (Ok v, t)" for s v t
    proof -
      from run obtain a u where a: "empty_array N s = (Ok a, u)"
        and rest: "try_then (empty_array N) (\<lambda>b. ret (slots a b)) u = (Ok v, t)" by (rule try_then_OkE)
      from rest obtain b w where b: "empty_array N u = (Ok b, w)" and "v = slots a b" "w = t"
        by (rule try_then_OkE) (simp add: ret_def)
      with twice [OF a b] typed show ?thesis by simp
    qed
    then show ?thesis by (simp add: answers_def)
  qed
  show ?thesis
    unfolding select_slots_def
    by (intro answers_if slots answers_intros) (simp_all add: slots_type_def kinds_in_def)
qed

lemma select_answers:
  assumes "memo_laws N held" and "quiet_interning N held" and aborts: "\<And>s. held (sel_abort_all S s) = held s"
  shows "answers (\<lambda>v w. has_type (kinds_in held class_of w) v (OrT NilT slots_type)) (io_select_future R T N S ts)"
proof -
  have aborted: "kinds_in held class_of (sel_abort_all S s) = kinds_in held class_of s" for s
    by (simp add: kinds_in_def aborts)
  have "has_type (kinds_in held class_of t) v (OrT NilT slots_type)"
    if "io_select_future R T N S ts s = (Ok v, t)" for s v t
    using that unfolding io_select_future_def Let_def
    by (auto simp: ret_def fail_def aborted dest!: answersD [OF slots_answers [OF assms(1,2)]]
        split: option.splits sum.splits prod.splits outcome.splits)
  then show ?thesis unfolding answers_def by blast
qed

lemma io_answers:
  "answers (\<lambda>v w. \<exists>n. v = VInt n) (io_wait_future T X M io i)"
  "answers (\<lambda>v w. \<exists>n. v = VInt n) (io_read_future A T X B io b n)"
  "answers (\<lambda>v w. \<exists>n. v = VInt n) (io_write_future A T X B io b n)"
  unfolding io_wait_future_def io_read_future_def io_write_future_def io_read_body_def io_write_body_def
  by (intro answers_intros; simp add: event_into_value_def transferred_def negated_errno_def)+

lemma answers_int: "answers (\<lambda>v w. \<exists>n. v = VInt n) m \<Longrightarrow> answers (\<lambda>v w. has_type (K w) v IntT) m"
  by (fastforce simp: answers_def)

text \<open>What \<open>block\<close>'s future receives was sent, and its own effects afterwards send nothing.\<close>

lemma block_answers:
  assumes "timeout_at_law (clock P)" and laws: "sent_laws (channels P) sent"
  shows "answers (\<lambda>v w. v \<in> sent (world w)) (block_future P ch timeout)"
proof -
  have "answers (\<lambda>v w. v \<in> sent (world w)) (os_recv (channels P) ch)"
    using laws by (simp add: sent_laws_def answers_def)
  then have "answers (\<lambda>v w. v \<in> sent (world w))
      (with_timeout (clock P) d timeout (map_err recv_error (os_recv (channels P) ch)))" for d
    by (intro with_timeout_answers(1) answers_intros assms)
  note received = answersD [OF this]
  have after: "sent (world (drop_sender P x (snd (on_blockers m u)))) = sent (world u)" for x m u
    using laws by (simp add: drop_sender_def sent_laws_def on_blockers_world split: option.split)
  have "v \<in> sent (world t)" if out: "block_future P ch timeout s = (Ok v, t)" for s v t
  proof -
    obtain r u where wait: "with_timeout (clock P) ''unblocking fiber'' timeout
        (map_err recv_error (os_recv (channels P) ch)) s = (r, u)" by fastforce
    let ?f = "as_suspended (current (vm P) u)"
    obtain q x where removed: "on_blockers (blockers_remove ?f) u = (q, x)" by fastforce
    from out wait removed obtain old where "r = Ok v" and t: "t = drop_sender P old x"
      by (cases r; cases q) (auto simp: block_future_def Let_def)
    with received [OF wait [unfolded \<open>r = Ok v\<close>]] after [of old "blockers_remove ?f" u] removed show ?thesis by simp
  qed
  then show ?thesis by (simp add: answers_def)
qed

text \<open>A future that ends with a value ends with one of its type.\<close>

primrec receives :: "future \<Rightarrow> bool" where
  "receives (ReadyFuture v) = False"
| "receives (SleepFuture i d) = False"
| "receives (TimeoutFuture i c m f) = False"
| "receives (BlockFuture ch t) = True"
| "receives (AddressFuture h) = False"
| "receives (ProcessFuture p f) = False"
| "receives (IoWaitFuture io i) = False"
| "receives (IoSelectFuture ts) = False"
| "receives (IoReadFuture io b n) = False"
| "receives (IoWriteFuture io b n) = False"
| "receives (WithTimeout desc t f) = receives f"
| "receives (WithTimeoutNoRaise t f) = receives f"

lemma only_block_receives: "hook_future h F \<Longrightarrow> receives F \<Longrightarrow> \<exists>b t. h = Block b t"
  by (cases h) (auto split: if_splits)

lemma future_sound:
  assumes laws: "typed_services V os held class_of" and sends: "sent_laws (channels (sv_platform V)) sent"
  shows "future_typed F t \<Longrightarrow>
    answers (\<lambda>v w. (receives F \<longrightarrow> sends_booleans sent w) \<longrightarrow> has_type (kinds_in held class_of w) v t) (run_future V F)"
proof (induction rule: future_typed.induct)
  case (ready v t)
  then show ?case by (simp add: answers_ret)
next
  case (sleep i d)
  then show ?case by (simp add: answers_def sleep_future_def)
next
  case (block ch timeout)
  from laws have "timeout_at_law (clock (sv_platform V))" by (simp add: typed_services_def)
  from block_answers [OF this sends, of ch timeout] show ?case
    unfolding answers_def sends_booleans_def by fastforce
next
  case (address h)
  from laws have "pushes (sv_net V)" by (simp add: typed_services_def)
  from address_answers [OF this, of _ h] show ?case
    unfolding answers_def by (simp del: has_type.simps)
next
  case (process p f)
  have "has_type (kinds_in held class_of w) v StatusT" if "sv_await_process V st s = (Ok v, w)" for st s v w
    using laws that polled_status_object [OF laws] unfolding typed_services_def by metis
  then show ?case by (simp add: answers_def del: has_type.simps)
next
  case (io_select ts)
  have "answers (\<lambda>v w. has_type (kinds_in held class_of w) v (OrT NilT slots_type))
      (io_select_future (vm (sv_platform V)) (io_driver (sv_platform V)) (sv_interns V) (sv_selects V) ts)"
    by (rule select_answers) (use laws in \<open>simp_all add: typed_services_def\<close>)
  then show ?case by (simp add: answers_def del: has_type.simps)
next
  case (or_nil F t)
  then show ?case by (auto simp: answers_def)
next
  case (no_raise F t timeout)
  from laws have "timeout_at_law (clock (sv_platform V))" by (simp add: typed_services_def)
  from with_timeout_answers(2) [OF this no_raise.IH] show ?case by simp
next
  case (with_timeout F t desc timeout)
  from laws have "timeout_at_law (clock (sv_platform V))" by (simp add: typed_services_def)
  from with_timeout_answers(1) [OF this with_timeout.IH] show ?case by simp
qed (simp_all add: answers_int io_answers del: has_type.simps)


section \<open>A sample\<close>

text \<open>
  A child that has ended, looked up with the cells of the sample platform. A status object is
  numbered from its class. Awaiting the process is what its poll does.
\<close>

definition sample_class_of :: "64 word \<Rightarrow> 64 word" where
  "sample_class_of r = r - 8"

definition sample_sent :: "sample_world \<Rightarrow> Value set" where
  "sample_sent w = {v. \<exists>ch. sw_channels w ch = Sent v}"

definition ended_child :: "sample_state process_ops" where
  "ended_child = \<lparr>
     sig_new = ret 0, sig_poll_recv = (\<lambda>n cx. (True, cx)), wait_options = 3, pid_from_raw = Some,
     os_waitpid = (\<lambda>target options. ret (Some 0)), status_interns = sample_cells,
     status_new_instance = (\<lambda>k. ret (VRef (k + 8))),
     status_typed_data = (\<lambda>v s. case v of VRef r \<Rightarrow> Some r | _ \<Rightarrow> None),
     ruby_xmalloc = (\<lambda>n. ret 64), write_status = (\<lambda>ptr st s. s), set_data = (\<lambda>r ptr s. s)\<rparr>"

definition typed_sample :: "(task list, sample_world) services" where
  "typed_sample = sample_services\<lparr>
     sv_await_process := (\<lambda>st. try_then (process_status_class sample_cells) (\<lambda>k. ret (VRef (k + 8))))\<rparr>"

lemma ended_child_polled:
  assumes "process_status_class sample_cells (outside cx) = (Ok k, t)"
  shows "poll_process_future ended_child (Waiting \<lparr>pw_pid = 7, pw_flags = 0, pw_signal = 0\<rparr>) cx =
     Some (Ready (Ok (VRef (k + 8))), Waiting \<lparr>pw_pid = 7, pw_flags = 0, pw_signal = 0\<rparr>, cx\<lparr>outside := t\<rparr>)"
proof -
  have "new_status ended_child 7 0 0 (outside cx) = (Ok (VRef (k + 8)), t)"
    using assms by (simp add: new_status_def allocate_def ended_child_def build_struct_data_def unwrap_option_def
        effect_defs)
  then have "try_wait ended_child \<lparr>pw_pid = 7, pw_flags = 0, pw_signal = 0\<rparr> (outside cx) =
      (Ok (Some (VRef (k + 8))), t)"
    by (simp add: try_wait_def wait_flags_def wait_target_def ended_child_def unwrap_option_def effect_defs)
  then have "poll_pid_waiter ended_child \<lparr>pw_pid = 7, pw_flags = 0, pw_signal = 0\<rparr> cx =
      Some (Ready (Ok (VRef (k + 8))), \<lparr>pw_pid = 7, pw_flags = 0, pw_signal = 0\<rparr>, cx\<lparr>outside := t\<rparr>)"
    by (subst poll_pid_waiter.simps) (simp add: ended_child_def)
  then show ?thesis by (simp add: poll_process_future_def poll_waiting_def)
qed

lemma sample_awaited:
  assumes "sv_await_process typed_sample st s = (Ok v, t)"
  shows "\<exists>st' cx st'' cx'. poll_process_future ended_child st' cx = Some (Ready (Ok v), st'', cx') \<and> outside cx' = t"
proof -
  from assms obtain k where k: "process_status_class sample_cells s = (Ok k, t)" and v: "v = VRef (k + 8)"
    by (auto simp: typed_sample_def ret_def elim!: try_then_OkE)
  define cx :: "sample_state task_context" where "cx = undefined\<lparr>outside := s\<rparr>"
  from k have "process_status_class sample_cells (outside cx) = (Ok k, t)" by (simp add: cx_def)
  from ended_child_polled [OF this] v show ?thesis by fastforce
qed

lemma sample_typed: "typed_services typed_sample ended_child sample_held sample_class_of"
  unfolding typed_services_def
proof (intro conjI)
  show "timeout_at_law (clock (sv_platform typed_sample))"
    by (auto simp: typed_sample_def sample_services_def timeout_at_law_def sample_time_def split: prod.splits)
  show "pushes (sv_net typed_sample)"
    by (simp add: typed_sample_def sample_services_def pushes_def sample_net_def ret_def)
  show "memo_laws (sv_interns typed_sample) sample_held" "quiet_interning (sv_interns typed_sample) sample_held"
    by (simp_all add: typed_sample_def sample_services_def sample_cells_laws)
  show "\<forall>st s v t. sv_await_process typed_sample st s = (Ok v, t) \<longrightarrow>
      (\<exists>st' cx st'' cx'. poll_process_future ended_child st' cx = Some (Ready (Ok v), st'', cx') \<and> outside cx' = t)"
    using sample_awaited by blast
qed (simp_all add: typed_sample_def sample_services_def ended_child_def sample_select_ops_def keeps_cells_def
    sample_class_of_def ret_def split: Value.split)

lemma sample_sent_laws: "sent_laws (channels (sv_platform typed_sample)) sample_sent"
proof -
  have "sample_sent (w\<lparr>sw_channels := (sw_channels w)(ch := SenderGone)\<rparr>) = sample_sent w" if "sw_channels w ch = Empty" for w ch
    using that by (auto simp: sample_sent_def) (metis channel_state.distinct(1))
  then show ?thesis
    by (auto simp: sent_laws_def typed_sample_def sample_services_def sample_channels_def
        set_channel_def on_world_def split: channel_state.splits) (auto simp: sample_sent_def split: if_splits)
qed


end
