(* ===== verification/DroppedFutures.thy ===== *)
theory DroppedFutures
  imports IoWait IoReadWrite
begin

text \<open>
  A future that holds a \<open>NonBlockGuard\<close> across an await, poll by poll: the \<open>async\<close> blocks of \<open>io_wait\<close>,
  \<open>io_read\<close> and \<open>io_write\<close>, whose first statement makes the guard. Such a future may be dropped
  between two polls, by a deadline (\<open>with_timeout\<close>) or by the end of the run (\<open>abort_all\<close>). The
  definitions of \<open>IoWait\<close> and \<open>IoReadWrite\<close> run it to its end in one go; here is what is left when
  it is not.
\<close>

section \<open>The future between two polls\<close>

text \<open>
  \<open>'i\<close> is the rest of the block after the guard, with what it awaits, polled by \<open>inner\<close>. A block
  that was not polled yet has no guard; one that is at its await holds it; one that has
  returned has dropped it.
\<close>

datatype 'i guarded = Unstarted 'i | Guarded NonBlockGuard 'i | Returned

definition poll_inside ::
  "'s fcntl_ops \<Rightarrow> ('i, 's, (Value, error) outcome) poll_fn \<Rightarrow> NonBlockGuard \<Rightarrow> 'i \<Rightarrow> 's task_context \<Rightarrow>
   ((Value, error) outcome poll \<times> 'i guarded \<times> 's task_context) option" where
  "poll_inside X inner nonblock i cx = (case inner i cx of
     Some (Ready r, i', cx') \<Rightarrow> Some (Ready r, Returned, cx'\<lparr>outside := drop_guard X nonblock (outside cx')\<rparr>)
   | Some (Pending, i', cx') \<Rightarrow> Some (Pending, Guarded nonblock i', cx')
   | None \<Rightarrow> None)"

definition poll_guarded ::
  "'s fcntl_ops \<Rightarrow> RubyIo \<Rightarrow> ('i, 's, (Value, error) outcome) poll_fn \<Rightarrow>
   ('i guarded, 's, (Value, error) outcome) poll_fn" where
  "poll_guarded X ruby_io inner st cx = (case st of
     Unstarted i \<Rightarrow> (case with_nonblock X ruby_io (outside cx) of
         (Ok nonblock, t) \<Rightarrow> poll_inside X inner nonblock i (cx\<lparr>outside := t\<rparr>)
       | (Err e, t) \<Rightarrow> Some (Ready (Err e), Returned, cx\<lparr>outside := t\<rparr>)
       | (Panic p, t) \<Rightarrow> Some (Ready (Panic p), Returned, cx\<lparr>outside := t\<rparr>))
   | Guarded nonblock i \<Rightarrow> poll_inside X inner nonblock i cx
   | Returned \<Rightarrow> Some (Ready (Panic ''`async fn` resumed after completion''), Returned, cx))"

definition drop_guarded :: "'s fcntl_ops \<Rightarrow> 'i guarded \<Rightarrow> 's \<Rightarrow> 's" where
  "drop_guarded X st s = (case st of Guarded nonblock i \<Rightarrow> drop_guard X nonblock s | _ \<Rightarrow> s)"

text \<open>
  The life of such a future: it is polled, the rest of the program does something, it is polled
  again, until it is ready or is not polled any more.
\<close>

fun poll_through ::
  "'s fcntl_ops \<Rightarrow> RubyIo \<Rightarrow> ('i, 's, (Value, error) outcome) poll_fn \<Rightarrow> ('s \<Rightarrow> 's) list \<Rightarrow>
   'i guarded \<Rightarrow> 's task_context \<Rightarrow> ('i guarded \<times> 's task_context) option" where
  "poll_through X io inner [] st cx = Some (st, cx)"
| "poll_through X io inner (m # ms) st cx = (case poll_guarded X io inner st cx of
     Some (Pending, st', cx') \<Rightarrow> poll_through X io inner ms st' (cx'\<lparr>outside := m (outside cx')\<rparr>)
   | Some (Ready r, st', cx') \<Rightarrow> Some (st', cx')
   | None \<Rightarrow> None)"

section \<open>Its flags\<close>

text \<open>
  The flags of a descriptor \<open>fd\<close> are the old ones, with \<open>O_NONBLOCK\<close> while the future holds a guard
  on \<open>fd\<close>, which then remembers them.
\<close>

definition flags_kept :: "'s fcntl_ops \<Rightarrow> ('s \<Rightarrow> RawFd \<Rightarrow> 32 word) \<Rightarrow> RubyIo \<Rightarrow> RawFd \<Rightarrow> 32 word \<Rightarrow>
    'i guarded \<Rightarrow> 's \<Rightarrow> bool" where
  "flags_kept X fl io fd old st s \<longleftrightarrow> (case st of
     Guarded g i \<Rightarrow>
       if raw_fd g = fd then old_flags g = old AND oflag_all X \<and> fl s fd = old OR O_NONBLOCK X else fl s fd = old
   | _ \<Rightarrow> fl s fd = old)"

lemma flags_kept_cong: "fl t fd = fl s fd \<Longrightarrow> flags_kept X fl io fd old st t = flags_kept X fl io fd old st s"
  by (cases st) (simp_all add: flags_kept_def)

lemma flags_kept_drop:
  assumes laws: "fcntl_laws X fl settable" and kept: "flags_kept X fl io fd old st s"
  shows "fl (drop_guarded X st s) fd = old"
proof (cases st)
  case (Guarded g i)
  have masks: "settable AND oflag_all X = settable" "O_NONBLOCK X AND settable = O_NONBLOCK X"
    using laws by (auto simp: fcntl_laws_def)
  show ?thesis
    using kept by (auto simp: Guarded drop_guarded_def drop_guard_flags [OF laws] flags_kept_def
        masked_old_flags(2) [OF masks] split: if_splits)
qed (use kept in \<open>simp_all add: flags_kept_def drop_guarded_def\<close>)

lemma poll_inside_flags:
  assumes laws: "fcntl_laws X fl settable"
    and quiet: "\<And>i cx r i' cx'. inner i cx = Some (r, i', cx') \<Longrightarrow> fl (outside cx') fd = fl (outside cx) fd"
    and kept: "flags_kept X fl io fd old (Guarded g i) (outside cx)"
    and poll: "poll_inside X inner g i cx = Some (r, st, cx')"
  shows "flags_kept X fl io fd old st (outside cx')"
proof -
  from poll obtain p i' cx1 where inner: "inner i cx = Some (p, i', cx1)"
    by (auto simp: poll_inside_def split: option.splits prod.splits)
  have cx1: "flags_kept X fl io fd old (Guarded g i') (outside cx1)"
    using kept quiet [OF inner] by (simp add: flags_kept_def)
  show ?thesis
  proof (cases p)
    case (Ready x)
    with poll inner have "st = Returned" "outside cx' = drop_guard X g (outside cx1)"
      by (auto simp: poll_inside_def)
    with flags_kept_drop [OF laws cx1] show ?thesis by (simp add: flags_kept_def drop_guarded_def)
  next
    case Pending
    with poll inner cx1 show ?thesis by (auto simp: poll_inside_def)
  qed
qed

lemma with_nonblock_flags:
  assumes laws: "fcntl_laws X fl settable" and made: "with_nonblock X io s = (r, t)"
  shows "case r of Ok g \<Rightarrow> flags_kept X fl io fd (fl s fd) (Guarded g i) t | _ \<Rightarrow> fl t fd = fl s fd"
proof (cases "backing_io io")
  case None
  with made show ?thesis by (auto simp: with_nonblock_def expect_backing_def effect_defs)
next
  case (Some b)
  obtain u where "new_guard X (as_raw_fd b) s =
      (Ok \<lparr>raw_fd = as_raw_fd b, old_flags = fl s (as_raw_fd b) AND oflag_all X\<rparr>, u)"
    and "fl u = (fl s)(as_raw_fd b := fl s (as_raw_fd b) OR O_NONBLOCK X)"
    by (rule new_guard_flags [OF laws])
  with made Some show ?thesis by (auto simp: with_nonblock_backing flags_kept_def)
qed

lemma poll_guarded_flags:
  assumes laws: "fcntl_laws X fl settable"
    and quiet: "\<And>i cx r i' cx'. inner i cx = Some (r, i', cx') \<Longrightarrow> fl (outside cx') fd = fl (outside cx) fd"
    and kept: "flags_kept X fl io fd old st (outside cx)"
    and poll: "poll_guarded X io inner st cx = Some (r, st', cx')"
  shows "flags_kept X fl io fd old st' (outside cx')"
proof (cases st)
  case (Unstarted i)
  with kept have old: "fl (outside cx) fd = old" by (simp add: flags_kept_def)
  obtain g t where made: "with_nonblock X io (outside cx) = (g, t)" by fastforce
  note flags = with_nonblock_flags [OF laws made, of fd, unfolded old]
  show ?thesis
  proof (cases g)
    case (Ok nb)
    with poll Unstarted made have "poll_inside X inner nb i (cx\<lparr>outside := t\<rparr>) = Some (r, st', cx')"
      by (simp add: poll_guarded_def)
    from poll_inside_flags [OF laws quiet _ this] flags [of i] Ok show ?thesis by simp
  qed (use poll Unstarted made flags in \<open>auto simp: poll_guarded_def flags_kept_def\<close>)
next
  case (Guarded g i)
  with poll kept show ?thesis
    by (auto simp: poll_guarded_def intro: poll_inside_flags [OF laws quiet])
qed (use poll kept in \<open>auto simp: poll_guarded_def flags_kept_def\<close>)

text \<open>
  C14. A future that waits for, reads or writes a descriptor may be dropped at any time, before its
  first poll, at its await or when it is done. Take a descriptor whose flags nobody else changes
  meanwhile, neither what the future awaits nor the rest of the program between its polls: after
  the drop its flags are what they were before the future started. So on its own descriptor a
  cancelled wait takes non-blocking mode back, unless another guard on that descriptor starts or
  ends meanwhile, and it leaves every other descriptor alone, whatever is done to those.
\<close>

theorem cancelled_wait_restores_flags:
  assumes laws: "fcntl_laws X fl settable"
    and quiet: "\<And>i cx r i' cx'. inner i cx = Some (r, i', cx') \<Longrightarrow> fl (outside cx') fd = fl (outside cx) fd"
    and meanwhile: "\<And>m s. m \<in> set ms \<Longrightarrow> fl (m s) fd = fl s fd"
    and life: "poll_through X io inner ms (Unstarted i) cx = Some (st, cx')"
  shows "fl (drop_guarded X st (outside cx')) fd = fl (outside cx) fd"
proof -
  have "flags_kept X fl io fd old st (outside cx')"
    if "flags_kept X fl io fd old st0 (outside cx)" "poll_through X io inner ms st0 cx = Some (st, cx')"
    for old st0 cx
    using that meanwhile
  proof (induction ms arbitrary: st0 cx)
    case (Cons m ms)
    obtain r st1 cx1 where poll: "poll_guarded X io inner st0 cx = Some (r, st1, cx1)"
      using Cons.prems(2) by (auto split: option.splits prod.splits)
    have kept: "flags_kept X fl io fd old st1 (outside cx1)"
      by (rule poll_guarded_flags [OF laws _ Cons.prems(1) poll]) (rule quiet)
    show ?case
    proof (cases r)
      case (Ready x)
      with Cons.prems(2) poll kept show ?thesis by simp
    next
      case Pending
      have "flags_kept X fl io fd old st1 (outside (cx1\<lparr>outside := m (outside cx1)\<rparr>))"
        using Cons.prems(3) [of m "outside cx1"] by (simp add: flags_kept_cong [THEN iffD2, OF _ kept])
      from Cons.IH [OF this] Cons.prems poll Pending show ?thesis by simp
    qed
  qed simp
  from flags_kept_drop [OF laws this [OF _ life]] show ?thesis by (simp add: flags_kept_def)
qed

text \<open>While the wait on descriptor 3 is pending, the rest of the program sets flags of descriptor 4.\<close>

theorem cancelled_wait_restores_flags_witness:
  "\<exists>g cx. poll_through sample_fcntl \<lparr>io_value = VRef 5, backing_io = Some (File 3)\<rparr>
       (\<lambda>(i :: unit) cx. Some (Pending, i, cx)) [\<lambda>s. s, sample_setfl 4 2048] (Unstarted ())
       \<lparr>woken = False, outside = sample_start\<rparr> = Some (Guarded g (), cx) \<and>
     sample_flags (outside cx) 3 = 2050 \<and> sample_flags (outside cx) 4 = 2050 \<and>
     sample_flags (drop_guard sample_fcntl g (outside cx)) 3 = 2"
proof -
  let ?io = "\<lparr>io_value = VRef 5, backing_io = Some (File 3)\<rparr>" and ?inner = "\<lambda>(i :: unit) cx. Some (Pending, i, cx)"
  obtain t where made: "new_guard sample_fcntl 3 sample_start =
      (Ok \<lparr>raw_fd = 3, old_flags = sample_flags sample_start 3 AND oflag_all sample_fcntl\<rparr>, t)"
    and t: "sample_flags t = (sample_flags sample_start)(3 := sample_flags sample_start 3 OR O_NONBLOCK sample_fcntl)"
    by (rule new_guard_flags [OF sample_fcntl_laws])
  then obtain g where g: "poll_through sample_fcntl ?io ?inner [\<lambda>s. s, sample_setfl 4 2048] (Unstarted ())
      \<lparr>woken = False, outside = sample_start\<rparr> = Some (Guarded g (), \<lparr>woken = False, outside = sample_setfl 4 2048 t\<rparr>)"
    by (simp add: poll_guarded_def poll_inside_def with_nonblock_backing as_raw_fd_def)
  have others: "sample_flags (m s) 3 = sample_flags s 3" if "m \<in> set [\<lambda>s. s, sample_setfl 4 2048]" for m s
    using that by (auto simp: sample_setfl_def on_world_def)
  have "sample_flags (drop_guarded sample_fcntl (Guarded g ()) (outside \<lparr>woken = False, outside = sample_setfl 4 2048 t\<rparr>)) 3 =
      sample_flags (outside \<lparr>woken = False, outside = sample_start\<rparr>) 3"
    by (rule cancelled_wait_restores_flags [OF sample_fcntl_laws _ _ g]) (simp, rule others)
  then have "sample_flags (drop_guard sample_fcntl g (sample_setfl 4 2048 t)) 3 = sample_flags sample_start 3"
    by (simp add: drop_guarded_def)
  moreover have "sample_flags (sample_setfl 4 2048 t) = (sample_flags t)(4 := (sample_flags t 4 AND NOT 2048) OR 2048)"
    by (simp add: sample_setfl_def on_world_def)
  ultimately show ?thesis using g t by (simp add: sample_start_def sample_fcntl_def)
qed

section \<open>A future that is never dropped\<close>

text \<open>
  A future polled until it is ready, with what the rest of the program does between two polls:
  what awaiting it is. There is no result when the list ends first. Polled to its end, a block is
  its guard around the rest of it, run in one go, as \<open>IoWait\<close> and \<open>IoReadWrite\<close> have it.
\<close>

fun poll_to_end ::
  "('f, 's, 'r) poll_fn \<Rightarrow> ('s \<Rightarrow> 's) list \<Rightarrow> 'f \<Rightarrow> 's task_context \<Rightarrow> ('r \<times> 's) option" where
  "poll_to_end f [] st cx = None"
| "poll_to_end f (m # ms) st cx = (case f st cx of
     Some (Pending, st', cx') \<Rightarrow> poll_to_end f ms st' (cx'\<lparr>outside := m (outside cx')\<rparr>)
   | Some (Ready r, st', cx') \<Rightarrow> Some (r, outside cx')
   | None \<Rightarrow> None)"

lemma poll_inside_to_end:
  "poll_to_end (poll_guarded X io inner) ms (Guarded g i) cx =
   map_option (\<lambda>(r, t). (r, drop_guard X g t)) (poll_to_end inner ms i cx)"
  by (induction ms arbitrary: i cx) (auto simp: poll_guarded_def poll_inside_def split: option.splits poll.splits)

lemma poll_guarded_to_end:
  assumes awaited: "\<And>g t. with_nonblock X io (outside cx) = (Ok g, t) \<Longrightarrow>
      poll_to_end inner (m # ms) i (cx\<lparr>outside := t\<rparr>) = Some (body t)"
  shows "poll_to_end (poll_guarded X io inner) (m # ms) (Unstarted i) cx =
    Some (bracket (with_nonblock X io) (drop_guard X) (\<lambda>g. body) (outside cx))"
proof -
  obtain r t where made: "with_nonblock X io (outside cx) = (r, t)" by fastforce
  show ?thesis
  proof (cases r)
    case (Ok g)
    have "poll_to_end (poll_guarded X io inner) (m # ms) (Unstarted i) cx =
        poll_to_end (poll_guarded X io inner) (m # ms) (Guarded g i) (cx\<lparr>outside := t\<rparr>)"
      by (simp add: poll_guarded_def made Ok)
    with awaited made Ok show ?thesis
      by (simp only: poll_inside_to_end) (simp add: bracket_def try_then_Ok finally_do_def split_def)
  qed (simp_all add: made poll_guarded_def bracket_def try_then_def)
qed

end
