(* ===== verification/CrateTests.thy ===== *)
theory CrateTests
  imports GcCell IoBuffer IoWait
begin

text \<open>
  The unit tests the crate carries for its own modules (\<open>mod tests\<close> of \<open>gc_cell.rs\<close>, \<open>io_buffer.rs\<close> and
  \<open>io_wait.rs\<close>), on the definitions of this library: a test is the action of its body, and passes
  when that ends in \<open>Ok\<close>. What a test asks of the Ruby VM (the class names of the objects it
  makes, the bytes of a new buffer) is a hypothesis.
\<close>

section \<open>Assertions\<close>

definition assert_that :: "bool \<Rightarrow> ('s, unit, 'e) action" where
  "assert_that b = (if b then ret () else panic ''assertion failed'')"

definition unwrapped :: "('s, 'a, 'e) action \<Rightarrow> ('s, 'a, 'f) action" where
  "unwrapped m = match_result m ret (\<lambda>e. panic ''called `Result::unwrap()` on an `Err` value'')"

text \<open>\<open>assert!(m.is_err())\<close> and \<open>assert!(m.is_ok())\<close>, whose temporary is dropped at the end of the statement.\<close>

definition assert_err :: "('g \<Rightarrow> 's \<Rightarrow> 's) \<Rightarrow> ('s, 'g, 'e) action \<Rightarrow> ('s, unit, 'f) action" where
  "assert_err release m = match_result m
     (\<lambda>g. try_then (modify (release g)) (\<lambda>u. assert_that False)) (\<lambda>e. assert_that True)"

definition assert_ok :: "('g \<Rightarrow> 's \<Rightarrow> 's) \<Rightarrow> ('s, 'g, 'e) action \<Rightarrow> ('s, unit, 'f) action" where
  "assert_ok release m = match_result m
     (\<lambda>g. try_then (modify (release g)) (\<lambda>u. assert_that True)) (\<lambda>e. assert_that False)"

definition passes :: "('s, unit, error) action \<Rightarrow> 's \<Rightarrow> bool" where
  "passes test s \<longleftrightarrow> fst (test s) = Ok ()"

section \<open>The cell\<close>

type_synonym cell_test = "(int GcCell, unit, error) action"

definition allows_multiple_immutable_borrows :: cell_test where
  "allows_multiple_immutable_borrows =
     try_then (unwrapped try_borrow) (\<lambda>ref1.
     try_then (unwrapped try_borrow) (\<lambda>ref2.
     try_then (try_then (gets (deref ref1)) (\<lambda>v. assert_that (v = 1))) (\<lambda>u.
     try_then (try_then (gets (deref ref2)) (\<lambda>v. assert_that (v = 1))) (\<lambda>u.
     try_then (modify (drop_ref ref1)) (\<lambda>u.
     modify (drop_ref ref2))))))"

definition disallows_multiple_mut_borrows :: cell_test where
  "disallows_multiple_mut_borrows =
     try_then (unwrapped try_borrow_mut) (\<lambda>ref1.
     try_then (assert_err drop_ref_mut try_borrow_mut) (\<lambda>u.
     try_then (modify (drop_ref_mut ref1)) (\<lambda>u.
     try_then (unwrapped try_borrow_mut) (\<lambda>ref2.
     try_then (assert_err drop_ref_mut try_borrow_mut) (\<lambda>u.
     modify (drop_ref_mut ref2))))))"

definition disallows_mixed_borrows :: cell_test where
  "disallows_mixed_borrows =
     try_then (unwrapped try_borrow) (\<lambda>ref1.
     try_then (assert_err drop_ref_mut try_borrow_mut) (\<lambda>u.
     try_then (modify (drop_ref ref1)) (\<lambda>u.
     try_then (unwrapped try_borrow_mut) (\<lambda>ref2.
     try_then (assert_err drop_ref try_borrow) (\<lambda>u.
     modify (drop_ref_mut ref2))))))"

definition allows_borrow_after_drop :: cell_test where
  "allows_borrow_after_drop =
     try_then (try_then (unwrapped try_borrow) (\<lambda>ref1. modify (drop_ref ref1))) (\<lambda>u.
     assert_ok drop_ref try_borrow)"

definition allows_mutable_borrow_after_drop :: cell_test where
  "allows_mutable_borrow_after_drop =
     try_then (try_then (unwrapped try_borrow_mut) (\<lambda>ref1. modify (drop_ref_mut ref1))) (\<lambda>u.
     assert_ok drop_ref_mut try_borrow_mut)"

lemmas test_defs = assert_that_def unwrapped_def assert_err_def assert_ok_def effect_defs

text \<open>The tests of the cell pass, each from the new cell it makes, and leave no borrow behind.\<close>

lemma cell_tests_pass:
  assumes "test \<in> {allows_multiple_immutable_borrows, disallows_multiple_mut_borrows,
    disallows_mixed_borrows, allows_borrow_after_drop, allows_mutable_borrow_after_drop}"
  shows "test (new_cell 1) = (Ok (), new_cell 1)"
  using assms
  by (auto simp: allows_multiple_immutable_borrows_def disallows_multiple_mut_borrows_def
      disallows_mixed_borrows_def allows_borrow_after_drop_def allows_mutable_borrow_after_drop_def
      test_defs try_borrow_def try_borrow_mut_def drop_ref_def drop_ref_mut_def new_cell_def
      count_positive_def deref_def)

section \<open>The buffer\<close>

text \<open>\<open>to_string\<close> of an error of the class \<open>TypeError\<close>.\<close>

definition type_error_text :: "error \<Rightarrow> string" where
  "type_error_text e = (case e of Error TypeError msg \<Rightarrow> ''TypeError: '' @ msg | _ \<Rightarrow> [])"

definition unwrapped_err :: "('s, 'a, 'e) action \<Rightarrow> ('s, 'e, 'f) action" where
  "unwrapped_err m = match_result m (\<lambda>v. panic ''called `Result::unwrap_err()` on an `Ok` value'') ret"

definition fails_to_convert_non_io_buffer :: "'s ruby_vm \<Rightarrow> 's buffer_ops \<Rightarrow> ('s, unit, error) action" where
  "fails_to_convert_non_io_buffer R B =
     try_then (unwrapped_err (try_convert_buffer R B VNil)) (\<lambda>e.
     try_then (assert_that (type_error_text e = ''TypeError: expected an IO::Buffer, got NilClass'')) (\<lambda>u.
     try_then (gets (current R)) (\<lambda>f.
     try_then (unwrapped_err (try_convert_buffer R B (deref_fiber f))) (\<lambda>e.
     assert_that (''TypeError: expected an IO::Buffer, got Fiber'' = type_error_text e)))))"

text \<open>\<open>io_buffer\<close> is what \<open>eval!\<close> made.\<close>

definition converts_io_buffer :: "'s ruby_vm \<Rightarrow> 's buffer_ops \<Rightarrow> Value \<Rightarrow> ('s, unit, error) action" where
  "converts_io_buffer R B io_buffer =
     try_then (unwrapped (try_convert_buffer R B io_buffer)) (\<lambda>b.
     try_then (gets (rb_classname R (buffer_into_value b))) (\<lambda>name.
     assert_that (''IO::Buffer'' = name)))"

definition slice_bytes :: "'s buffer_ops \<Rightarrow> slice \<Rightarrow> 's \<Rightarrow> 8 word list" where
  "slice_bytes B buf s = mem_load B (slice_base buf) (unat (slice_len buf)) s"

definition mut_slice_is_zeroed :: "'s ruby_vm \<Rightarrow> 's buffer_ops \<Rightarrow> Value \<Rightarrow> ('s, unit, error) action" where
  "mut_slice_is_zeroed R B io_buffer =
     try_then (unwrapped (try_convert_buffer R B io_buffer)) (\<lambda>b.
     try_then (unwrapped (as_mut_slice B b)) (\<lambda>buf.
     try_then (gets (slice_bytes B buf)) (\<lambda>bytes.
     assert_that (replicate 65536 0 = bytes))))"

definition slice_is_foo :: "'s ruby_vm \<Rightarrow> 's buffer_ops \<Rightarrow> Value \<Rightarrow> ('s, unit, error) action" where
  "slice_is_foo R B io_buffer =
     try_then (unwrapped (try_convert_buffer R B io_buffer)) (\<lambda>b.
     try_then (unwrapped (as_slice B b)) (\<lambda>buf.
     try_then (gets (slice_bytes B buf)) (\<lambda>bytes.
     assert_that ([102, 111, 111] = bytes))))"

text \<open>
  The tests of the buffer pass on every VM that gives the fiber and \<open>nil\<close> their class names, takes an
  \<open>IO::Buffer\<close> for typed data of that class, and has the bytes that a new buffer holds.
\<close>

lemma buffer_tests_pass:
  assumes names: "rb_classname R VNil s = ''NilClass''" "rb_classname R (VRef (rb_fiber_current R s)) s = ''Fiber''"
    and buffer: "rb_typed_data B r s" "rb_classname R (VRef r) s = ''IO::Buffer''"
  shows "passes (fails_to_convert_non_io_buffer R B) s" and "passes (converts_io_buffer R B (VRef r)) s"
    and "get_bytes_for_writing B r s = (Ok (addr, len), s) \<Longrightarrow>
      mem_load B addr (unat len) s = replicate 65536 0 \<Longrightarrow> passes (mut_slice_is_zeroed R B (VRef r)) s"
    and "get_bytes_for_reading B r s = (Ok (addr, len), s) \<Longrightarrow>
      mem_load B addr (unat len) s = [102, 111, 111] \<Longrightarrow> passes (slice_is_foo R B (VRef r)) s"
proof -
  have converted: "try_convert_buffer R B (VRef r) s = (Ok (RubyIoBuffer r), s)"
    using buffer by (simp add: try_convert_buffer_def)
  show "passes (fails_to_convert_non_io_buffer R B) s"
    using names by (simp add: passes_def fails_to_convert_non_io_buffer_def test_defs unwrapped_err_def
        type_error_text_def try_convert_buffer_def not_io_buffer_def deref_fiber_def current_def)
  show "passes (converts_io_buffer R B (VRef r)) s"
    using converted buffer by (simp add: passes_def converts_io_buffer_def test_defs buffer_into_value_def)
  show "passes (mut_slice_is_zeroed R B (VRef r)) s"
    if "get_bytes_for_writing B r s = (Ok (addr, len), s)" "mem_load B addr (unat len) s = replicate 65536 0"
    using converted that
    by (simp add: passes_def mut_slice_is_zeroed_def test_defs as_mut_slice_def slice_bytes_def)
  show "passes (slice_is_foo R B (VRef r)) s"
    if "get_bytes_for_reading B r s = (Ok (addr, len), s)" "mem_load B addr (unat len) s = [102, 111, 111]"
    using converted that by (simp add: passes_def slice_is_foo_def test_defs as_slice_def slice_bytes_def)
qed

section \<open>The event mask\<close>

text \<open>
  \<open>eval!\<close> converts what it evaluated; \<open>readable\<close> and \<open>writable\<close> are the two constants. The
  part of the test for Linux names a type that the crate does not have, \<open>RubyIoInterests\<close>.
\<close>

definition conversions_from_ruby_io_interests ::
  "(Value \<Rightarrow> (32 word, error) outcome) \<Rightarrow> event_masks \<Rightarrow> Value \<Rightarrow> Value \<Rightarrow> ('s, unit, error) action" where
  "conversions_from_ruby_io_interests try_u32 M readable writable =
     try_then (unwrapped (lift_outcome (try_convert_event try_u32 M readable))) (\<lambda>e.
     try_then (unwrapped (lift_outcome (interest_of_event M e))) (\<lambda>i.
     try_then (assert_that (INTEREST_READABLE = i)) (\<lambda>u.
     try_then (unwrapped (lift_outcome (try_convert_event try_u32 M writable))) (\<lambda>e.
     try_then (unwrapped (lift_outcome (interest_of_event M e))) (\<lambda>i.
     assert_that (INTEREST_WRITABLE = i))))))"

lemma event_test_passes:
  "passes (conversions_from_ruby_io_interests (\<lambda>v. case v of VInt i \<Rightarrow> Ok (of_int i) | _ \<Rightarrow> Err (new_type_error []))
     \<lparr>RUBY_IO_READABLE = 1, RUBY_IO_WRITABLE = 4, RUBY_IO_PRIORITY = 2\<rparr> (VInt 1) (VInt 4)) s"
  by (simp add: passes_def conversions_from_ruby_io_interests_def test_defs try_convert_event_def event_from_bits_def
      all_events_def interest_of_event_def contains_def EVENT_READABLE_def EVENT_WRITABLE_def EVENT_PRIORITY_def)

end
