(* ===== verification/Spec2Isabelle.thy ===== *)
theory Spec2Isabelle
  imports GcCellThreads SystemSamples AnswerTypes DroppedFutures CrateTests
begin

text \<open>
  Verification library of shreduler, a Ruby fiber scheduler on the Tokio runtime
  (\<open>src/ext/shreduler/src\<close>; file names below are relative to it).

  \<^bold>\<open>The program.\<close> Ruby calls a method of the scheduler (a hook) when a fiber is about to wait. The
  hook makes a future, puts it with a handle on the running fiber on a task set, and switches to
  the root fiber. There the event loop awaits the next task to finish, and switches to its fiber
  with the result. Two fields of the scheduler are shared by all of this, the task set and the
  table of blocked fibers, and both are in a cell that checks borrows at run time. So the
  questions are: who holds which borrow when, does every waiting fiber get its own answer, and
  what is left behind on the paths that fail.

  \<^bold>\<open>How it is modelled.\<close> A function that returns a \<open>Result\<close> and may panic is an \<open>action\<close>: it takes the
  state and gives \<open>Ok\<close>, \<open>Err\<close> or \<open>Panic\<close> with the state it leaves (\<open>Prelude\<close>). Dropping a future before it ran drops what it
  captured: the receiver of a channel, or the tasks of a select. A runtime call that panics unwinds
  through its caller (\<open>Unwound\<close>, and \<open>run\<close> inside a running runtime). The state of the
  scheduler is the record of its struct with a field for the world outside. What the crate calls
  outside its source is a field of a record that is passed in: the Ruby VM (\<open>ruby_vm\<close>), the
  runtime's task set, channel, clock and select (\<open>platform\<close>), Tokio's IO objects and buffers,
  \<open>fcntl\<close>, \<open>waitpid\<close>, the resolver. Such a call acts on the whole state, so it may run other fibers
  that come back into the scheduler. An \<open>async\<close> block is a constructor of \<open>future\<close> with what it
  captures; the definition that runs it awaits by calling the parameter that stands for the
  awaited future. Properties that need something of a parameter name it as a law: what the
  documentation of that code says (\<open>fcntl_laws\<close>, \<open>oneshot_laws\<close>, \<open>join_next_laws\<close>, ...). \<open>Samples\<close>
  is a concrete platform on which every law holds; the witnesses evaluate on it.

  \<^bold>\<open>Theories\<close>, in the order they build on each other:
  \<^item> \<open>Prelude\<close>: outcomes, actions, polls, decimal text. \<open>RubyTypes\<close>: values, exception classes and the
    errors of \<open>errors.rs\<close>. \<open>Interfaces\<close>: the locales \<open>exclusive_access\<close>, \<open>hash_key\<close>, \<open>keyed_table\<close> and
    \<open>future_contract\<close>. \<open>Nilable\<close>: \<open>nilable.rs\<close>.
  \<^item> \<open>GcCell\<close>: \<open>gc_cell.rs\<close>, with the invariant of its counters over all orders of calls and a refinement
    to a reader-writer lock; it provides \<open>exclusive_access\<close>. \<open>GcCellThreads\<close>: the same borrows as
    single atomic operations that threads may interleave.
  \<^item> \<open>RubyVm\<close>: the calls into the virtual machine. \<open>Intern\<close>: \<open>intern.rs\<close> and every other object that is
    looked up once under \<open>memoize!\<close> (the classes of \<open>errors.rs\<close>, of the cell, of \<open>Fiber\<close> and of the
    scheduler). \<open>Fiber\<close>: \<open>fiber.rs\<close>; it provides \<open>hash_key\<close>.
    \<open>FiberFuture\<close>: \<open>fiber_future.rs\<close>; it provides \<open>future_contract\<close>.
  \<^item> \<open>TimeoutDuration\<close>: \<open>timeout_duration.rs\<close> with the durations and instants of \<open>std::time\<close>, on their 64
    and 32 bits. \<open>RubyIo\<close>: \<open>ruby_io.rs\<close>. \<open>IoBuffer\<close>: \<open>io_buffer.rs\<close>.
  \<^item> \<open>Futures\<close>: the futures and the runtime objects they use. \<open>Scheduler\<close>: \<open>tokio_scheduler.rs\<close>
    with its \<open>init\<close>, the one of \<open>lib.rs\<close>, and the \<open>Debug\<close> texts of the crate.
    \<open>Samples\<close>: the sample platform.
  \<^item> \<open>Timeouts\<close>: \<open>timeout_after.rs\<close> and \<open>kernel_sleep.rs\<close>. \<open>RunLoop\<close>: \<open>close.rs\<close> and \<open>thread.rs\<close>. \<open>BlockUnblock\<close>:
    \<open>block_unblock.rs\<close>; it provides \<open>keyed_table\<close>. \<open>IoWait\<close>, \<open>IoSelect\<close>, \<open>IoReadWrite\<close>, \<open>ProcessWait\<close> (which
    provides \<open>future_contract\<close>), \<open>AddressResolve\<close>, \<open>FiberSpawn\<close>: the file of that name in
    \<open>tokio_scheduler/\<close>.
  \<^item> \<open>Hooks\<close>: all hooks and all futures together, and the properties that span components.
  \<^item> \<open>DroppedFutures\<close>: the futures that hold a non-blocking guard, poll by poll, dropped at any time.
    \<open>AnswerTypes\<close>: the type of what each hook answers with.
  \<^item> \<open>Accounts\<close>: what the scheduler promises of all fibers, as an abstract machine of its own. \<open>System\<close>:
    the machine whose steps are the operations of the crate, its refinement of \<open>Accounts\<close> and what
    follows from it. \<open>SystemSamples\<close>: a concrete VM and task set on which its laws hold.
  \<^item> \<open>CrateTests\<close>: the crate's unit tests on these definitions.

  \<^bold>\<open>What is shown.\<close>
  \<^item> All fibers: any number of fibers may call hooks, unblock, spawn and end in any order, and a
    fiber at work is always the root, the running one, the owner of exactly one task, or the
    parent of a fiber at work, unless the loop passed it over because its task panicked, was
    aborted or ended in a jump. Whom an ending fiber returns to is read off the block that
    \<open>fiber_impl\<close> made it with. So no wait is lost in any other way, an answer reaches the wait it
    is for, and the loop returns success when every fiber has run to its end (\<open>System\<close>).
  \<^item> Borrowing: readers and writers of a cell exclude each other (\<open>GcCell\<close>); across threads its
    counters stay exact but exclusion is lost (\<open>GcCellThreads\<close>); the loop holds the task set only while it awaits (\<open>RunLoop\<close>); every
    hook adds one task or fails with the set as it was, and while the loop awaits every hook
    fails (\<open>Hooks\<close>).
  \<^item> Answers: a fiber future stays with its fiber and is polled again while it is pending; a
    finished future switches to its fiber once, with its own result; \<open>unblock\<close> delivers \<open>true\<close> to the
    blocked fiber; every answer has the type of its hook, which for \<open>block\<close>
    rests on \<open>unblock\<close> sending booleans only (\<open>AnswerTypes\<close>); a spawned fiber runs at once and its
    block returns to its caller (\<open>FiberSpawn\<close>); a sleeping fiber gets the seconds it slept; a process wait registers for the
    signal before it looks.
  \<^item> Ends: the loop returns success only when no task is left, it returns when the work left is
    bounded, a poll of the process wait returns when the delivered signals are finitely many,
    and \<open>close\<close> shuts down once.
  \<^item> Branches: the result of each operation on each of its branches, with errors and panics;
    timeouts to the nanosecond; descriptor flags restored on every way out,
    also when the wait is cancelled between two polls, as long as nobody else changes the flags of
    that descriptor meanwhile (\<open>DroppedFutures\<close>). A name, a class or the
    empty array is looked up once and is then the same object (\<open>Intern\<close>).
  \<^item> What does not hold: an unfinished timeout is not cancelled and is raised where no hook
    works; a timed-out block leaves its entry behind; overlapping guards leave a descriptor in
    the wrong mode; a wait for writing answers readable; a read may give less than its minimum; a
    refused process wait never ends; the empty slots of all answers of \<open>io_select\<close> are one array; a
    timeout panics when the \<open>timeout\<close> library is not loaded.

  \<^bold>\<open>Loops.\<close> \<open>check_interrupts\<close>, \<open>run_loop\<close> and \<open>poll_pid_waiter\<close> may run for ever. They are partial
  functions into \<open>option\<close>, where \<open>None\<close> is not returning; no fuel is chosen anywhere. That they
  return is a property of its own (\<open>run_loop_terminates\<close>, \<open>pid_waiter_poll_returns\<close>) for the last
  two; the interrupt check returns only when it raises.

  \<^bold>\<open>What is not modelled.\<close> The trace output of the methods and the set-up of tracing, which \<open>init\<close>
  calls as a parameter; the \<open>Debug\<close> output that is derived; the re-exports of \<open>prelude.rs\<close> and the build
  script; the Ruby files. Error texts that contain \<open>Debug\<close> output take that part from a parameter.
  An error carries the name of its class: that it looks the class up, and panics when there is
  none, is a theorem of \<open>Intern\<close> and not a branch of every error path. The bytes of a buffer are
  read at the moment they are handed to the writer, not while other fibers may change them. An
  array given to \<open>io_select\<close> is what its iterator yields. The machine of \<open>System\<close> has no tasks of
  \<open>timeout_after\<close>, whose effects are theorems of \<open>Timeouts\<close> and \<open>Hooks\<close>, and no block in a closure that ends in a
  jump.
\<close>

end
